(* ===== verification/Prelude.thy ===== *)
theory Prelude
  imports Main "HOL-Library.Word" "HOL-Library.Char_ord" "HOL-Library.List_Lexorder"
begin

text \<open>
  Shared vocabulary of the development: machine integers and their bytes, C strings as
  byte sequences with the string functions the sources use, and the outcome of a
  computation that may end the process.
\<close>

unbundle bit_operations_syntax

named_theorems wire_simps "equations that decode what was encoded"

type_synonym u8 = "8 word"
type_synonym u32 = "32 word"

subsection \<open>How a call ends\<close>

text \<open>
  A call returns a value, ends the process with an exit status
  (\<open>exit\<close>, \<open>_exit\<close>, \<open>logErrorAndDie\<close>, \<open>die\<close>), or runs into behaviour that
  the language leaves undefined.
\<close>

datatype ub = NullDereference | IndeterminateValue | OutOfBounds

datatype 'a outcome = Returns 'a | Exits int | Undefined ub

fun and_then :: "'a outcome \<Rightarrow> ('a \<Rightarrow> 'b outcome) \<Rightarrow> 'b outcome" where
  "and_then (Returns x) f = f x"
| "and_then (Exits n) f = Exits n"
| "and_then (Undefined u) f = Undefined u"

lemma and_then_Returns [simp]: "and_then m Returns = m"
  by (cases m) simp_all

lemma and_then_assoc: "and_then (and_then m f) g = and_then m (\<lambda>x. and_then (f x) g)"
  by (cases m) simp_all

lemma and_then_eq_Returns:
  "and_then m f = Returns y \<longleftrightarrow> (\<exists>x. m = Returns x \<and> f x = Returns y)"
  by (cases m) simp_all

lemma and_then_cong [fundef_cong]:
  "m = m' \<Longrightarrow> (\<And>x. m' = Returns x \<Longrightarrow> f x = g x) \<Longrightarrow> and_then m f = and_then m' g"
  by (cases m') auto

subsection \<open>Words on the wire\<close>

text \<open>
  A byte is a \<open>char\<close>, so a C string is its own byte sequence followed by a
  zero byte. A \<open>uint32_t\<close> written to a local socket or a pipe is in the host's
  byte order (little endian on the ARM and x86 targets; both ends are one host).
\<close>

type_synonym byte = char

definition le32 :: "u32 \<Rightarrow> byte list" where
  "le32 w = map char_of [unat w, unat w div 256, unat w div 65536, unat w div 16777216]"

fun from_le32 :: "byte list \<Rightarrow> u32" where
  "from_le32 [a, b, c, d] =
     word_of_nat (of_char a + 256 * of_char b + 65536 * of_char c + 16777216 * of_char d)"
| "from_le32 _ = 0"

lemma length_le32 [simp]: "length (le32 w) = 4"
  by (simp add: le32_def)

lemma base256_digits:
  assumes "(n::nat) < 4294967296"
  shows "n mod 256 + 256 * (n div 256 mod 256) + 65536 * (n div 65536 mod 256)
      + 16777216 * (n div 16777216 mod 256) = n"
proof -
  have a: "n mod 65536 = 256 * (n div 256 mod 256) + n mod 256"
    using mod_mult2_eq [of n 256 256] by simp
  have b: "n mod 16777216 = 65536 * (n div 65536 mod 256) + n mod 65536"
    using mod_mult2_eq [of n 65536 256] by simp
  have c: "n mod 4294967296 = 16777216 * (n div 16777216 mod 256) + n mod 16777216"
    using mod_mult2_eq [of n 16777216 256] by simp
  from a b c assms show ?thesis by simp
qed

lemma from_le32_le32 [simp, wire_simps]: "from_le32 (le32 w) = w"
proof -
  have "unat w < 4294967296" using unsigned_less [of w] by simp
  note e = base256_digits [OF this]
  have "from_le32 (le32 w) = word_of_nat (unat w)"
    by (simp only: le32_def list.map from_le32.simps of_char_of e)
  then show ?thesis by simp
qed

lemma le32_inject [simp]: "le32 v = le32 w \<longleftrightarrow> v = w"
  by (metis from_le32_le32)

lemma unat_of_nat_u32 [wire_simps]: "n < 4294967296 \<Longrightarrow> unat (word_of_nat n :: u32) = n"
  by (simp add: unat_of_nat take_bit_nat_eq_self_iff)

subsection \<open>C strings\<close>

text \<open>
  What \<open>strlen\<close> and the string functions see of a buffer: the bytes before
  the first zero byte.
\<close>

abbreviation NUL :: byte where "NUL \<equiv> CHR 0x00"

definition c_str :: "byte list \<Rightarrow> string" where
  "c_str bs = takeWhile (\<lambda>b. b \<noteq> NUL) bs"

definition is_c_str :: "string \<Rightarrow> bool" where
  "is_c_str s \<longleftrightarrow> NUL \<notin> set s"

lemma c_str_terminated [simp]: "is_c_str s \<Longrightarrow> c_str (s @ NUL # bs) = s"
  by (auto simp: c_str_def is_c_str_def takeWhile_tail)

lemma is_c_str_c_str [simp, intro]: "is_c_str (c_str bs)"
  by (auto simp: c_str_def is_c_str_def dest: set_takeWhileD)

lemma is_c_str_simps [simp]:
  "is_c_str []"
  "is_c_str (c # s) \<longleftrightarrow> c \<noteq> NUL \<and> is_c_str s"
  "is_c_str (s @ t) \<longleftrightarrow> is_c_str s \<and> is_c_str t"
  by (auto simp: is_c_str_def)

lemma length_c_str: "length (c_str bs) \<le> length bs"
  by (simp add: c_str_def length_takeWhile_le)

lemma c_str_id [simp]: "is_c_str s \<Longrightarrow> c_str s = s"
  by (auto simp: c_str_def is_c_str_def takeWhile_eq_all_conv)

text \<open>A buffer with a zero in its last byte holds a string shorter than the buffer.\<close>

lemma length_c_str_update_last:
  "bs \<noteq> [] \<Longrightarrow> length (c_str (bs[length bs - 1 := NUL])) < length bs"
proof -
  assume "bs \<noteq> []"
  then have "NUL \<in> set (bs[length bs - 1 := NUL])"
    by (simp add: set_update_memI)
  then have "c_str (bs[length bs - 1 := NUL]) \<noteq> bs[length bs - 1 := NUL]"
    by (metis is_c_str_c_str is_c_str_def)
  moreover have "length (c_str (bs[length bs - 1 := NUL])) \<le> length bs"
    by (metis length_c_str length_list_update)
  ultimately show ?thesis
    by (metis c_str_def length_list_update order_le_less takeWhile_eq_take take_all_iff order_refl)
qed

text \<open>\<open>strstr\<close>: the position of the first occurrence.\<close>

fun strstr :: "string \<Rightarrow> string \<Rightarrow> nat option" where
  "strstr [] t = (if t = [] then Some 0 else None)"
| "strstr (c # s) t = (if take (length t) (c # s) = t then Some 0
     else map_option Suc (strstr s t))"

lemma strstr_prefix: "strstr s t = Some n \<Longrightarrow> take (length t) (drop n s) = t"
  by (induction s t arbitrary: n rule: strstr.induct) (auto split: if_splits)

text \<open>The parts of a string between separators, and \<open>isspace\<close> in the C locale.\<close>

fun split_on :: "char \<Rightarrow> string \<Rightarrow> string \<Rightarrow> string list" where
  "split_on sep acc [] = [acc]"
| "split_on sep acc (c # cs) = (if c = sep then acc # split_on sep [] cs else split_on sep (acc @ [c]) cs)"

definition isspace :: "char \<Rightarrow> bool" where
  "isspace c \<longleftrightarrow> c = CHR '' '' \<or> 9 \<le> (of_char c :: nat) \<and> (of_char c :: nat) \<le> 13"

end
