(* ===== verification/Std_Map.thy ===== *)
theory Std_Map
  imports Prelude
begin

text \<open>
  \<open>std::map\<close> as the daemon and the socket manager use it: a finite map whose
  iteration visits the keys in ascending order. It is kept as the association
  list of its entries in iteration order. The locale is the interface the
  components rely on; its interpretation on the operations below discharges the laws.
\<close>

type_synonym ('k, 'v) smap = "('k \<times> 'v) list"

fun smap_find :: "('k, 'v) smap \<Rightarrow> 'k \<Rightarrow> 'v option" where
  "smap_find [] k = None"
| "smap_find ((k', v) # m) k = (if k = k' then Some v else smap_find m k)"

fun smap_set :: "'k::linorder \<Rightarrow> 'v \<Rightarrow> ('k, 'v) smap \<Rightarrow> ('k, 'v) smap" where
  "smap_set k v [] = [(k, v)]"
| "smap_set k v ((k', v') # m) =
     (if k < k' then (k, v) # (k', v') # m
      else if k = k' then (k, v) # m
      else (k', v') # smap_set k v m)"

fun smap_erase :: "'k \<Rightarrow> ('k, 'v) smap \<Rightarrow> ('k, 'v) smap" where
  "smap_erase k [] = []"
| "smap_erase k ((k', v) # m) = (if k = k' then m else (k', v) # smap_erase k m)"

definition smap_keys :: "('k, 'v) smap \<Rightarrow> 'k list" where
  "smap_keys m = map fst m"

definition smap_ok :: "('k::linorder, 'v) smap \<Rightarrow> bool" where
  "smap_ok m \<longleftrightarrow> sorted_wrt (<) (map fst m)"

locale std_map =
  fixes empty :: "'m"
    and find :: "'m \<Rightarrow> 'k::linorder \<Rightarrow> 'v option"
    and set_at :: "'k \<Rightarrow> 'v \<Rightarrow> 'm \<Rightarrow> 'm"
    and erase :: "'k \<Rightarrow> 'm \<Rightarrow> 'm"
    and entries :: "'m \<Rightarrow> ('k \<times> 'v) list"
    and ok :: "'m \<Rightarrow> bool"
  assumes ok_empty: "ok empty"
    and ok_set: "ok m \<Longrightarrow> ok (set_at k v m)"
    and ok_erase: "ok m \<Longrightarrow> ok (erase k m)"
    and find_empty: "find empty k = None"
    and find_set: "ok m \<Longrightarrow> find (set_at k v m) k' = (if k' = k then Some v else find m k')"
    and find_erase: "ok m \<Longrightarrow> find (erase k m) k' = (if k' = k then None else find m k')"
    and entries_find: "ok m \<Longrightarrow> (k, v) \<in> set (entries m) \<longleftrightarrow> find m k = Some v"
    and entries_sorted: "ok m \<Longrightarrow> sorted_wrt (<) (map fst (entries m))"
begin

lemma find_set_same: "ok m \<Longrightarrow> find (set_at k v m) k = Some v"
  by (simp add: find_set)

lemma find_set_other: "ok m \<Longrightarrow> k' \<noteq> k \<Longrightarrow> find (set_at k v m) k' = find m k'"
  by (simp add: find_set)

lemma find_None_iff: "ok m \<Longrightarrow> find m k = None \<longleftrightarrow> k \<notin> fst ` set (entries m)"
proof -
  assume "ok m"
  then have "k \<in> fst ` set (entries m) \<longleftrightarrow> (\<exists>v. find m k = Some v)"
    by (simp add: image_iff Bex_def entries_find)
  then show ?thesis by auto
qed

lemma distinct_keys: "ok m \<Longrightarrow> distinct (map fst (entries m))"
  using entries_sorted strict_sorted_iff by blast

lemma entries_set:
  "ok m \<Longrightarrow> set (entries (set_at k v m)) = insert (k, v) {e \<in> set (entries m). fst e \<noteq> k}"
  by (auto simp: entries_find find_set ok_set split: if_splits)

lemma entries_erase:
  "ok m \<Longrightarrow> set (entries (erase k m)) = {e \<in> set (entries m). fst e \<noteq> k}"
  by (auto simp: entries_find find_erase ok_erase split: if_splits)

lemma ok_fold_set: "ok m \<Longrightarrow> ok (fold (\<lambda>(k, v). set_at k v) kvs m)"
  by (induction kvs arbitrary: m) (auto simp: ok_set)

lemma find_fold_set:
  "ok m \<Longrightarrow> find (fold (\<lambda>(k, v). set_at k v) kvs m) k =
     (case map_of (rev kvs) k of None \<Rightarrow> find m k | Some v \<Rightarrow> Some v)"
  by (induction kvs arbitrary: m)
    (auto simp: ok_set find_set map_add_def split: option.splits)

end

lemma smap_find_map_of: "smap_find m = map_of m"
proof
  show "smap_find m k = map_of m k" for k
    by (induction m k rule: smap_find.induct) auto
qed

lemma smap_find_None_notin: "k \<notin> fst ` set m \<Longrightarrow> smap_find m k = None"
  by (auto simp: smap_find_map_of map_of_eq_None_iff)

lemma smap_find_below: "\<forall>x\<in>set m. (k::'k::linorder) < fst x \<Longrightarrow> smap_find m k = None"
  by (rule smap_find_None_notin) auto

lemma smap_find_set: "smap_ok m \<Longrightarrow> smap_find (smap_set k v m) k' = (if k' = k then Some v else smap_find m k')"
  by (induction k v m rule: smap_set.induct) (auto simp: smap_ok_def)

lemma fst_set_smap_set: "fst ` set (smap_set k v m) = insert k (fst ` set m)"
  by (induction k v m rule: smap_set.induct) auto

lemma smap_ok_Cons: "smap_ok ((k, v) # m) \<longleftrightarrow> (\<forall>x \<in> fst ` set m. k < x) \<and> smap_ok m"
  by (auto simp: smap_ok_def)

lemma smap_ok_set: "smap_ok m \<Longrightarrow> smap_ok (smap_set k v m)"
proof (induction k v m rule: smap_set.induct)
  case (1 k v)
  then show ?case by (simp add: smap_ok_def)
next
  case (2 k v k' v' m)
  then show ?case
    by (auto simp: smap_ok_Cons fst_set_smap_set not_less)
qed

lemma set_smap_erase: "set (smap_erase k m) \<subseteq> set m"
  by (induction k m rule: smap_erase.induct) auto

lemma smap_ok_erase: "smap_ok m \<Longrightarrow> smap_ok (smap_erase k m)"
  using set_smap_erase by (induction k m rule: smap_erase.induct) (fastforce simp: smap_ok_Cons)+

lemma smap_find_erase:
  "smap_ok m \<Longrightarrow> smap_find (smap_erase k m) k' = (if k' = k then None else smap_find m k')"
  by (induction k m rule: smap_erase.induct)
    (auto simp: smap_ok_Cons smap_find_below)

lemma smap_entries_find: "smap_ok m \<Longrightarrow> (k, v) \<in> set m \<longleftrightarrow> smap_find m k = Some v"
  by (simp add: smap_find_map_of smap_ok_def strict_sorted_iff map_of_eq_Some_iff)

interpretation smap: std_map "[]" smap_find smap_set smap_erase "\<lambda>m. m" smap_ok
  by unfold_locales
    (auto simp: smap_ok_set smap_ok_erase smap_find_set smap_find_erase smap_entries_find,
      auto simp: smap_ok_def)

lemmas smap_simps = smap.find_empty smap.find_set smap.find_erase smap.ok_set smap.ok_erase smap.ok_empty

end
