(* ===== verification/Process.thy ===== *)
theory Process
  imports Std_Map
begin

text \<open>
  The process as launcher, booster and application share it: identity, priority,
  descriptor table, environment, argument memory. The system calls the sources use are
  definitions on it, after their manual pages: the C library and the kernel interface
  are the language's own vocabulary, what they answer beyond that is an input.
\<close>

record proc =
  p_pid :: int
  p_nice :: int
  p_getpriority_fails :: bool
  p_ruid :: u32
  p_euid :: u32
  p_suid :: u32
  p_rgid :: u32
  p_egid :: u32
  p_sgid :: u32
  p_fds :: "(int, nat) smap"
  p_environ :: "string list"
  p_args :: "byte list"
  p_comm :: string
  p_cwd :: string
  p_oom :: string
  p_pdeathsig :: int
  p_dumpable :: bool
  p_sid :: int
  p_dfl :: "int list"
  p_sent :: "byte list list"
  p_pipe_broken :: bool
  p_slept :: "int list"
  p_umask :: nat

definition EXIT_SUCCESS :: int where "EXIT_SUCCESS = 0"
definition EXIT_FAILURE :: int where "EXIT_FAILURE = 1"

subsection \<open>Descriptors\<close>

text \<open>
  An open descriptor refers to an open file description, numbered here. New descriptors
  get the lowest free number.
\<close>

abbreviation fd_file :: "proc \<Rightarrow> int \<Rightarrow> nat option" where
  "fd_file p fd \<equiv> smap_find (p_fds p) fd"

definition sys_close :: "int \<Rightarrow> proc \<Rightarrow> int \<times> proc" where
  "sys_close fd p = (case fd_file p fd of
       None \<Rightarrow> (-1, p)
     | Some _ \<Rightarrow> (0, p\<lparr>p_fds := smap_erase fd (p_fds p)\<rparr>))"

abbreviation close_fd :: "int \<Rightarrow> proc \<Rightarrow> proc" where
  "close_fd fd p \<equiv> snd (sys_close fd p)"

fun lowest_free :: "int \<Rightarrow> (int, 'v) smap \<Rightarrow> int" where
  "lowest_free n [] = n"
| "lowest_free n ((k, v) # m) =
     (if k < n then lowest_free n m else if k = n then lowest_free (n + 1) m else n)"

text \<open>\<open>sys_install\<close> opens a description at the lowest free number, as \<open>open\<close> and \<open>dup\<close> do.\<close>

definition sys_install :: "nat \<Rightarrow> proc \<Rightarrow> int \<times> proc" where
  "sys_install file p = (let fd = lowest_free 0 (p_fds p)
     in (fd, p\<lparr>p_fds := smap_set fd file (p_fds p)\<rparr>))"

definition sys_dup :: "int \<Rightarrow> proc \<Rightarrow> int \<times> proc" where
  "sys_dup fd p = (case fd_file p fd of None \<Rightarrow> (-1, p) | Some file \<Rightarrow> sys_install file p)"

definition sys_dup2 :: "int \<Rightarrow> int \<Rightarrow> proc \<Rightarrow> int \<times> proc" where
  "sys_dup2 old new p = (case fd_file p old of
       None \<Rightarrow> (-1, p)
     | Some file \<Rightarrow> if new < 0 then (-1, p) else if old = new then (new, p)
         else (new, p\<lparr>p_fds := smap_set new file (p_fds p)\<rparr>))"

definition fds_ok :: "proc \<Rightarrow> bool" where
  "fds_ok p \<longleftrightarrow> smap_ok (p_fds p)"

lemma fds_ok_close [simp]: "fds_ok p \<Longrightarrow> fds_ok (close_fd fd p)"
  by (simp add: sys_close_def fds_ok_def smap_simps split: option.splits)

lemma fds_ok_install [simp]: "fds_ok p \<Longrightarrow> fds_ok (snd (sys_install f p))"
  by (simp add: sys_install_def fds_ok_def smap_simps Let_def)

lemma fds_ok_dup2 [simp]: "fds_ok p \<Longrightarrow> fds_ok (snd (sys_dup2 a b p))"
  by (simp add: sys_dup2_def fds_ok_def smap_simps split: option.splits)

lemma fds_ok_dup [simp]: "fds_ok p \<Longrightarrow> fds_ok (snd (sys_dup a p))"
  by (simp add: sys_dup_def split: option.splits)

lemma fd_file_close: "fds_ok p \<Longrightarrow>
    fd_file (close_fd fd p) k = (if k = fd then None else fd_file p k)"
  by (simp add: sys_close_def fds_ok_def smap_simps split: option.splits)

lemma fd_file_dup2: "fds_ok p \<Longrightarrow> fd_file p a = Some f \<Longrightarrow> 0 \<le> b \<Longrightarrow>
    fd_file (snd (sys_dup2 a b p)) k = (if k = b then Some f else fd_file p k)"
  by (auto simp: sys_dup2_def fds_ok_def smap_simps)

lemma lowest_free_ge: "n \<le> lowest_free n m"
  by (induction n m rule: lowest_free.induct) auto

lemma lowest_free_free: "smap_ok m \<Longrightarrow> smap_find m (lowest_free n m) = None"
proof (induction n m rule: lowest_free.induct)
  case (1 n)
  then show ?case by simp
next
  case (2 n k v m)
  have ok: "smap_ok m" "\<forall>x \<in> fst ` set m. k < x" using "2.prems" by (auto simp: smap_ok_Cons)
  consider "k < n" | "k = n" | "n < k" by linarith
  then show ?case
  proof cases
    case 1
    then show ?thesis using "2.IH"(1) ok(1) lowest_free_ge [of n m] by simp
  next
    case 2
    then show ?thesis using "2.IH"(2) ok(1) lowest_free_ge [of "n + 1" m] by simp
  next
    case 3
    then show ?thesis using ok(2) smap_find_below [of m n] by force
  qed
qed

lemma lowest_free_least: "smap_ok m \<Longrightarrow> n \<le> k \<Longrightarrow> k < lowest_free n m \<Longrightarrow> smap_find m k \<noteq> None"
proof (induction n m rule: lowest_free.induct)
  case (1 n)
  then show ?case by simp
next
  case (2 n k' v m)
  then show ?case by (auto simp: smap_ok_Cons split: if_splits)
qed

lemma lowest_free_eq:
  assumes "smap_ok m" "smap_find m k = None" "n \<le> k" "\<And>j. n \<le> j \<Longrightarrow> j < k \<Longrightarrow> smap_find m j \<noteq> None"
  shows "lowest_free n m = k"
  using assms lowest_free_free [of m n] lowest_free_least [of m n k] lowest_free_ge [of n m]
  by (metis linorder_neqE)

subsection \<open>Priority\<close>

definition sys_setpriority :: "int \<Rightarrow> proc \<Rightarrow> int \<times> proc" where
  "sys_setpriority prio p = (let n = max (-20) (min 19 prio)
     in if n < p_nice p \<and> p_euid p \<noteq> 0 then (-1, p) else (0, p\<lparr>p_nice := n\<rparr>))"

subsection \<open>Identity\<close>

text \<open>
  A process whose effective user is 0 may become anyone; another one may only switch
  between the identities it has. \<open>setuid\<close> and \<open>setgid\<close> of a privileged process set the
  real, effective and saved identity together.
\<close>

definition sys_setuid :: "u32 \<Rightarrow> proc \<Rightarrow> int \<times> proc" where
  "sys_setuid u p = (if p_euid p = 0 then (0, p\<lparr>p_ruid := u, p_euid := u, p_suid := u\<rparr>)
     else if u = p_ruid p \<or> u = p_suid p then (0, p\<lparr>p_euid := u\<rparr>)
     else (-1, p))"

definition sys_setgid :: "u32 \<Rightarrow> proc \<Rightarrow> int \<times> proc" where
  "sys_setgid g p = (if p_euid p = 0 then (0, p\<lparr>p_rgid := g, p_egid := g, p_sgid := g\<rparr>)
     else if g = p_rgid p \<or> g = p_sgid p then (0, p\<lparr>p_egid := g\<rparr>)
     else (-1, p))"

definition sys_setegid :: "u32 \<Rightarrow> proc \<Rightarrow> int \<times> proc" where
  "sys_setegid g p = (if p_euid p = 0 \<or> g = p_rgid p \<or> g = p_egid p \<or> g = p_sgid p
     then (0, p\<lparr>p_egid := g\<rparr>) else (-1, p))"

subsection \<open>Environment\<close>

definition env_key :: "string \<Rightarrow> string" where
  "env_key e = takeWhile (\<lambda>c. c \<noteq> CHR ''='') e"

fun sys_getenv :: "string \<Rightarrow> string list \<Rightarrow> string option" where
  "sys_getenv name [] = None"
| "sys_getenv name (e # es) =
     (if CHR ''='' \<in> set e \<and> env_key e = name then Some (drop (length name + 1) e)
      else sys_getenv name es)"

fun sys_setenv :: "string \<Rightarrow> string \<Rightarrow> string list \<Rightarrow> string list" where
  "sys_setenv name v [] = [name @ CHR ''='' # v]"
| "sys_setenv name v (e # es) =
     (if CHR ''='' \<in> set e \<and> env_key e = name then (name @ CHR ''='' # v) # es
      else e # sys_setenv name v es)"

fun sys_unsetenv :: "string \<Rightarrow> string list \<Rightarrow> string list" where
  "sys_unsetenv name [] = []"
| "sys_unsetenv name (e # es) =
     (if CHR ''='' \<in> set e \<and> env_key e = name then sys_unsetenv name es
      else e # sys_unsetenv name es)"

lemma env_key_entry [simp]:
  "CHR ''='' \<notin> set name \<Longrightarrow> env_key (name @ CHR ''='' # v) = name"
  by (auto simp: env_key_def takeWhile_append1 takeWhile_tail)

lemma sys_getenv_setenv:
  "CHR ''='' \<notin> set name \<Longrightarrow> CHR ''='' \<notin> set k \<Longrightarrow>
     sys_getenv k (sys_setenv name v es) = (if k = name then Some v else sys_getenv k es)"
  by (induction name v es rule: sys_setenv.induct) auto

lemma sys_getenv_unsetenv:
  "sys_getenv k (sys_unsetenv name es) = (if k = name then None else sys_getenv k es)"
  by (induction name es rule: sys_unsetenv.induct) auto

subsection \<open>Process name, pipe and the rest\<close>

text \<open>\<open>prctl(PR_SET_NAME)\<close> keeps 15 bytes. \<open>basename\<close> is the part after the last slash.\<close>

definition base_name :: "string \<Rightarrow> string" where
  "base_name s = rev (takeWhile (\<lambda>c. c \<noteq> CHR ''/'') (rev s))"

definition sys_set_name :: "string \<Rightarrow> proc \<Rightarrow> proc" where
  "sys_set_name s p = p\<lparr>p_comm := take 15 s\<rparr>"

text \<open>A write to the pipe to the daemon; it fails when nobody can read any more.\<close>

definition sys_write_pipe :: "byte list \<Rightarrow> proc \<Rightarrow> int \<times> proc" where
  "sys_write_pipe bs p = (if p_pipe_broken p then (-1, p)
     else (int (length bs), p\<lparr>p_sent := p_sent p @ [bs]\<rparr>))"

end
