(* ===== verification/Registry.thy ===== *)
theory Registry
  imports Process
begin

text \<open>
  The plugins: the booster classes and what their virtual and static members return
  (\<open>mbooster.cpp\<close>, \<open>qtbooster.cpp\<close>, \<open>qdeclarativebooster.cpp\<close> and their
  \<open>pluginfactory.cpp\<close>), the plugin registry, the booster factory and the holder of the
  single-instance plugin. The locale states what the daemon relies on in a set of plugins.
\<close>

subsection \<open>The booster classes\<close>

datatype booster_class = MBooster | QtBooster | QDeclarativeBooster

text \<open>
  The static members of the three classes, then their virtual ones, which choose by the class of
  the object.
\<close>

definition MBooster_m_socketId :: string where "MBooster_m_socketId = ''/tmp/boostm''"

definition MBooster_m_temporaryProcessName :: string where
  "MBooster_m_temporaryProcessName = ''booster-m''"

definition MBooster_socketName :: string where "MBooster_socketName = MBooster_m_socketId"

definition MBooster_temporaryProcessName :: string where
  "MBooster_temporaryProcessName = MBooster_m_temporaryProcessName"

definition MBooster_type :: char where "MBooster_type = CHR ''m''"

definition MBooster_socketId :: string where "MBooster_socketId = MBooster_m_socketId"

definition MBooster_boosterTemporaryProcessName :: string where
  "MBooster_boosterTemporaryProcessName = MBooster_temporaryProcessName"

definition QtBooster_m_socketId :: string where "QtBooster_m_socketId = ''/tmp/boostq''"

definition QtBooster_m_temporaryProcessName :: string where
  "QtBooster_m_temporaryProcessName = ''booster-q''"

definition QtBooster_socketName :: string where "QtBooster_socketName = QtBooster_m_socketId"

definition QtBooster_temporaryProcessName :: string where
  "QtBooster_temporaryProcessName = QtBooster_m_temporaryProcessName"

definition QtBooster_type :: char where "QtBooster_type = CHR ''q''"

definition QtBooster_socketId :: string where "QtBooster_socketId = QtBooster_m_socketId"

definition QtBooster_boosterTemporaryProcessName :: string where
  "QtBooster_boosterTemporaryProcessName = QtBooster_temporaryProcessName"

definition QDeclarativeBooster_m_socketId :: string where "QDeclarativeBooster_m_socketId = ''/tmp/boostd''"

definition QDeclarativeBooster_m_temporaryProcessName :: string where
  "QDeclarativeBooster_m_temporaryProcessName = ''booster-d''"

definition QDeclarativeBooster_socketName :: string where "QDeclarativeBooster_socketName = QDeclarativeBooster_m_socketId"

definition QDeclarativeBooster_temporaryProcessName :: string where
  "QDeclarativeBooster_temporaryProcessName = QDeclarativeBooster_m_temporaryProcessName"

definition QDeclarativeBooster_type :: char where "QDeclarativeBooster_type = CHR ''d''"

definition QDeclarativeBooster_socketId :: string where "QDeclarativeBooster_socketId = QDeclarativeBooster_m_socketId"

definition QDeclarativeBooster_boosterTemporaryProcessName :: string where
  "QDeclarativeBooster_boosterTemporaryProcessName = QDeclarativeBooster_temporaryProcessName"

lemmas booster_members [simp] =
  MBooster_m_socketId_def MBooster_m_temporaryProcessName_def MBooster_socketName_def
  MBooster_temporaryProcessName_def MBooster_type_def MBooster_socketId_def
  MBooster_boosterTemporaryProcessName_def
  QtBooster_m_socketId_def QtBooster_m_temporaryProcessName_def QtBooster_socketName_def
  QtBooster_temporaryProcessName_def QtBooster_type_def QtBooster_socketId_def
  QtBooster_boosterTemporaryProcessName_def
  QDeclarativeBooster_m_socketId_def QDeclarativeBooster_m_temporaryProcessName_def QDeclarativeBooster_socketName_def
  QDeclarativeBooster_temporaryProcessName_def QDeclarativeBooster_type_def QDeclarativeBooster_socketId_def
  QDeclarativeBooster_boosterTemporaryProcessName_def

fun boosterType :: "booster_class \<Rightarrow> char" where
  "boosterType MBooster = MBooster_type"
| "boosterType QtBooster = QtBooster_type"
| "boosterType QDeclarativeBooster = QDeclarativeBooster_type"

fun socketId :: "booster_class \<Rightarrow> string" where
  "socketId MBooster = MBooster_socketId"
| "socketId QtBooster = QtBooster_socketId"
| "socketId QDeclarativeBooster = QDeclarativeBooster_socketId"

fun boosterTemporaryProcessName :: "booster_class \<Rightarrow> string" where
  "boosterTemporaryProcessName MBooster = MBooster_boosterTemporaryProcessName"
| "boosterTemporaryProcessName QtBooster = QtBooster_boosterTemporaryProcessName"
| "boosterTemporaryProcessName QDeclarativeBooster = QDeclarativeBooster_boosterTemporaryProcessName"

subsection \<open>What a plugin library exports\<close>

text \<open>
  An open library, as \<open>dlsym\<close> shows it: \<open>None\<close> where a symbol is missing, else what the
  function it names returns. Each class has a library, its \<open>pluginfactory.cpp\<close>.
\<close>

record plugin_lib =
  lib_create :: "booster_class option"
  lib_type :: "char option"
  lib_socketName :: "string option"
  lib_temporaryProcessName :: "string option"

definition MBooster_library :: plugin_lib where
  "MBooster_library = \<lparr>lib_create = Some MBooster, lib_type = Some MBooster_type,
     lib_socketName = Some MBooster_socketName, lib_temporaryProcessName = Some MBooster_temporaryProcessName\<rparr>"

definition QtBooster_library :: plugin_lib where
  "QtBooster_library = \<lparr>lib_create = Some QtBooster, lib_type = Some QtBooster_type,
     lib_socketName = Some QtBooster_socketName, lib_temporaryProcessName = Some QtBooster_temporaryProcessName\<rparr>"

definition QDeclarativeBooster_library :: plugin_lib where
  "QDeclarativeBooster_library = \<lparr>lib_create = Some QDeclarativeBooster, lib_type = Some QDeclarativeBooster_type,
     lib_socketName = Some QDeclarativeBooster_socketName, lib_temporaryProcessName = Some QDeclarativeBooster_temporaryProcessName\<rparr>"

fun pluginfactory :: "booster_class \<Rightarrow> plugin_lib" where
  "pluginfactory MBooster = MBooster_library"
| "pluginfactory QtBooster = QtBooster_library"
| "pluginfactory QDeclarativeBooster = QDeclarativeBooster_library"

text \<open>A library says of its class what the objects of the class say of themselves.\<close>

lemma pluginfactory_eq:
  "pluginfactory k = \<lparr>lib_create = Some k, lib_type = Some (boosterType k),
     lib_socketName = Some (socketId k), lib_temporaryProcessName = Some (boosterTemporaryProcessName k)\<rparr>"
  by (cases k) (simp_all add: MBooster_library_def QtBooster_library_def QDeclarativeBooster_library_def)

declare pluginfactory.simps [simp del]

subsection \<open>The registry\<close>

record plugin_entry =
  pe_type :: char
  createFunc :: booster_class
  socketNameFunc :: string
  temporaryProcessNameFunc :: string

type_synonym registry = "plugin_entry list"

fun pluginEntry :: "char \<Rightarrow> registry \<Rightarrow> plugin_entry option" where
  "pluginEntry type [] = None"
| "pluginEntry type (e # es) = (if pe_type e = type then Some e else pluginEntry type es)"

definition pluginEntry_at :: "int \<Rightarrow> registry \<Rightarrow> plugin_entry option" where
  "pluginEntry_at index reg =
     (if index < 0 \<or> int (length reg) \<le> index then None else Some (reg ! nat index))"

definition pluginCount :: "registry \<Rightarrow> int" where
  "pluginCount reg = int (length reg)"

text \<open>
  \<open>registerPlugin\<close> fills the entry of the type, a new one at the end if there is none.
\<close>

fun overwrite_entry :: "plugin_entry \<Rightarrow> registry \<Rightarrow> registry" where
  "overwrite_entry e [] = []"
| "overwrite_entry e (f # fs) =
     (if pe_type f = pe_type e then e # fs else f # overwrite_entry e fs)"

definition registerPlugin :: "char \<Rightarrow> booster_class \<Rightarrow> string \<Rightarrow> string \<Rightarrow> registry \<Rightarrow> registry" where
  "registerPlugin type create socketName temporaryProcessName reg =
     (let e = \<lparr>pe_type = type, createFunc = create, socketNameFunc = socketName,
               temporaryProcessNameFunc = temporaryProcessName\<rparr>
      in case pluginEntry type reg of
           None \<Rightarrow> reg @ [e]
         | Some _ \<Rightarrow> overwrite_entry e reg)"

definition validateAndRegisterPlugin :: "plugin_lib \<Rightarrow> registry \<Rightarrow> char \<times> registry" where
  "validateAndRegisterPlugin lib reg = (case lib_create lib of
       None \<Rightarrow> (NUL, reg)
     | Some create \<Rightarrow> (case lib_type lib of
         None \<Rightarrow> (NUL, reg)
       | Some type \<Rightarrow> (case lib_socketName lib of
           None \<Rightarrow> (NUL, reg)
         | Some socketName \<Rightarrow> (case lib_temporaryProcessName lib of
             None \<Rightarrow> (NUL, reg)
           | Some tpn \<Rightarrow> (type, registerPlugin type create socketName tpn reg)))))"

text \<open>\<open>BoosterFactory::create\<close>.\<close>

definition BoosterFactory_create :: "char \<Rightarrow> registry \<Rightarrow> booster_class option" where
  "BoosterFactory_create type reg = map_option createFunc (pluginEntry type reg)"

text \<open>
  The loop of \<open>loadBoosterPlugins\<close> over the libraries that \<open>glob\<close> finds; \<open>None\<close> is one
  that \<open>dlopen\<close> refuses.
\<close>

definition BOOSTER_PATTERN :: string where "BOOSTER_PATTERN = ''lib*booster.so''"

definition loadBoosterPlugins :: "string \<Rightarrow> plugin_lib option list option \<Rightarrow> registry \<Rightarrow> registry" where
  "loadBoosterPlugins dir found reg =
     (if length BOOSTER_PATTERN + length dir + 2 > 256 then reg
      else (case found of
              None \<Rightarrow> reg
            | Some libs \<Rightarrow> fold (\<lambda>l r. case l of None \<Rightarrow> r
                | Some lib \<Rightarrow> snd (validateAndRegisterPlugin lib r)) libs reg))"

subsection \<open>The single-instance plugin\<close>

record 'w si_entry =
  si_handle :: nat
  lockFunc :: "string \<Rightarrow> 'w \<Rightarrow> bool \<times> 'w"
  unlockFunc :: "'w \<Rightarrow> 'w"
  activateExistingInstanceFunc :: "string \<Rightarrow> 'w \<Rightarrow> bool \<times> 'w"

text \<open>
  \<open>SingleInstance\<close>: the three symbols of the library, and the entry kept by the
  \<open>shared_ptr\<close>.
\<close>

definition validateSingleInstance ::
    "nat \<Rightarrow> (string \<Rightarrow> 'w \<Rightarrow> bool \<times> 'w) option \<Rightarrow> ('w \<Rightarrow> 'w) option
     \<Rightarrow> (string \<Rightarrow> 'w \<Rightarrow> bool \<times> 'w) option \<Rightarrow> 'w si_entry option \<Rightarrow> bool \<times> 'w si_entry option" where
  "validateSingleInstance handle lock unlock activateExistingInstance m_pluginEntry =
     (case lock of None \<Rightarrow> (False, m_pluginEntry)
      | Some l \<Rightarrow> (case unlock of None \<Rightarrow> (False, m_pluginEntry)
        | Some u \<Rightarrow> (case activateExistingInstance of None \<Rightarrow> (False, m_pluginEntry)
          | Some a \<Rightarrow> (True, Some \<lparr>si_handle = handle, lockFunc = l, unlockFunc = u,
                               activateExistingInstanceFunc = a\<rparr>))))"

text \<open>
  \<open>Daemon::loadSingleInstancePlugin\<close>: what \<open>dlopen\<close> and \<open>dlsym\<close> find is an argument, None if the
  library cannot be opened.
\<close>

definition loadSingleInstancePlugin ::
    "(nat \<times> (string \<Rightarrow> 'w \<Rightarrow> bool \<times> 'w) option \<times> ('w \<Rightarrow> 'w) option
      \<times> (string \<Rightarrow> 'w \<Rightarrow> bool \<times> 'w) option) option \<Rightarrow> 'w si_entry option \<Rightarrow> 'w si_entry option" where
  "loadSingleInstancePlugin found m_singleInstance = (case found of
       None \<Rightarrow> m_singleInstance
     | Some (handle, l, u, a) \<Rightarrow> snd (validateSingleInstance handle l u a m_singleInstance))"

definition closePlugin :: "'w si_entry option \<Rightarrow> 'w si_entry option" where
  "closePlugin m_pluginEntry = (case m_pluginEntry of None \<Rightarrow> None | Some _ \<Rightarrow> None)"

subsection \<open>The registry as a map\<close>

definition registry_ok :: "registry \<Rightarrow> bool" where
  "registry_ok reg \<longleftrightarrow> distinct (map pe_type reg)"

lemma pluginEntry_None: "pluginEntry t reg = None \<longleftrightarrow> t \<notin> pe_type ` set reg"
  by (induction t reg rule: pluginEntry.induct) auto

lemma pluginEntry_Some: "pluginEntry t reg = Some e \<Longrightarrow> e \<in> set reg \<and> pe_type e = t"
  by (induction t reg rule: pluginEntry.induct) (auto split: if_splits)

lemma pluginEntry_unique:
  "registry_ok reg \<Longrightarrow> e \<in> set reg \<Longrightarrow> pluginEntry (pe_type e) reg = Some e"
  unfolding registry_ok_def by (induction reg) (fastforce simp: image_iff)+

lemma types_overwrite: "map pe_type (overwrite_entry e reg) = map pe_type reg"
  by (induction e reg rule: overwrite_entry.induct) auto

lemma pluginEntry_overwrite:
  "pluginEntry t (overwrite_entry e reg) =
     (if t = pe_type e \<and> pluginEntry t reg \<noteq> None then Some e else pluginEntry t reg)"
  by (induction e reg rule: overwrite_entry.induct) auto

lemma pluginEntry_append:
  "pluginEntry t (r1 @ r2) = (case pluginEntry t r1 of None \<Rightarrow> pluginEntry t r2 | e \<Rightarrow> e)"
  by (induction t r1 rule: pluginEntry.induct) auto

lemma registerPlugin_ok: "registry_ok reg \<Longrightarrow> registry_ok (registerPlugin t c s n reg)"
  by (auto simp: registerPlugin_def registry_ok_def Let_def types_overwrite pluginEntry_None
      split: option.splits)

lemma pluginEntry_register:
  "pluginEntry t (registerPlugin t' c s n reg) =
     (if t = t' then Some \<lparr>pe_type = t', createFunc = c, socketNameFunc = s,
                           temporaryProcessNameFunc = n\<rparr>
      else pluginEntry t reg)"
  by (auto simp: registerPlugin_def Let_def pluginEntry_append pluginEntry_overwrite
      split: option.splits)

lemma validateAndRegisterPlugin_ok:
  "registry_ok reg \<Longrightarrow> registry_ok (snd (validateAndRegisterPlugin lib reg))"
  by (auto simp: validateAndRegisterPlugin_def registerPlugin_ok split: option.splits)

lemma loadBoosterPlugins_ok: "registry_ok reg \<Longrightarrow> registry_ok (loadBoosterPlugins dir found reg)"
proof -
  have "registry_ok r \<Longrightarrow> registry_ok (fold (\<lambda>l r. case l of None \<Rightarrow> r
      | Some lib \<Rightarrow> snd (validateAndRegisterPlugin lib r)) libs r)" for libs r
    by (induction libs arbitrary: r) (auto simp: validateAndRegisterPlugin_ok split: option.splits)
  then show "registry_ok reg \<Longrightarrow> ?thesis"
    by (auto simp: loadBoosterPlugins_def split: option.splits)
qed

subsection \<open>What the daemon needs of its plugins\<close>

text \<open>
  Types tell boosters apart and are not the zero byte (which means "no booster"), socket
  names tell sockets apart and fit the address the socket manager builds.
\<close>

locale plugin_set =
  fixes plugins :: "'p list"
    and ptype :: "'p \<Rightarrow> char"
    and psocket :: "'p \<Rightarrow> string"
  assumes types_distinct: "distinct (map ptype plugins)"
    and types_nonzero: "p \<in> set plugins \<Longrightarrow> ptype p \<noteq> NUL"
    and sockets_distinct: "distinct (map psocket plugins)"
    and sockets_fit: "p \<in> set plugins \<Longrightarrow> length (psocket p) \<le> 13"
begin

lemma type_determines: "p \<in> set plugins \<Longrightarrow> q \<in> set plugins \<Longrightarrow> ptype p = ptype q \<Longrightarrow> p = q"
  using types_distinct by (auto simp: distinct_map inj_on_def)

lemma socket_determines:
  "p \<in> set plugins \<Longrightarrow> q \<in> set plugins \<Longrightarrow> psocket p = psocket q \<Longrightarrow> ptype p = ptype q"
  using sockets_distinct by (auto simp: distinct_map inj_on_def)

lemma truncation_harmless: "p \<in> set plugins \<Longrightarrow> take 13 (psocket p) = psocket p"
  using sockets_fit by simp

lemma truncated_distinct: "distinct (map (\<lambda>p. take 13 (psocket p)) plugins)"
  using sockets_distinct by (simp add: truncation_harmless cong: map_cong)

end

definition shipped_classes :: "booster_class list" where
  "shipped_classes = [MBooster, QDeclarativeBooster, QtBooster]"

lemma in_shipped_classes [simp]: "k \<in> set shipped_classes"
  by (cases k) (simp_all add: shipped_classes_def)

lemma boosterType_eq [simp]: "boosterType j = boosterType k \<longleftrightarrow> j = k"
  by (cases j; cases k) simp_all

lemma socketId_eq [simp]: "socketId j = socketId k \<longleftrightarrow> j = k"
  by (cases j; cases k) simp_all

text \<open>
  The classes in the order in which a map from booster types visits them. The order is that of
  the type characters, so that lists of classes sort as the keys of such a map do.
\<close>

instantiation booster_class :: linorder
begin

definition less_eq_booster_class :: "booster_class \<Rightarrow> booster_class \<Rightarrow> bool" where
  "j \<le> k \<longleftrightarrow> boosterType j \<le> boosterType k"

definition less_booster_class :: "booster_class \<Rightarrow> booster_class \<Rightarrow> bool" where
  "j < k \<longleftrightarrow> boosterType j < boosterType k"

instance
  by intro_classes (auto simp: less_eq_booster_class_def less_booster_class_def order_less_le)

end

lemma UNIV_booster_class: "UNIV = set shipped_classes"
  using in_shipped_classes by blast

instance booster_class :: finite
  by intro_classes (simp add: UNIV_booster_class)

lemma sorted_classes: "sorted_list_of_set UNIV = [QDeclarativeBooster, MBooster, QtBooster]"
  by (simp add: UNIV_booster_class shipped_classes_def less_eq_booster_class_def)

lemma type_keys_order:
  assumes "smap_ok m" "fst ` set m = range boosterType"
  shows "map fst m = map boosterType (sorted_list_of_set UNIV)"
proof (rule sorted_distinct_set_unique)
  show "sorted (map fst m)" "distinct (map fst m)"
    using assms(1) by (simp_all add: smap_ok_def strict_sorted_iff)
  show "sorted (map boosterType (sorted_list_of_set UNIV))"
    by (simp add: sorted_classes)
  show "distinct (map boosterType (sorted_list_of_set UNIV))"
    by (simp add: distinct_map inj_on_def)
  show "set (map fst m) = set (map boosterType (sorted_list_of_set UNIV))"
    using assms(2) by simp
qed

interpretation shipped: plugin_set shipped_classes boosterType socketId
  by unfold_locales (auto simp: shipped_classes_def)

text \<open>The registry the daemon has after loading the three plugins of the repository.\<close>

definition shipped_registry :: registry where
  "shipped_registry =
     loadBoosterPlugins ''/usr/lib/applauncherd'' (Some (map (Some \<circ> pluginfactory) shipped_classes)) []"

definition entry_of :: "booster_class \<Rightarrow> plugin_entry" where
  "entry_of k = \<lparr>pe_type = boosterType k, createFunc = k, socketNameFunc = socketId k,
     temporaryProcessNameFunc = boosterTemporaryProcessName k\<rparr>"

lemma shipped_registry_eq: "shipped_registry = map entry_of shipped_classes"
  by (simp add: shipped_registry_def loadBoosterPlugins_def shipped_classes_def BOOSTER_PATTERN_def
      validateAndRegisterPlugin_def pluginfactory_eq registerPlugin_def entry_of_def)

interpretation registered: plugin_set shipped_registry pe_type socketNameFunc
  by unfold_locales (auto simp: shipped_registry_eq shipped_classes_def entry_of_def)

end
