(* ===== verification/Socket_Manager.thy ===== *)
theory Socket_Manager
  imports Registry
begin

text \<open>
  \<open>src/launcherlib/socketmanager.cpp\<close>: the map from socket paths to listening
  descriptors, and what its operations do to the descriptor table and to the
  socket files.
\<close>

type_synonym socket_hash = "(string, int) smap"

text \<open>
  The socket files: which open description a path is bound to, and the permissions;
  the two calls that may fail are inputs.
\<close>

record socket_files =
  sf_bound :: "(string, nat) smap"
  sf_mode :: "(string, int) smap"
  sf_next :: nat
  sf_socket_fails :: bool
  sf_listen_fails :: bool

text \<open>
  \<open>sa_data\<close> has 14 bytes, the last one for the terminator: \<open>strncpy\<close> copies at most 13
  bytes of the path.
\<close>

definition sun_path :: "string \<Rightarrow> string" where
  "sun_path sid = take 13 sid"

definition S_IRWXUGO :: int where "S_IRWXUGO = 511"

definition initSocket :: "string \<Rightarrow> socket_hash \<Rightarrow> socket_files \<Rightarrow> proc
    \<Rightarrow> (socket_hash \<times> socket_files \<times> proc) outcome" where
  "initSocket sid m w p =
     (if smap_find m sid = None then
        if sf_socket_fails w then Exits EXIT_FAILURE
        else let (fd, p1) = sys_install (sf_next w) p;
                 w1 = w\<lparr>sf_bound := smap_erase sid (sf_bound w),
                        sf_next := sf_next w + 1\<rparr>;
                 path = sun_path sid
             in if smap_find (sf_bound w1) path \<noteq> None then Exits EXIT_FAILURE
                else let w2 = w1\<lparr>sf_bound := smap_set path (sf_next w) (sf_bound w1)\<rparr>
                     in if sf_listen_fails w then Exits EXIT_FAILURE
                        else let w3 = (if smap_find (sf_bound w2) sid = None then w2
                                       else w2\<lparr>sf_mode := smap_set sid S_IRWXUGO (sf_mode w2)\<rparr>)
                             in Returns (smap_set sid fd m, w3, p1)
      else Returns (m, w, p))"

definition closeSocket :: "string \<Rightarrow> socket_hash \<Rightarrow> proc \<Rightarrow> socket_hash \<times> proc" where
  "closeSocket sid m p = (case smap_find m sid of
       None \<Rightarrow> (m, p)
     | Some fd \<Rightarrow> (smap_erase sid m, close_fd fd p))"

definition closeAllSockets :: "socket_hash \<Rightarrow> proc \<Rightarrow> socket_hash \<times> proc" where
  "closeAllSockets m p =
     ([], fold (\<lambda>(_, fd) q. if fd > 0 then close_fd fd q else q) m p)"

definition findSocket :: "string \<Rightarrow> socket_hash \<Rightarrow> int" where
  "findSocket sid m = (case smap_find m sid of None \<Rightarrow> -1 | Some fd \<Rightarrow> fd)"

definition socketCount :: "socket_hash \<Rightarrow> nat" where
  "socketCount m = length m"

text \<open>\<open>Daemon::initBoosterSockets\<close>: a socket for each registered plugin, in order.\<close>

fun initBoosterSockets :: "registry \<Rightarrow> socket_hash \<Rightarrow> socket_files \<Rightarrow> proc
    \<Rightarrow> (socket_hash \<times> socket_files \<times> proc) outcome" where
  "initBoosterSockets [] m w p = Returns (m, w, p)"
| "initBoosterSockets (e # es) m w p =
     and_then (initSocket (socketNameFunc e) m w p)
       (\<lambda>(m1, w1, p1). initBoosterSockets es m1 w1 p1)"

text \<open>\<open>Daemon::closeUnusedSockets\<close>.\<close>

definition closeUnusedSockets :: "char \<Rightarrow> registry \<Rightarrow> socket_hash \<Rightarrow> proc \<Rightarrow> socket_hash \<times> proc" where
  "closeUnusedSockets type reg m p =
     fold (\<lambda>e (m, p). if pe_type e \<noteq> type then closeSocket (socketNameFunc e) m p else (m, p))
       reg (m, p)"

subsection \<open>The invariant\<close>

text \<open>
  The map is well formed, its descriptors are open and are those of the listening
  sockets their paths are bound to.
\<close>

definition fds_distinct :: "socket_hash \<Rightarrow> bool" where
  "fds_distinct m \<longleftrightarrow>
     (\<forall>s t fd. smap_find m s = Some fd \<longrightarrow> smap_find m t = Some fd \<longrightarrow> s = t)"

lemma fds_distinctD:
  "fds_distinct m \<Longrightarrow> smap_find m s = Some fd \<Longrightarrow> smap_find m t = Some fd \<Longrightarrow> s = t"
  by (auto simp: fds_distinct_def)

definition sockets_ok :: "socket_hash \<Rightarrow> socket_files \<Rightarrow> proc \<Rightarrow> bool" where
  "sockets_ok m w p \<longleftrightarrow> smap_ok m \<and> smap_ok (sf_bound w) \<and> fds_ok p \<and>
     (\<forall>s fd. smap_find m s = Some fd \<longrightarrow>
        0 \<le> fd \<and> fd_file p fd \<noteq> None \<and> fd_file p fd = smap_find (sf_bound w) (sun_path s)) \<and>
     fds_distinct m \<and>
     (\<forall>s f. smap_find (sf_bound w) s = Some f \<longrightarrow> f < sf_next w)"

definition fits :: "socket_hash \<Rightarrow> bool" where
  "fits m \<longleftrightarrow> (\<forall>s \<in> set (smap_keys m). length s \<le> 13)"

lemma fits_find: "fits m \<Longrightarrow> smap_find m s = Some fd \<Longrightarrow> length s \<le> 13"
  by (force simp: fits_def smap_keys_def smap_find_map_of dest: map_of_SomeD)

lemma fits_set [simp]: "fits (smap_set s fd m) \<longleftrightarrow> length s \<le> 13 \<and> fits m"
  using fst_set_smap_set [of s fd m] by (auto simp: fits_def smap_keys_def)

text \<open>
  What \<open>initSocket\<close> does for a new path that fits: the listening socket gets the
  lowest free descriptor, the path is bound to it and mapped to it.
\<close>

lemma initSocket_new:
  assumes "sockets_ok m w p" "length s \<le> 13" "smap_find m s = None"
    and "\<not> sf_socket_fails w" "\<not> sf_listen_fails w"
  defines "fd \<equiv> lowest_free 0 (p_fds p)"
  shows "initSocket s m w p = Returns (smap_set s fd m,
     w\<lparr>sf_bound := smap_set s (sf_next w) (smap_erase s (sf_bound w)), sf_next := sf_next w + 1,
       sf_mode := smap_set s S_IRWXUGO (sf_mode w)\<rparr>,
     p\<lparr>p_fds := smap_set fd (sf_next w) (p_fds p)\<rparr>)"
  using assms by (simp add: initSocket_def sys_install_def sun_path_def sockets_ok_def smap_simps Let_def)

lemma sockets_ok_find:
  assumes "sockets_ok m w p" "smap_find m k = Some fd"
  shows "0 \<le> fd" "fd_file p fd = smap_find (sf_bound w) (sun_path k)" "fd_file p fd \<noteq> None"
  using assms unfolding sockets_ok_def by blast+

lemma sockets_ok_add:
  assumes ok: "sockets_ok m w p" "fits m" "length s \<le> 13" "smap_find m s = None"
  defines "fd \<equiv> lowest_free 0 (p_fds p)"
  shows "sockets_ok (smap_set s fd m)
     (w\<lparr>sf_bound := smap_set s (sf_next w) (smap_erase s (sf_bound w)), sf_next := sf_next w + 1,
       sf_mode := mo\<rparr>)
     (p\<lparr>p_fds := smap_set fd (sf_next w) (p_fds p)\<rparr>)"
proof -
  let ?b = "smap_set s (sf_next w) (smap_erase s (sf_bound w))"
    and ?p = "p\<lparr>p_fds := smap_set fd (sf_next w) (p_fds p)\<rparr>"
  have wf: "smap_ok m" "smap_ok (sf_bound w)" "smap_ok (p_fds p)"
    "\<And>s f. smap_find (sf_bound w) s = Some f \<Longrightarrow> f < sf_next w"
    using ok(1) by (auto simp: sockets_ok_def fds_ok_def)
  have free: "fd_file p fd = None" unfolding fd_def by (rule lowest_free_free [OF wf(3)])
  have "0 \<le> k' \<and> fd_file ?p k' \<noteq> None \<and> fd_file ?p k' = smap_find ?b (sun_path k)"
    if "smap_find (smap_set s fd m) k = Some k'" for k k'
  proof (cases "k = s")
    case True
    with that show ?thesis
      using ok(3) wf lowest_free_ge [of 0] by (auto simp: smap_simps sun_path_def fd_def)
  next
    case False
    with that have k: "smap_find m k = Some k'" using wf by (simp add: smap_simps)
    have "sun_path k = k" using fits_find [OF ok(2) k] by (simp add: sun_path_def)
    moreover have "k' \<noteq> fd" using sockets_ok_find(3) [OF ok(1) k] free by auto
    ultimately show ?thesis
      using sockets_ok_find [OF ok(1) k] False wf by (simp add: smap_simps)
  qed
  moreover have "f < sf_next w + 1" if "smap_find ?b k = Some f" for k f
    using that wf(4) [of k f] wf(2) by (auto simp: smap_simps split: if_splits)
  moreover have inj: "k = k'" if "smap_find (smap_set s fd m) k = Some x"
    "smap_find (smap_set s fd m) k' = Some x" for k k' x
  proof -
    have "smap_find m j \<noteq> Some fd" for j using sockets_ok_find(3) [OF ok(1), of j fd] free by auto
    moreover have "smap_find m k = Some x \<Longrightarrow> smap_find m k' = Some x \<Longrightarrow> k = k'"
      using ok(1) fds_distinctD unfolding sockets_ok_def by blast
    ultimately show ?thesis using that wf by (auto simp: smap_simps split: if_splits)
  qed
  then have "fds_distinct (smap_set s fd m)" unfolding fds_distinct_def by blast
  moreover have "smap_ok (smap_set s fd m)" "smap_ok ?b" "smap_ok (smap_set fd (sf_next w) (p_fds p))"
    using wf by (simp_all add: smap_simps)
  ultimately show ?thesis
    unfolding sockets_ok_def fds_ok_def by (simp, metis)
qed

lemma initSocket_ok:
  assumes "sockets_ok m w p" "fits m" "length s \<le> 13"
    and "\<not> sf_socket_fails w" "\<not> sf_listen_fails w"
  obtains m' w' p' where "initSocket s m w p = Returns (m', w', p')" "sockets_ok m' w' p'" "fits m'"
    "\<not> sf_socket_fails w'" "\<not> sf_listen_fails w'" "smap_find m' s \<noteq> None"
    "\<And>k. k \<noteq> s \<Longrightarrow> smap_find m' k = smap_find m k"
proof (cases "smap_find m s")
  case None
  from assms have "smap_ok m" by (simp add: sockets_ok_def)
  then show thesis
    using that [OF initSocket_new [OF assms(1,3) None assms(4,5)] sockets_ok_add [OF assms(1-3) None]]
      assms by (simp add: smap_simps)
next
  case (Some fd)
  then show thesis using assms that [of m w p] by (simp add: initSocket_def)
qed

lemma initBoosterSockets_ok:
  assumes "sockets_ok m w p" "fits m" "\<forall>e \<in> set reg. length (socketNameFunc e) \<le> 13"
    and "\<not> sf_socket_fails w" "\<not> sf_listen_fails w"
  shows "\<exists>m' w' p'. initBoosterSockets reg m w p = Returns (m', w', p') \<and> sockets_ok m' w' p' \<and>
    (\<forall>k. smap_find m' k \<noteq> None \<longleftrightarrow> smap_find m k \<noteq> None \<or> k \<in> socketNameFunc ` set reg)"
  using assms
proof (induction reg arbitrary: m w p)
  case Nil
  then show ?case by simp
next
  case (Cons e reg)
  from Cons.prems(3) have "length (socketNameFunc e) \<le> 13" by simp
  then obtain m1 w1 p1 where 1: "initSocket (socketNameFunc e) m w p = Returns (m1, w1, p1)"
    "sockets_ok m1 w1 p1" "fits m1" "\<not> sf_socket_fails w1" "\<not> sf_listen_fails w1"
    "smap_find m1 (socketNameFunc e) \<noteq> None"
    "\<And>k. k \<noteq> socketNameFunc e \<Longrightarrow> smap_find m1 k = smap_find m k"
    using initSocket_ok [OF Cons.prems(1,2) _ Cons.prems(4,5)] by blast
  from Cons.IH [OF 1(2,3) _ 1(4,5)] Cons.prems(3) obtain m' w' p' where
    2: "initBoosterSockets reg m1 w1 p1 = Returns (m', w', p')" "sockets_ok m' w' p'"
    "\<And>k. smap_find m' k \<noteq> None \<longleftrightarrow> smap_find m1 k \<noteq> None \<or> k \<in> socketNameFunc ` set reg"
    by auto
  have "smap_find m' k \<noteq> None \<longleftrightarrow> smap_find m k \<noteq> None \<or> k \<in> socketNameFunc ` set (e # reg)" for k
    using 2(3) [of k] 1(6) 1(7) [of k] by (cases "k = socketNameFunc e") auto
  with 1(1) 2(1,2) show ?case by auto
qed

subsection \<open>What a booster keeps of the sockets\<close>

lemma closeSocket_find:
  assumes "smap_ok m" "fds_ok p"
    and "fds_distinct m"
  shows "case closeSocket s m p of (m', p') \<Rightarrow> smap_ok m' \<and> fds_ok p' \<and>
    (\<forall>k. smap_find m' k = (if k = s then None else smap_find m k)) \<and>
    (\<forall>k fd. smap_find m k = Some fd \<longrightarrow> fd_file p' fd = (if k = s then None else fd_file p fd))"
  using assms(1,2) fds_distinctD [OF assms(3), of s]
  by (auto simp: closeSocket_def smap_simps fd_file_close split: option.splits)

lemma closeUnusedSockets_other:
  assumes "\<And>k. smap_find m k \<noteq> Some fd" "closeUnusedSockets type reg m p = (m', p')"
    and "smap_ok m" "fds_ok p"
  shows "fd_file p' fd = fd_file p fd"
  using assms
proof (induction reg arbitrary: m p)
  case Nil
  then show ?case by (simp add: closeUnusedSockets_def)
next
  case (Cons e reg)
  show ?case
  proof (cases "pe_type e = type")
    case True
    with Cons.prems have "closeUnusedSockets type reg m p = (m', p')"
      by (simp add: closeUnusedSockets_def)
    with Cons.IH Cons.prems show ?thesis by blast
  next
    case False
    obtain m1 p1 where c: "closeSocket (socketNameFunc e) m p = (m1, p1)" by fastforce
    have u: "closeUnusedSockets type reg m1 p1 = (m', p')"
      using False c Cons.prems(2) by (simp add: closeUnusedSockets_def)
    have ok: "smap_ok m1" "fds_ok p1"
      using c Cons.prems(3,4) by (auto simp: closeSocket_def smap_simps split: option.splits)
    have no: "smap_find m1 k \<noteq> Some fd" for k
      using c Cons.prems(1,3) by (auto simp: closeSocket_def smap_simps split: option.splits if_splits)
    have "fd_file p1 fd = fd_file p fd"
      using c Cons.prems(1) [of "socketNameFunc e"] Cons.prems(4)
      by (auto simp: closeSocket_def fd_file_close split: option.splits)
    with Cons.IH [OF no u ok] show ?thesis by simp
  qed
qed

lemma closeUnusedSockets_find:
  assumes "smap_ok m" "fds_ok p"
    and "fds_distinct m"
  shows "case closeUnusedSockets type reg m p of (m', p') \<Rightarrow> smap_ok m' \<and> fds_ok p' \<and>
    (\<forall>k. smap_find m' k =
       (if k \<in> socketNameFunc ` {e \<in> set reg. pe_type e \<noteq> type} then None else smap_find m k)) \<and>
    (\<forall>k fd. smap_find m k = Some fd \<longrightarrow> fd_file p' fd =
       (if k \<in> socketNameFunc ` {e \<in> set reg. pe_type e \<noteq> type} then None else fd_file p fd))"
  using assms
proof (induction reg arbitrary: m p)
  case Nil
  then show ?case by (simp add: closeUnusedSockets_def)
next
  case (Cons e reg)
  show ?case
  proof (cases "pe_type e = type")
    case True
    then have "closeUnusedSockets type (e # reg) m p = closeUnusedSockets type reg m p"
      "{x \<in> set (e # reg). pe_type x \<noteq> type} = {x \<in> set reg. pe_type x \<noteq> type}"
      by (auto simp: closeUnusedSockets_def)
    with Cons.IH [OF Cons.prems] show ?thesis by simp
  next
    case False
    obtain m1 p1 where c: "closeSocket (socketNameFunc e) m p = (m1, p1)" by fastforce
    have s: "smap_ok m1 \<and> fds_ok p1 \<and>
      (\<forall>k. smap_find m1 k = (if k = socketNameFunc e then None else smap_find m k)) \<and>
      (\<forall>k fd. smap_find m k = Some fd \<longrightarrow>
         fd_file p1 fd = (if k = socketNameFunc e then None else fd_file p fd))"
      using closeSocket_find [where s = "socketNameFunc e", OF Cons.prems] unfolding c prod.case .
    have u: "closeUnusedSockets type (e # reg) m p = closeUnusedSockets type reg m1 p1"
      using False c by (simp add: closeUnusedSockets_def)
    have img: "socketNameFunc ` {x \<in> set (e # reg). pe_type x \<noteq> type}
        = insert (socketNameFunc e) (socketNameFunc ` {x \<in> set reg. pe_type x \<noteq> type})"
      using False by auto
    have find1: "smap_find m1 k = (if k = socketNameFunc e then None else smap_find m k)" for k
      using s by blast
    have inj: "fds_distinct m1"
      using Cons.prems(3) unfolding fds_distinct_def find1 by auto
    have "smap_ok m1" "fds_ok p1" using s by auto
    from Cons.IH [OF this inj] obtain m' p' where
      u': "closeUnusedSockets type reg m1 p1 = (m', p')" and ok': "smap_ok m'" "fds_ok p'"
      and find': "\<And>k. smap_find m' k =
        (if k \<in> socketNameFunc ` {e \<in> set reg. pe_type e \<noteq> type} then None else smap_find m1 k)"
      and fds': "\<And>k fd. smap_find m1 k = Some fd \<Longrightarrow> fd_file p' fd =
        (if k \<in> socketNameFunc ` {e \<in> set reg. pe_type e \<noteq> type} then None else fd_file p1 fd)"
      by (auto split: prod.splits)
    have keep: "fd_file p' fd = fd_file p1 fd" if "\<And>k. smap_find m1 k \<noteq> Some fd" for fd
      by (rule closeUnusedSockets_other [OF that u' \<open>smap_ok m1\<close> \<open>fds_ok p1\<close>])
    show ?thesis unfolding u u' prod.case img
    proof (intro conjI allI impI ok')
      show "smap_find m' k = (if k \<in> insert (socketNameFunc e)
          (socketNameFunc ` {x \<in> set reg. pe_type x \<noteq> type}) then None else smap_find m k)" for k
        unfolding find' find1 by auto
      show "fd_file p' fd = (if k \<in> insert (socketNameFunc e)
          (socketNameFunc ` {x \<in> set reg. pe_type x \<noteq> type}) then None else fd_file p fd)"
        if k: "smap_find m k = Some fd" for k fd
      proof (cases "k = socketNameFunc e")
        case True
        then have "fd_file p1 fd = None" using s k by auto
        moreover have "smap_find m1 j \<noteq> Some fd" for j
          using k True fds_distinctD [OF Cons.prems(3) k, of j] unfolding find1 by auto
        ultimately show ?thesis using keep True by simp
      next
        case False
        then have "smap_find m1 k = Some fd" "fd_file p1 fd = fd_file p fd" using s k by auto
        with fds' False show ?thesis by simp
      qed
    qed
  qed
qed

lemma closeAllSockets_closes:
  assumes "smap_find m s = Some fd" "0 < fd" "fds_ok p"
  shows "fd_file (snd (closeAllSockets m p)) fd = None"
proof -
  let ?f = "\<lambda>(_ :: string, fd) q. if fd > 0 then close_fd fd q else q"
  have stay: "fds_ok q \<Longrightarrow> fd_file q fd = None \<Longrightarrow> fd_file (fold ?f l q) fd = None" for l q
    by (induction l arbitrary: q) (auto simp: fd_file_close)
  have "fds_ok q \<Longrightarrow> (s, fd) \<in> set l \<Longrightarrow> fd_file (fold ?f l q) fd = None" for l q
    using assms(2) by (induction l arbitrary: q) (auto simp: fd_file_close stay)
  moreover have "(s, fd) \<in> set m" using assms(1) by (simp add: smap_find_map_of map_of_SomeD)
  ultimately show ?thesis using assms(3) by (simp add: closeAllSockets_def)
qed

text \<open>
  Whatever socket files an earlier run left behind, initialising the sockets of the
  three shipped plugins succeeds and binds each plugin's own path; a booster process then
  keeps its own type's listening socket, bound at its type's path, and neither the map nor
  the descriptor table of any other.
\<close>

theorem booster_keeps_own_socket:
  assumes "sockets_ok [] w p" "\<not> sf_socket_fails w" "\<not> sf_listen_fails w"
  shows "\<exists>m w' p'. initBoosterSockets shipped_registry [] w p = Returns (m, w', p') \<and>
    (case closeUnusedSockets (boosterType k) shipped_registry m p' of (m', p'') \<Rightarrow>
       0 \<le> findSocket (socketId k) m' \<and>
       fd_file p'' (findSocket (socketId k) m') = smap_find (sf_bound w') (socketId k) \<and>
       smap_find (sf_bound w') (socketId k) \<noteq> None \<and>
       (\<forall>j. j \<noteq> k \<longrightarrow> findSocket (socketId j) m' = -1 \<and>
          fd_file p'' (findSocket (socketId j) m) = None))"
proof -
  have "\<forall>e \<in> set shipped_registry. length (socketNameFunc e) \<le> 13"
    using registered.sockets_fit by blast
  from initBoosterSockets_ok [OF assms(1) _ this assms(2,3)] obtain m w' p' where
    i: "initBoosterSockets shipped_registry [] w p = Returns (m, w', p')" "sockets_ok m w' p'"
    and dom: "\<And>s. smap_find m s \<noteq> None \<longleftrightarrow> s \<in> socketNameFunc ` set shipped_registry"
    by (auto simp: fits_def smap_keys_def)
  have names: "socketId j \<in> socketNameFunc ` set shipped_registry" for j
    by (force simp: shipped_registry_eq entry_of_def)
  have others: "socketId j \<in> socketNameFunc ` {e \<in> set shipped_registry. pe_type e \<noteq> boosterType k}
      \<longleftrightarrow> j \<noteq> k" for j
    by (auto simp: shipped_registry_eq entry_of_def intro!: image_eqI [of _ _ "entry_of j"])
  have path: "sun_path (socketId j) = socketId j" for j by (cases j) (simp_all add: sun_path_def)
  have wf: "smap_ok m" "fds_ok p'" "fds_distinct m" using i(2) by (simp_all add: sockets_ok_def)
  obtain m' p'' where u: "closeUnusedSockets (boosterType k) shipped_registry m p' = (m', p'')"
    by fastforce
  note c = closeUnusedSockets_find [where type = "boosterType k" and reg = shipped_registry,
      OF wf, unfolded u prod.case]
  obtain fd where fd: "smap_find m (socketId k) = Some fd" using dom names by blast
  have own: "smap_find m' (socketId k) = Some fd" "fd_file p'' fd = fd_file p' fd"
    using c fd others [of k] by auto
  have "findSocket (socketId j) m' = -1 \<and> fd_file p'' (findSocket (socketId j) m) = None" if "j \<noteq> k" for j
  proof -
    obtain x where x: "smap_find m (socketId j) = Some x" using dom names by blast
    then have "smap_find m' (socketId j) = None" "fd_file p'' x = None"
      using c others [of j] that by auto
    with x show ?thesis by (simp add: findSocket_def)
  qed
  then show ?thesis
    using i(1) u own sockets_ok_find [OF i(2) fd] by (simp add: findSocket_def path)
qed

definition example_proc :: proc where
  "example_proc = \<lparr>p_pid = 100, p_nice = 0, p_getpriority_fails = False, p_ruid = 0, p_euid = 0,
     p_suid = 0, p_rgid = 0, p_egid = 0, p_sgid = 0, p_fds = [(0, 0), (1, 0), (2, 0), (3, 1)],
     p_environ = [''PWD=/''], p_args = ''applauncherd'' @ [NUL] @ ''--boot-mode'' @ [NUL],
     p_comm = ''applauncherd'', p_cwd = ''/'', p_oom = ''-17'', p_pdeathsig = 0, p_dumpable = True,
     p_sid = 0, p_dfl = [], p_sent = [], p_pipe_broken = False, p_slept = [],
     p_umask = 18\<rparr>"

text \<open>A file system where an earlier run left \<open>/tmp/boostm\<close>.\<close>

definition example_files :: socket_files where
  "example_files = \<lparr>sf_bound = [(''/tmp/boostm'', 5)], sf_mode = [], sf_next = 10,
     sf_socket_fails = False, sf_listen_fails = False\<rparr>"

lemma example_ok: "sockets_ok [] example_files example_proc"
  by (simp add: sockets_ok_def example_files_def example_proc_def fds_ok_def smap_ok_def
      fds_distinct_def)

theorem booster_keeps_own_socket_witness:
  "\<exists>m w' p'. initBoosterSockets shipped_registry [] example_files example_proc = Returns (m, w', p')"
  using booster_keeps_own_socket [of example_files example_proc QtBooster, OF example_ok]
  by (auto simp: example_files_def)

text \<open>
  A socket path of more than 13 bytes is cut when it is bound but not when the stale
  file is removed: the first start binds the cut path, and once the file is there every
  later start ends with \<open>EXIT_FAILURE\<close>, because it removes the file of the full path only.
\<close>

theorem long_socket_path_fails_on_restart:
  assumes "sockets_ok [] w p" "\<not> sf_socket_fails w" "\<not> sf_listen_fails w"
    and "13 < length s" "smap_find (sf_bound w) (take 13 s) = None"
  shows "\<exists>m' w' p'. initSocket s [] w p = Returns (m', w', p') \<and>
    smap_find (sf_bound w') s = None \<and> smap_find (sf_bound w') (take 13 s) = Some (sf_next w) \<and>
    initSocket s [] w' q = Exits EXIT_FAILURE"
proof -
  have neq: "take 13 s \<noteq> s" using assms(4) by (metis length_take min.absorb4 nat_neq_iff)
  have ok: "smap_ok (sf_bound w)" using assms(1) by (simp add: sockets_ok_def)
  show ?thesis
    using assms neq neq [symmetric] ok
    by (simp add: initSocket_def sun_path_def smap_simps sys_install_def Let_def)
qed

theorem long_socket_path_fails_on_restart_witness:
  "\<exists>m' w' p'. initSocket ''/tmp/boost-long'' [] example_files example_proc = Returns (m', w', p') \<and>
    initSocket ''/tmp/boost-long'' [] w' example_proc = Exits EXIT_FAILURE"
  using long_socket_path_fails_on_restart [OF example_ok, of "''/tmp/boost-long''" example_proc]
  by (auto simp: example_files_def)

subsection \<open>The manager's state stays well formed\<close>

lemma closeSocket_ok:
  assumes "sockets_ok m w p"
  shows "case closeSocket s m p of (m', p') \<Rightarrow> sockets_ok m' w p'"
proof -
  have ok: "smap_ok m" "fds_ok p" "fds_distinct m" "smap_ok (sf_bound w)"
    "\<forall>s f. smap_find (sf_bound w) s = Some f \<longrightarrow> f < sf_next w"
    using assms by (simp_all add: sockets_ok_def)
  obtain m' p' where c: "closeSocket s m p = (m', p')" by fastforce
  note f = closeSocket_find [where s = s, OF ok(1-3), unfolded c prod.case]
  then have find: "smap_find m' k = (if k = s then None else smap_find m k)" for k by blast
  have "0 \<le> fd \<and> fd_file p' fd \<noteq> None \<and> fd_file p' fd = smap_find (sf_bound w) (sun_path k)"
    if "smap_find m' k = Some fd" for k fd
  proof -
    have k: "k \<noteq> s" "smap_find m k = Some fd" using that find [of k] by (auto split: if_splits)
    with f have "fd_file p' fd = fd_file p fd" by auto
    with sockets_ok_find [OF assms k(2)] show ?thesis by simp
  qed
  moreover have "fds_distinct m'"
    using ok(3) unfolding fds_distinct_def find by auto
  ultimately show ?thesis using f ok(4,5) unfolding sockets_ok_def c prod.case by blast
qed

lemma closeAllSockets_ok:
  assumes "sockets_ok m w p"
  shows "case closeAllSockets m p of (m', p') \<Rightarrow> sockets_ok m' w p'"
proof -
  have "fds_ok q \<Longrightarrow> fds_ok (fold (\<lambda>(_ :: string, fd) q. if fd > 0 then close_fd fd q else q) l q)" for l q
    by (induction l arbitrary: q) auto
  with assms show ?thesis by (simp add: closeAllSockets_def sockets_ok_def smap_ok_def fds_distinct_def)
qed



end
