(* ===== verification/Protocol.thy ===== *)
theory Protocol
  imports Prelude
begin

text \<open>
  The message numbers of \<open>src/common/protocol.h\<close>, and the facts about their bits
  that the sender and the receiver rely on.
\<close>

definition INVOKER_MSG_MASK :: u32 where "INVOKER_MSG_MASK = 0xffff0000"
definition INVOKER_MSG_MAGIC :: u32 where "INVOKER_MSG_MAGIC = 0xb0070000"
definition INVOKER_MSG_MAGIC_VERSION_MASK :: u32 where
  "INVOKER_MSG_MAGIC_VERSION_MASK = 0x0000ff00"
definition INVOKER_MSG_MAGIC_VERSION :: u32 where "INVOKER_MSG_MAGIC_VERSION = 0x00000300"
definition INVOKER_MSG_MAGIC_OPTION_MASK :: u32 where
  "INVOKER_MSG_MAGIC_OPTION_MASK = 0x000000ff"
definition INVOKER_MSG_MAGIC_OPTION_WAIT :: u32 where
  "INVOKER_MSG_MAGIC_OPTION_WAIT = 0x00000001"
definition INVOKER_MSG_MAGIC_OPTION_DLOPEN_GLOBAL :: u32 where
  "INVOKER_MSG_MAGIC_OPTION_DLOPEN_GLOBAL = 0x00000002"
definition INVOKER_MSG_MAGIC_OPTION_DLOPEN_DEEP :: u32 where
  "INVOKER_MSG_MAGIC_OPTION_DLOPEN_DEEP = 0x00000004"
definition INVOKER_MSG_MAGIC_OPTION_SINGLE_INSTANCE :: u32 where
  "INVOKER_MSG_MAGIC_OPTION_SINGLE_INSTANCE = 0x00000008"
definition INVOKER_MSG_NAME :: u32 where "INVOKER_MSG_NAME = 0x5a5e0000"
definition INVOKER_MSG_EXEC :: u32 where "INVOKER_MSG_EXEC = 0xe8ec0000"
definition INVOKER_MSG_ARGS :: u32 where "INVOKER_MSG_ARGS = 0xa4650000"
definition INVOKER_MSG_ENV :: u32 where "INVOKER_MSG_ENV = 0xe5710000"
definition INVOKER_MSG_PRIO :: u32 where "INVOKER_MSG_PRIO = 0xa1ce0000"
definition INVOKER_MSG_DELAY :: u32 where "INVOKER_MSG_DELAY = 0xb2de0012"
definition INVOKER_MSG_IDS :: u32 where "INVOKER_MSG_IDS = 0xb2df4000"
definition INVOKER_MSG_IO :: u32 where "INVOKER_MSG_IO = 0x10fd0000"
definition INVOKER_MSG_END :: u32 where "INVOKER_MSG_END = 0xdead0000"
definition INVOKER_MSG_PID :: u32 where "INVOKER_MSG_PID = 0x1d1d0000"
definition INVOKER_MSG_EXIT :: u32 where "INVOKER_MSG_EXIT = 0xe4170000"
definition INVOKER_MSG_ACK :: u32 where "INVOKER_MSG_ACK = 0x600d0000"
definition INVOKER_MSG_BAD_CREDS :: u32 where "INVOKER_MSG_BAD_CREDS = 0x60035800"

lemmas option_defs =
  INVOKER_MSG_MAGIC_OPTION_MASK_def INVOKER_MSG_MAGIC_OPTION_WAIT_def
  INVOKER_MSG_MAGIC_OPTION_DLOPEN_GLOBAL_def INVOKER_MSG_MAGIC_OPTION_DLOPEN_DEEP_def
  INVOKER_MSG_MAGIC_OPTION_SINGLE_INSTANCE_def

lemmas magic_defs =
  INVOKER_MSG_MASK_def INVOKER_MSG_MAGIC_def INVOKER_MSG_MAGIC_VERSION_MASK_def
  INVOKER_MSG_MAGIC_VERSION_def

lemmas action_defs =
  INVOKER_MSG_NAME_def INVOKER_MSG_EXEC_def INVOKER_MSG_ARGS_def INVOKER_MSG_ENV_def
  INVOKER_MSG_PRIO_def INVOKER_MSG_DELAY_def INVOKER_MSG_IDS_def INVOKER_MSG_IO_def
  INVOKER_MSG_END_def INVOKER_MSG_PID_def INVOKER_MSG_EXIT_def INVOKER_MSG_ACK_def
  INVOKER_MSG_BAD_CREDS_def

definition all_actions :: "u32 list" where
  "all_actions = [INVOKER_MSG_NAME, INVOKER_MSG_EXEC, INVOKER_MSG_ARGS, INVOKER_MSG_ENV,
     INVOKER_MSG_PRIO, INVOKER_MSG_DELAY, INVOKER_MSG_IDS, INVOKER_MSG_IO, INVOKER_MSG_END,
     INVOKER_MSG_PID, INVOKER_MSG_EXIT, INVOKER_MSG_ACK, INVOKER_MSG_BAD_CREDS, 0]"

lemma actions_distinct: "distinct all_actions" "distinct (rev all_actions)"
  by (simp_all add: all_actions_def action_defs)

lemmas action_neqs [simp] = actions_distinct [unfolded all_actions_def, simplified]

end
