(* ===== verification/AppData.thy ===== *)
theory AppData
  imports Protocol
begin

text \<open>
  The data of the application to be launched, \<open>src/launcherlib/appdata.cpp\<close>: the
  class as a record, one definition per member function. Pointers to strings that
  may be \<open>NULL\<close> or not yet written are values of \<open>cptr\<close>.
\<close>

datatype cptr = NullPtr | Indeterminate | Str string

text \<open>A credentials handle of the platform's library; its contents are opaque.\<close>

type_synonym creds = nat

record appdata =
  m_options :: u32
  m_argc :: int
  m_argv :: "cptr list option"
  m_appName :: string
  m_fileName :: string
  m_prio :: int
  m_delay :: int
  m_entry :: "nat option"
  m_ioDescriptors :: "int list"
  m_gid :: u32
  m_uid :: u32
  m_peerCreds :: "creds option"

definition AppData_init :: appdata where
  "AppData_init = \<lparr>m_options = 0, m_argc = 0, m_argv = None, m_appName = [], m_fileName = [],
     m_prio = 0, m_delay = 0, m_entry = None, m_ioDescriptors = [], m_gid = 0, m_uid = 0,
     m_peerCreds = None\<rparr>"

definition setOptions :: "u32 \<Rightarrow> appdata \<Rightarrow> appdata" where
  "setOptions newOptions a = a\<lparr>m_options := newOptions\<rparr>"

text \<open>The getter returns an \<open>int\<close>: the stored word is read as a signed number.\<close>

definition options :: "appdata \<Rightarrow> int" where
  "options a = sint (m_options a)"

definition dlopenGlobal :: "appdata \<Rightarrow> bool" where
  "dlopenGlobal a \<longleftrightarrow> m_options a AND INVOKER_MSG_MAGIC_OPTION_DLOPEN_GLOBAL \<noteq> 0"

definition dlopenDeep :: "appdata \<Rightarrow> bool" where
  "dlopenDeep a \<longleftrightarrow> m_options a AND INVOKER_MSG_MAGIC_OPTION_DLOPEN_DEEP \<noteq> 0"

definition singleInstance :: "appdata \<Rightarrow> bool" where
  "singleInstance a \<longleftrightarrow> m_options a AND INVOKER_MSG_MAGIC_OPTION_SINGLE_INSTANCE \<noteq> 0"

definition setArgc :: "int \<Rightarrow> appdata \<Rightarrow> appdata" where
  "setArgc newArgc a = a\<lparr>m_argc := newArgc\<rparr>"

definition setArgv :: "cptr list option \<Rightarrow> appdata \<Rightarrow> appdata" where
  "setArgv newArgv a = a\<lparr>m_argv := newArgv\<rparr>"

definition setAppName :: "string \<Rightarrow> appdata \<Rightarrow> appdata" where
  "setAppName newAppName a = a\<lparr>m_appName := newAppName\<rparr>"

definition setFileName :: "string \<Rightarrow> appdata \<Rightarrow> appdata" where
  "setFileName newFileName a = a\<lparr>m_fileName := newFileName\<rparr>"

definition setPriority :: "int \<Rightarrow> appdata \<Rightarrow> appdata" where
  "setPriority newPriority a = a\<lparr>m_prio := newPriority\<rparr>"

definition setDelay :: "int \<Rightarrow> appdata \<Rightarrow> appdata" where
  "setDelay newDelay a = a\<lparr>m_delay := newDelay\<rparr>"

definition setEntry :: "nat option \<Rightarrow> appdata \<Rightarrow> appdata" where
  "setEntry newEntry a = a\<lparr>m_entry := newEntry\<rparr>"

definition setIODescriptors :: "int list \<Rightarrow> appdata \<Rightarrow> appdata" where
  "setIODescriptors newIODescriptors a = a\<lparr>m_ioDescriptors := newIODescriptors\<rparr>"

definition setIDs :: "u32 \<Rightarrow> u32 \<Rightarrow> appdata \<Rightarrow> appdata" where
  "setIDs userId groupId a = a\<lparr>m_uid := userId, m_gid := groupId\<rparr>"

definition setPeerCreds :: "creds \<Rightarrow> appdata \<Rightarrow> appdata" where
  "setPeerCreds peerCreds a = a\<lparr>m_peerCreds := Some peerCreds\<rparr>"

definition deletePeerCreds :: "appdata \<Rightarrow> appdata" where
  "deletePeerCreds a = a\<lparr>m_peerCreds := None\<rparr>"

text \<open>The other getters return the field as it is.\<close>

abbreviation AppData_argc :: "appdata \<Rightarrow> int" where "AppData_argc a \<equiv> m_argc a"
abbreviation AppData_argv :: "appdata \<Rightarrow> cptr list option" where "AppData_argv a \<equiv> m_argv a"
abbreviation AppData_appName :: "appdata \<Rightarrow> string" where "AppData_appName a \<equiv> m_appName a"
abbreviation AppData_fileName :: "appdata \<Rightarrow> string" where "AppData_fileName a \<equiv> m_fileName a"
abbreviation AppData_priority :: "appdata \<Rightarrow> int" where "AppData_priority a \<equiv> m_prio a"
abbreviation AppData_delay :: "appdata \<Rightarrow> int" where "AppData_delay a \<equiv> m_delay a"
abbreviation AppData_entry :: "appdata \<Rightarrow> nat option" where "AppData_entry a \<equiv> m_entry a"
abbreviation AppData_ioDescriptors :: "appdata \<Rightarrow> int list" where "AppData_ioDescriptors a \<equiv> m_ioDescriptors a"
abbreviation AppData_userId :: "appdata \<Rightarrow> u32" where "AppData_userId a \<equiv> m_uid a"
abbreviation AppData_groupId :: "appdata \<Rightarrow> u32" where "AppData_groupId a \<equiv> m_gid a"
abbreviation AppData_peerCreds :: "appdata \<Rightarrow> creds option" where "AppData_peerCreds a \<equiv> m_peerCreds a"

text \<open>
  The loop of \<open>deleteArgv\<close> over the first \<open>m_argc\<close> cells: freeing a pointer that was
  never written, or a cell past the end of the array, is undefined.
\<close>

fun delete_cells :: "nat \<Rightarrow> cptr list \<Rightarrow> cptr list outcome" where
  "delete_cells 0 ps = Returns ps"
| "delete_cells (Suc n) [] = Undefined OutOfBounds"
| "delete_cells (Suc n) (Indeterminate # ps) = Undefined IndeterminateValue"
| "delete_cells (Suc n) (p # ps) = and_then (delete_cells n ps) (\<lambda>qs. Returns (NullPtr # qs))"

definition deleteArgv :: "appdata \<Rightarrow> appdata outcome" where
  "deleteArgv a = (case m_argv a of
       None \<Rightarrow> Returns a
     | Some ps \<Rightarrow> and_then (delete_cells (nat (m_argc a)) ps) (\<lambda>_. Returns (a\<lparr>m_argv := None\<rparr>)))"

text \<open>The destructor; \<open>creds\<close> is the build option \<open>HAVE_CREDS\<close>.\<close>

definition AppData_delete :: "bool \<Rightarrow> appdata \<Rightarrow> appdata outcome" where
  "AppData_delete creds a =
     and_then (deleteArgv a) (\<lambda>a1. Returns (if creds then deletePeerCreds a1 else a1))"

lemmas appdata_setters =
  setOptions_def setArgc_def setArgv_def setAppName_def setFileName_def setPriority_def
  setDelay_def setEntry_def setIODescriptors_def setIDs_def setPeerCreds_def deletePeerCreds_def

text \<open>An argument vector whose cells are all strings, as many as \<open>argc\<close> says.\<close>

definition argv_ok :: "appdata \<Rightarrow> bool" where
  "argv_ok a \<longleftrightarrow> (case m_argv a of None \<Rightarrow> False
     | Some ps \<Rightarrow> int (length ps) = m_argc a \<and> (\<forall>p \<in> set ps. \<exists>s. p = Str s))"

lemma delete_cells_strings:
  "\<forall>p \<in> set ps. p \<noteq> Indeterminate \<Longrightarrow> n \<le> length ps \<Longrightarrow>
     delete_cells n ps = Returns (replicate n NullPtr @ drop n ps)"
  by (induction n ps rule: delete_cells.induct) auto

lemma deleteArgv_ok:
  assumes "argv_ok a"
  shows "deleteArgv a = Returns (a\<lparr>m_argv := None\<rparr>)"
proof -
  from assms obtain ps where ps: "m_argv a = Some ps" "m_argc a = int (length ps)"
    "\<forall>p \<in> set ps. \<exists>s. p = Str s"
    by (auto simp: argv_ok_def split: option.splits)
  then have "\<forall>p \<in> set ps. p \<noteq> Indeterminate" by auto
  then have "delete_cells (length ps) ps = Returns (replicate (length ps) NullPtr)"
    using delete_cells_strings [of ps "length ps"] by simp
  with ps show ?thesis by (simp add: deleteArgv_def)
qed

lemma AppData_delete_released: "m_argv a = None \<Longrightarrow> \<exists>a'. AppData_delete creds a = Returns a'"
  by (simp add: AppData_delete_def deleteArgv_def)

lemma deleteArgv_twice: "deleteArgv a = Returns b \<Longrightarrow> deleteArgv b = Returns b"
  by (auto simp: deleteArgv_def and_then_eq_Returns split: option.splits)

end
