(* ===== verification/Channel.thy ===== *)
theory Channel
  imports Prelude
begin

text \<open>
  One end of a connected \<open>AF_UNIX\<close> stream socket, as the \<open>read\<close>, \<open>write\<close>,
  \<open>sendmsg\<close> and \<open>recvmsg\<close> calls of invoker and booster see it. A byte may carry a
  control message (\<open>SCM_RIGHTS\<close> descriptors). What the kernel does at the next
  calls is part of the state: a call may fail, or deliver fewer bytes than asked for;
  an exhausted plan means that calls succeed and deliver all they can.
\<close>

record cmsg =
  cmsg_len :: nat
  cmsg_level :: int
  cmsg_type :: int
  cmsg_data :: "int list"

type_synonym item = "byte \<times> cmsg option"

datatype io_plan = Fail | AtMost nat

record sock =
  rx :: "item list"
  tx :: "item list"
  rplan :: "io_plan list"
  wplan :: "io_plan list"

definition SOL_SOCKET :: int where "SOL_SOCKET = 1"
definition SCM_RIGHTS :: int where "SCM_RIGHTS = 1"
definition MSG_CTRUNC :: int where "MSG_CTRUNC = 8"

text \<open>\<open>CMSG_LEN\<close> of a payload of \<open>n\<close> bytes, with the 16-byte header of a 64-bit target.\<close>

definition CMSG_LEN :: "nat \<Rightarrow> nat" where "CMSG_LEN n = 16 + n"

definition plain :: "byte list \<Rightarrow> item list" where
  "plain bs = map (\<lambda>b. (b, None)) bs"

definition take_rx :: "nat \<Rightarrow> sock \<Rightarrow> int \<times> byte list \<times> sock" where
  "take_rx n s = (let bs = map fst (take n (rx s))
                  in (int (length bs), bs, s\<lparr>rx := drop n (rx s)\<rparr>))"

definition sys_read :: "nat \<Rightarrow> sock \<Rightarrow> int \<times> byte list \<times> sock" where
  "sys_read n s = (case rplan s of
       [] \<Rightarrow> take_rx n s
     | Fail # ps \<Rightarrow> (-1, [], s\<lparr>rplan := ps\<rparr>)
     | AtMost k # ps \<Rightarrow> take_rx (min n k) (s\<lparr>rplan := ps\<rparr>))"

definition sys_write :: "item list \<Rightarrow> sock \<Rightarrow> int \<times> sock" where
  "sys_write bs s = (case wplan s of
       [] \<Rightarrow> (int (length bs), s\<lparr>tx := tx s @ bs\<rparr>)
     | Fail # ps \<Rightarrow> (-1, s\<lparr>wplan := ps\<rparr>)
     | AtMost k # ps \<Rightarrow>
         (int (min k (length bs)), s\<lparr>tx := tx s @ take k bs, wplan := ps\<rparr>))"

text \<open>
  \<open>recvmsg\<close> with a one-byte buffer and room for \<open>room\<close> bytes of control message
  payload: the return value, \<open>msg_flags\<close> and the first control message, if any.
\<close>

definition sys_recvmsg :: "nat \<Rightarrow> sock \<Rightarrow> int \<times> int \<times> cmsg option \<times> sock" where
  "sys_recvmsg room s = (case rplan s of
       Fail # ps \<Rightarrow> (-1, 0, None, s\<lparr>rplan := ps\<rparr>)
     | AtMost 0 # ps \<Rightarrow> (0, 0, None, s\<lparr>rplan := ps\<rparr>)
     | ps \<Rightarrow> (case rx s of
           [] \<Rightarrow> (0, 0, None, s\<lparr>rplan := tl ps\<rparr>)
         | (b, cm) # r \<Rightarrow>
             (1, (case cm of None \<Rightarrow> 0
                  | Some m \<Rightarrow> if CMSG_LEN room < cmsg_len m then MSG_CTRUNC else 0),
              cm, s\<lparr>rx := r, rplan := tl ps\<rparr>)))"

lemma plain_append [simp]: "plain (a @ b) = plain a @ plain b"
  by (simp add: plain_def)

lemma length_plain [simp]: "length (plain bs) = length bs"
  by (simp add: plain_def)

lemma map_fst_plain [simp]: "map fst (plain bs) = bs"
  by (simp add: plain_def comp_def)

lemma plain_Nil [simp]: "plain [] = []"
  by (simp add: plain_def)

subsection \<open>Reading what was written\<close>

text \<open>A read of exactly the bytes of one earlier write returns them.\<close>

lemma sys_read_plain [wire_simps]:
  "length bs = n \<Longrightarrow> rplan s = [] \<Longrightarrow> rx s = plain bs @ r \<Longrightarrow>
     sys_read n s = (int n, bs, s\<lparr>rx := r\<rparr>)"
  by (simp add: sys_read_def take_rx_def Let_def)

lemma sys_write_ok [simp]: "wplan s = [] \<Longrightarrow> sys_write bs s = (int (length bs), s\<lparr>tx := tx s @ bs\<rparr>)"
  by (simp add: sys_write_def)

subsection \<open>Calls only consume\<close>

lemma sys_read_rx: "sys_read n s = (ret, bs, s') \<Longrightarrow> length (rx s') \<le> length (rx s)"
  by (auto simp: sys_read_def take_rx_def Let_def split: list.splits io_plan.splits)

lemma sys_read_full:
  "sys_read n s = (ret, bs, s') \<Longrightarrow> int n \<le> ret \<Longrightarrow>
     length bs = n \<and> length (rx s) = n + length (rx s')"
  by (auto simp: sys_read_def take_rx_def Let_def split: list.splits io_plan.splits)

lemma sys_read_ret:
  "sys_read n s = (ret, bs, s') \<Longrightarrow> ret = -1 \<and> bs = [] \<or> ret = int (length bs) \<and> length bs \<le> n"
  by (auto simp: sys_read_def take_rx_def Let_def split: list.splits io_plan.splits)

lemma sys_read_frame:
  "sys_read n s = (ret, bs, s') \<Longrightarrow> tx s' = tx s \<and> wplan s' = wplan s"
  by (auto simp: sys_read_def take_rx_def Let_def split: list.splits io_plan.splits)

lemma sys_recvmsg_rx: "sys_recvmsg k s = (ret, fl, cm, s') \<Longrightarrow> length (rx s') \<le> length (rx s)"
  by (auto simp: sys_recvmsg_def split: list.splits io_plan.splits nat.splits prod.splits)

lemma sys_recvmsg_frame:
  "sys_recvmsg k s = (ret, fl, cm, s') \<Longrightarrow> tx s' = tx s \<and> wplan s' = wplan s"
  by (auto simp: sys_recvmsg_def split: list.splits io_plan.splits nat.splits prod.splits)

lemma sys_write_frame: "sys_write bs s = (ret, s') \<Longrightarrow> rx s' = rx s \<and> rplan s' = rplan s"
  by (auto simp: sys_write_def split: list.splits io_plan.splits)

lemmas sock_frames = sys_read_rx sys_read_frame sys_recvmsg_rx sys_recvmsg_frame sys_write_frame

end
