(* ===== verification/Connection.thy ===== *)
theory Connection
  imports AppData Channel
begin

text \<open>
  The booster's end of the conversation with the invoker,
  \<open>src/launcherlib/connection.cpp\<close>. The record holds the fields of the class and,
  below them, what the class reaches through the process: the accepted socket, the
  process environment, the process id, the strings for which \<open>putenv\<close> fails, and
  the indeterminate contents of freshly allocated memory.
\<close>

record connection =
  c_testMode :: bool
  c_fd :: int
  c_curSocket :: int
  c_fileName :: string
  c_argc :: u32
  c_argv :: "cptr list option"
  c_io :: "int list"
  c_priority :: u32
  c_delay :: u32
  c_sendPid :: bool
  c_gid :: u32
  c_uid :: u32
  c_sock :: sock
  c_environ :: "string list"
  c_nomem :: "string \<Rightarrow> bool"
  c_junk :: "nat \<Rightarrow> byte"
  c_pid :: int

text \<open>
  The constructor. \<open>m_gid\<close> and \<open>m_uid\<close> are not initialised: they hold what
  \<open>c\<close>, the memory before construction, held.
\<close>

definition Connection_new :: "int \<Rightarrow> bool \<Rightarrow> connection \<Rightarrow> connection outcome" where
  "Connection_new socketFd testMode c =
     (let c' = c\<lparr>c_testMode := testMode, c_fd := -1, c_curSocket := socketFd, c_fileName := [],
                 c_argc := 0, c_argv := None, c_priority := 0, c_delay := 0, c_sendPid := False,
                 c_io := [-1, -1, -1]\<rparr>
      in if \<not> testMode \<and> socketFd = -1 then Exits 1 else Returns c')"

subsection \<open>System calls on the accepted descriptor\<close>

text \<open>A call on descriptor \<open>-1\<close> fails with \<open>EBADF\<close>.\<close>

definition fd_read :: "nat \<Rightarrow> connection \<Rightarrow> int \<times> byte list \<times> connection" where
  "fd_read n c = (if c_fd c < 0 then (-1, [], c)
     else (case sys_read n (c_sock c) of (ret, bs, s) \<Rightarrow> (ret, bs, c\<lparr>c_sock := s\<rparr>)))"

definition fd_write :: "byte list \<Rightarrow> connection \<Rightarrow> int \<times> connection" where
  "fd_write bs c = (if c_fd c < 0 then (-1, c)
     else (case sys_write (plain bs) (c_sock c) of (ret, s) \<Rightarrow> (ret, c\<lparr>c_sock := s\<rparr>)))"

definition fd_recvmsg :: "nat \<Rightarrow> connection \<Rightarrow> int \<times> int \<times> cmsg option \<times> connection" where
  "fd_recvmsg room c = (if c_fd c < 0 then (-1, 0, None, c)
     else (case sys_recvmsg room (c_sock c) of
            (ret, flags, cm, s) \<Rightarrow> (ret, flags, cm, c\<lparr>c_sock := s\<rparr>)))"

subsection \<open>Messages and strings\<close>

definition connected :: "connection \<Rightarrow> bool" where
  "connected c \<longleftrightarrow> c_fd c > -1"

definition close_conn :: "connection \<Rightarrow> connection" where
  "close_conn c = (if c_fd c \<noteq> -1 then c\<lparr>c_fd := -1\<rparr> else c)"

definition sendMsg :: "u32 \<Rightarrow> connection \<Rightarrow> bool \<times> connection" where
  "sendMsg msg c = (if \<not> c_testMode c
     then (let (ret, c1) = fd_write (le32 msg) c in (ret \<noteq> -1, c1))
     else (True, c))"

text \<open>The first argument is the value of the variable \<open>*msg\<close> before the call.\<close>

definition recvMsg :: "u32 \<Rightarrow> connection \<Rightarrow> bool \<times> u32 \<times> connection" where
  "recvMsg msg c = (if \<not> c_testMode c
     then (let (ret, bs, c1) = fd_read 4 c
           in (ret \<noteq> -1, (if ret < 4 then 0 else from_le32 bs), c1))
     else (True, msg, c))"

definition sendStr :: "string \<Rightarrow> connection \<Rightarrow> bool \<times> connection" where
  "sendStr str c = (if \<not> c_testMode c
     then (let sz = length str + 1;
               (_, c1) = sendMsg (word_of_nat sz) c;
               (ret, c2) = fd_write (str @ [NUL]) c1
           in (ret \<noteq> -1, c2))
     else (True, c))"

definition STR_LEN_MAX :: u32 where "STR_LEN_MAX = 4096"

text \<open>
  \<open>read\<close>'s result is kept in a \<open>uint32_t\<close>, so \<open>-1\<close> is the largest value there
  and is not less than \<open>size\<close>. The buffer holds what was in memory where the read
  wrote nothing.
\<close>

definition recv_buffer :: "connection \<Rightarrow> nat \<Rightarrow> byte list \<Rightarrow> byte list" where
  "recv_buffer c sz bs = bs @ map (c_junk c) [length bs ..< sz]"

definition recvStr :: "connection \<Rightarrow> cptr \<times> connection" where
  "recvStr c = (if \<not> c_testMode c
     then (let (res, sz, c1) = recvMsg 0 c
           in if \<not> res \<or> sz = 0 \<or> sz > STR_LEN_MAX then (NullPtr, c1)
              else let (ret, bs, c2) = fd_read (unat sz) c1;
                       ret' = (word_of_int ret :: u32)
                   in if ret' < sz then (NullPtr, c2)
                      else (Str (c_str ((recv_buffer c2 (unat sz) bs)[unat sz - 1 := NUL])), c2))
     else (NullPtr, c))"

definition sendPid :: "int \<Rightarrow> connection \<Rightarrow> bool \<times> connection" where
  "sendPid pid c = (let (_, c1) = sendMsg INVOKER_MSG_PID c;
                        (_, c2) = sendMsg (word_of_int pid) c1
                    in (True, c2))"

definition sendAppExitStatus :: "int \<Rightarrow> connection \<Rightarrow> bool \<times> connection" where
  "sendAppExitStatus status c = (let (_, c1) = sendMsg INVOKER_MSG_EXIT c;
                                     (_, c2) = sendMsg (word_of_int status) c1
                                 in (True, c2))"

subsection \<open>The magic number and the application name\<close>

text \<open>
  The version test of the source is \<open>!(magic & VERSION_MASK) == VERSION\<close>: the negation
  binds tighter than the comparison, so its left side is 0 or 1.
\<close>

definition receiveMagic :: "connection \<Rightarrow> u32 \<times> connection" where
  "receiveMagic c = (let (_, magic, c1) = recvMsg 0 c
     in if magic AND INVOKER_MSG_MASK = INVOKER_MSG_MAGIC \<and>
           (if magic AND INVOKER_MSG_MAGIC_VERSION_MASK = 0 then 1 else 0)
             = INVOKER_MSG_MAGIC_VERSION
        then (-1, c1)
        else (magic AND INVOKER_MSG_MAGIC_OPTION_MASK,
              c1\<lparr>c_sendPid := (magic AND INVOKER_MSG_MAGIC_OPTION_WAIT \<noteq> 0)\<rparr>))"

definition receiveAppName :: "connection \<Rightarrow> string \<times> connection" where
  "receiveAppName c = (let (_, msg, c1) = recvMsg 0 c
     in if msg \<noteq> INVOKER_MSG_NAME then ([], c1)
        else (case recvStr c1 of
                (Str name, c2) \<Rightarrow> (name, c2)
              | (_, c2) \<Rightarrow> ([], c2)))"

subsection \<open>The actions\<close>

definition receiveExec :: "connection \<Rightarrow> bool \<times> connection" where
  "receiveExec c = (case recvStr c of
       (Str filename, c1) \<Rightarrow> (True, c1\<lparr>c_fileName := filename\<rparr>)
     | (_, c1) \<Rightarrow> (False, c1))"

definition receivePriority :: "connection \<Rightarrow> bool \<times> connection" where
  "receivePriority c = (let (_, v, c1) = recvMsg (c_priority c) c in (True, c1\<lparr>c_priority := v\<rparr>))"

definition receiveDelay :: "connection \<Rightarrow> bool \<times> connection" where
  "receiveDelay c = (let (_, v, c1) = recvMsg (c_delay c) c in (True, c1\<lparr>c_delay := v\<rparr>))"

definition receiveIDs :: "connection \<Rightarrow> bool \<times> connection" where
  "receiveIDs c = (let (_, u, c1) = recvMsg (c_uid c) c;
                       c1' = c1\<lparr>c_uid := u\<rparr>;
                       (_, g, c2) = recvMsg (c_gid c1') c1'
                   in (True, c2\<lparr>c_gid := g\<rparr>))"

definition ARGC_MAX :: u32 where "ARGC_MAX = 1024"

text \<open>The loop that fills \<open>m_argv\<close>, from cell \<open>i\<close> with \<open>n\<close> cells to go.\<close>

fun recv_argv_loop :: "nat \<Rightarrow> nat \<Rightarrow> connection \<Rightarrow> bool \<times> connection" where
  "recv_argv_loop i 0 c = (True, c)"
| "recv_argv_loop i (Suc n) c =
     (let (p, c1) = recvStr c;
          c2 = c1\<lparr>c_argv := map_option (\<lambda>a. a[i := p]) (c_argv c1)\<rparr>
      in if p = NullPtr then (False, c2) else recv_argv_loop (Suc i) n c2)"

definition receiveArgs :: "connection \<Rightarrow> bool \<times> connection" where
  "receiveArgs c = (let (_, n, c1) = recvMsg (c_argc c) c;
                        c2 = c1\<lparr>c_argc := n\<rparr>
     in if n > 0 \<and> n < ARGC_MAX
        then recv_argv_loop 0 (unat n)
               (c2\<lparr>c_argv := Some (replicate (unat n) Indeterminate)\<rparr>)
        else (False, c2))"

definition putenv_sanitize :: "string \<Rightarrow> bool" where
  "putenv_sanitize s \<longleftrightarrow> CHR ''='' \<in> set s"

definition env_name :: "string \<Rightarrow> string" where
  "env_name s = takeWhile (\<lambda>ch. ch \<noteq> CHR ''='') s"

text \<open>\<open>putenv\<close> replaces the entry of the same name in place, or adds one at the end.\<close>

fun env_put :: "string \<Rightarrow> string list \<Rightarrow> string list" where
  "env_put s [] = [s]"
| "env_put s (e # es) =
     (if putenv_sanitize e \<and> env_name e = env_name s then s # es else e # env_put s es)"

definition putenv_wrapper :: "string \<Rightarrow> connection \<Rightarrow> int \<times> connection" where
  "putenv_wrapper var c = (if c_nomem c var then (-1, c)
     else (0, c\<lparr>c_environ := env_put var (c_environ c)\<rparr>))"

definition MAX_VARS :: u32 where "MAX_VARS = 1024"

fun recv_env_loop :: "nat \<Rightarrow> connection \<Rightarrow> bool \<times> connection" where
  "recv_env_loop 0 c = (True, c)"
| "recv_env_loop (Suc n) c = (case recvStr c of
       (Str var, c1) \<Rightarrow>
         if putenv_sanitize var then recv_env_loop n (snd (putenv_wrapper var c1))
         else recv_env_loop n c1
     | (_, c1) \<Rightarrow> (False, c1))"

definition receiveEnv :: "connection \<Rightarrow> bool \<times> connection" where
  "receiveEnv c = (let (_, n_vars, c1) = recvMsg 0 c
     in if n_vars > 0 \<and> n_vars < MAX_VARS then recv_env_loop (unat n_vars) c1 else (False, c1))"

text \<open>
  \<open>receiveIO\<close> accepts one control message that holds exactly three descriptors.
\<close>

definition receiveIO :: "connection \<Rightarrow> bool \<times> connection" where
  "receiveIO c = (let (ret, flags, cm, c1) = fd_recvmsg 12 c
     in if ret < 0 then (False, c1)
        else if flags \<noteq> 0 then (False, c1)
        else (case cm of
                None \<Rightarrow> (False, c1)
              | Some m \<Rightarrow>
                  if cmsg_len m \<noteq> CMSG_LEN 12 \<or> cmsg_level m \<noteq> SOL_SOCKET \<or>
                     cmsg_type m \<noteq> SCM_RIGHTS then (False, c1)
                  else (True, c1\<lparr>c_io := cmsg_data m\<rparr>)))"

subsection \<open>What the receiving operations leave alone\<close>

text \<open>
  Every receiving operation keeps the process-wide fields and the output, and only
  consumes input.
\<close>

definition pending :: "connection \<Rightarrow> nat" where
  "pending c = length (rx (c_sock c))"

definition only_receives :: "connection \<Rightarrow> connection \<Rightarrow> bool" where
  "only_receives c c' \<longleftrightarrow>
     tx (c_sock c') = tx (c_sock c) \<and> wplan (c_sock c') = wplan (c_sock c) \<and>
     c_fd c' = c_fd c \<and> c_testMode c' = c_testMode c \<and> c_pid c' = c_pid c \<and>
     c_nomem c' = c_nomem c \<and> c_junk c' = c_junk c \<and> c_sendPid c' = c_sendPid c \<and>
     pending c' \<le> pending c"

named_theorems receives "each receiving operation only receives"

lemma only_receives_refl [simp]: "only_receives c c"
  by (simp add: only_receives_def)

lemma only_receives_trans: "only_receives a b \<Longrightarrow> only_receives b c \<Longrightarrow> only_receives a c"
  by (simp add: only_receives_def)

lemma only_receives_updates [simp]:
  "only_receives c (d\<lparr>c_fileName := f\<rparr>) = only_receives c d"
  "only_receives c (d\<lparr>c_argc := n\<rparr>) = only_receives c d"
  "only_receives c (d\<lparr>c_argv := a\<rparr>) = only_receives c d"
  "only_receives c (d\<lparr>c_io := l\<rparr>) = only_receives c d"
  "only_receives c (d\<lparr>c_priority := p\<rparr>) = only_receives c d"
  "only_receives c (d\<lparr>c_delay := y\<rparr>) = only_receives c d"
  "only_receives c (d\<lparr>c_uid := u\<rparr>) = only_receives c d"
  "only_receives c (d\<lparr>c_gid := g\<rparr>) = only_receives c d"
  "only_receives c (d\<lparr>c_environ := e\<rparr>) = only_receives c d"
  "only_receives (d\<lparr>c_fileName := f\<rparr>) c = only_receives d c"
  "only_receives (d\<lparr>c_argc := n\<rparr>) c = only_receives d c"
  "only_receives (d\<lparr>c_argv := a\<rparr>) c = only_receives d c"
  "only_receives (d\<lparr>c_io := l\<rparr>) c = only_receives d c"
  "only_receives (d\<lparr>c_priority := p\<rparr>) c = only_receives d c"
  "only_receives (d\<lparr>c_delay := y\<rparr>) c = only_receives d c"
  "only_receives (d\<lparr>c_uid := u\<rparr>) c = only_receives d c"
  "only_receives (d\<lparr>c_gid := g\<rparr>) c = only_receives d c"
  "only_receives (d\<lparr>c_environ := e\<rparr>) c = only_receives d c"
  by (simp_all add: only_receives_def pending_def)

lemma fd_read_receives [receives]: "fd_read n c = (ret, bs, c') \<Longrightarrow> only_receives c c'"
  by (auto simp: fd_read_def only_receives_def pending_def split: if_splits prod.splits
      dest: sys_read_rx sys_read_frame)

lemma fd_recvmsg_receives [receives]: "fd_recvmsg n c = (ret, fl, cm, c') \<Longrightarrow> only_receives c c'"
  by (auto simp: fd_recvmsg_def only_receives_def pending_def split: if_splits prod.splits
      dest: sys_recvmsg_rx sys_recvmsg_frame)

lemma recvMsg_receives [receives]: "recvMsg v c = (ok, w, c') \<Longrightarrow> only_receives c c'"
  by (auto simp: recvMsg_def Let_def split: if_splits prod.splits intro: fd_read_receives)

lemma recvStr_receives [receives]: "recvStr c = (p, c') \<Longrightarrow> only_receives c c'"
  by (auto simp: recvStr_def Let_def split: if_splits prod.splits
      intro: fd_read_receives only_receives_trans dest!: recvMsg_receives)

lemma receiveExec_receives [receives]: "receiveExec c = (ok, c') \<Longrightarrow> only_receives c c'"
  by (auto simp: receiveExec_def split: prod.splits cptr.splits dest!: recvStr_receives)

lemma receivePriority_receives [receives]: "receivePriority c = (ok, c') \<Longrightarrow> only_receives c c'"
  by (auto simp: receivePriority_def Let_def split: prod.splits dest!: recvMsg_receives)

lemma receiveDelay_receives [receives]: "receiveDelay c = (ok, c') \<Longrightarrow> only_receives c c'"
  by (auto simp: receiveDelay_def Let_def split: prod.splits dest!: recvMsg_receives)

lemma receiveIDs_receives [receives]: "receiveIDs c = (ok, c') \<Longrightarrow> only_receives c c'"
  by (auto simp: receiveIDs_def Let_def split: prod.splits dest!: recvMsg_receives
      intro: only_receives_trans)

lemma receiveIO_receives [receives]: "receiveIO c = (ok, c') \<Longrightarrow> only_receives c c'"
  by (auto simp: receiveIO_def Let_def split: prod.splits if_splits option.splits
      dest!: fd_recvmsg_receives)

lemma recv_argv_loop_receives [receives]:
  "recv_argv_loop i n c = (ok, c') \<Longrightarrow> only_receives c c'"
proof (induction i n c rule: recv_argv_loop.induct)
  case (1 i c)
  then show ?case by simp
next
  case (2 i n c)
  obtain p c1 where r: "recvStr c = (p, c1)" by (cases "recvStr c")
  define c2 where "c2 = c1\<lparr>c_argv := map_option (\<lambda>a. a[i := p]) (c_argv c1)\<rparr>"
  have c2: "only_receives c c2" using recvStr_receives [OF r] by (simp add: c2_def)
  show ?case
  proof (cases "p = NullPtr")
    case True
    with "2.prems" r c2 show ?thesis by (auto simp: c2_def Let_def)
  next
    case False
    with "2.prems" r have "recv_argv_loop (Suc i) n c2 = (ok, c')" by (simp add: c2_def Let_def)
    with "2.IH" [OF r [symmetric] refl refl _ ] False c2 show ?thesis
      by (auto simp: c2_def intro: only_receives_trans)
  qed
qed

lemma receiveArgs_receives [receives]: "receiveArgs c = (ok, c') \<Longrightarrow> only_receives c c'"
  by (auto simp: receiveArgs_def Let_def split: prod.splits if_splits
      dest!: recvMsg_receives recv_argv_loop_receives intro: only_receives_trans)

lemma putenv_wrapper_receives [simp]:
  "only_receives d (snd (putenv_wrapper v c)) = only_receives d c"
  "only_receives (snd (putenv_wrapper v c)) d = only_receives c d"
  by (simp_all add: putenv_wrapper_def)

lemma recv_env_loop_receives [receives]:
  "recv_env_loop n c = (ok, c') \<Longrightarrow> only_receives c c'"
proof (induction n c rule: recv_env_loop.induct)
  case (1 c)
  then show ?case by simp
next
  case (2 n c)
  then show ?case
    by (auto split: prod.splits cptr.splits if_splits dest!: recvStr_receives
        intro: only_receives_trans)
qed

lemma receiveEnv_receives [receives]: "receiveEnv c = (ok, c') \<Longrightarrow> only_receives c c'"
  by (auto simp: receiveEnv_def Let_def split: prod.splits if_splits
      dest!: recvMsg_receives recv_env_loop_receives intro: only_receives_trans)

subsection \<open>The receive loop\<close>

text \<open>
  The cases of the \<open>switch\<close> that receive data; the results of the calls are ignored,
  as in the source. \<open>None\<close> stands for the \<open>default\<close> case.
\<close>

definition receiveAction :: "u32 \<Rightarrow> connection \<Rightarrow> connection option" where
  "receiveAction action c =
     (if action = INVOKER_MSG_EXEC then Some (snd (receiveExec c))
      else if action = INVOKER_MSG_ARGS then Some (snd (receiveArgs c))
      else if action = INVOKER_MSG_ENV then Some (snd (receiveEnv (c\<lparr>c_environ := []\<rparr>)))
      else if action = INVOKER_MSG_PRIO then Some (snd (receivePriority c))
      else if action = INVOKER_MSG_DELAY then Some (snd (receiveDelay c))
      else if action = INVOKER_MSG_IO then Some (snd (receiveIO c))
      else if action = INVOKER_MSG_IDS then Some (snd (receiveIDs c))
      else None)"

lemma receiveAction_0 [simp]: "receiveAction 0 c = None"
  by (simp add: receiveAction_def)

lemma receiveAction_END [simp]: "receiveAction INVOKER_MSG_END c = None"
  by (simp add: receiveAction_def)

lemmas receives_snd =
  receiveExec_receives [OF prod.collapse [symmetric]]
  receiveArgs_receives [OF prod.collapse [symmetric]]
  receiveEnv_receives [OF prod.collapse [symmetric]]
  receivePriority_receives [OF prod.collapse [symmetric]]
  receiveDelay_receives [OF prod.collapse [symmetric]]
  receiveIO_receives [OF prod.collapse [symmetric]]
  receiveIDs_receives [OF prod.collapse [symmetric]]

lemma receiveAction_receives:
  "receiveAction action c = Some c' \<Longrightarrow> only_receives c c'"
  by (auto simp: receiveAction_def receives_snd
      receives_snd(3) [of "c\<lparr>c_environ := []\<rparr>", simplified] split: if_splits)

lemma recvMsg_consumes:
  assumes "recvMsg 0 c = (ok, w, c')" "w \<noteq> 0"
  shows "pending c = 4 + pending c'"
  using assms
  by (auto simp: recvMsg_def fd_read_def pending_def Let_def split: if_splits prod.splits
      dest: sys_read_full)

definition sendReply :: "connection \<Rightarrow> connection" where
  "sendReply c = (let (_, c1) = sendMsg INVOKER_MSG_ACK c
     in if c_sendPid c1 then snd (sendPid (c_pid c1) c1) else c1)"

text \<open>
  \<open>receiveActions\<close>. Every turn of the \<open>while (1)\<close> reads an action; a read that
  does not deliver four bytes yields action 0 and ends the loop.
\<close>

function receiveActions :: "connection \<Rightarrow> bool \<times> connection" where
  "receiveActions c =
     (let (_, action, c1) = recvMsg 0 c
      in if action = INVOKER_MSG_END then (True, sendReply c1)
         else (case receiveAction action c1 of
                 Some c2 \<Rightarrow> receiveActions c2
               | None \<Rightarrow> (False, c1)))"
  by pat_completeness auto
termination
proof (relation "measure pending")
  fix c p ok q action c1 c2
  assume r: "p = recvMsg 0 c" "(ok, q) = p" "(action, c1) = q"
    and a: "receiveAction action c1 = Some c2"
  from a have "action \<noteq> 0" by auto
  with r have "pending c = 4 + pending c1"
    using recvMsg_consumes by metis
  moreover have "pending c2 \<le> pending c1"
    using receiveAction_receives [OF a] by (simp add: only_receives_def)
  ultimately show "(c2, c) \<in> measure pending" by simp
qed simp

declare receiveActions.simps [simp del]

text \<open>
  \<open>receiveApplicationData\<close>. Setting \<open>m_options\<close> before the test leaves it set when
  the call fails.
\<close>

definition receiveApplicationData :: "appdata \<Rightarrow> connection \<Rightarrow> bool \<times> appdata \<times> connection" where
  "receiveApplicationData a c =
     (let (magic, c1) = receiveMagic c;
          a1 = setOptions magic a
      in if options a1 = -1 then (False, a1, c1)
         else let (name, c2) = receiveAppName c1;
                  a2 = setAppName name a1
              in if m_appName a2 = [] then (False, a2, c2)
                 else let (ok, c3) = receiveActions c2
                      in if ok
                         then (True,
                               setIDs (c_uid c3) (c_gid c3)
                               (setIODescriptors (c_io c3)
                               (setArgv (c_argv c3)
                               (setArgc (sint (c_argc c3))
                               (setDelay (sint (c_delay c3))
                               (setPriority (sint (c_priority c3))
                               (setFileName (c_fileName c3) a2)))))), c3)
                         else (False, a2, c3))"

definition isReportAppExitStatusNeeded :: "connection \<Rightarrow> bool" where
  "isReportAppExitStatusNeeded c \<longleftrightarrow> c_sendPid c"

text \<open>
  \<open>peerPid\<close>: \<open>cr\<close> is what \<open>getsockopt(SO_PEERCRED)\<close> answers, \<open>None\<close> when it fails.
\<close>

definition peerPid :: "int option \<Rightarrow> int" where
  "peerPid cr = (case cr of None \<Rightarrow> 0 | Some pid \<Rightarrow> pid)"

subsection \<open>Accepting a connection\<close>

text \<open>
  What the platform's credentials library answers is a parameter:
  \<open>getpeer\<close> the peer's credentials of a descriptor, \<open>have_p\<close> whether credentials
  include the required one. The two preprocessor conditions are flags.
\<close>

record creds_config =
  HAVE_CREDS :: bool
  DISABLE_VERIFICATION :: bool
  creds_getpeer :: "int \<Rightarrow> creds"
  creds_have_p :: "creds \<Rightarrow> bool"

text \<open>\<open>fd\<close> is what \<open>::accept\<close> returns, \<open>s\<close> the socket it accepted.\<close>

definition accept :: "creds_config \<Rightarrow> int \<Rightarrow> sock \<Rightarrow> appdata \<Rightarrow> connection
    \<Rightarrow> bool \<times> appdata \<times> connection" where
  "accept cfg fd s a c =
     (if \<not> c_testMode c
      then let c1 = c\<lparr>c_fd := fd, c_sock := s\<rparr>
           in if fd < 0 then (False, a, c1)
              else if HAVE_CREDS cfg
              then let ccreds = creds_getpeer cfg fd;
                       a1 = setPeerCreds ccreds a
                   in if \<not> DISABLE_VERIFICATION cfg \<and> \<not> creds_have_p cfg ccreds
                      then let (_, c2) = sendMsg INVOKER_MSG_BAD_CREDS c1
                           in (False, a1, close_conn c2)
                      else (True, a1, c1)
              else (True, a, c1)
      else (True, a, c))"

end
