(* ===== verification/Booster.thy ===== *)
theory Booster
  imports Socket_Manager Connection
begin

text \<open>
  \<open>src/launcherlib/booster.cpp\<close> and \<open>MBooster\<close>'s overriding member: a booster process
  from its first call to the jump into the application. The record holds the fields of the
  class; the subclass is a \<open>booster_class\<close>, an argument of the operations that call a
  virtual function.
\<close>

record booster =
  b_appData :: appdata
  b_connection :: "connection option"
  m_oldPriority :: int
  m_oldPriorityOk :: bool
  m_pipeFd :: "int \<times> int"
  m_spaceAvailable :: int
  b_bootMode :: bool
  m_boosted_gid :: u32
  m_extraCreds :: "(nat \<times> nat) list"

text \<open>Getters, and setters of the fields a subclass does not see.\<close>

abbreviation Booster_bootMode :: "booster \<Rightarrow> bool" where "Booster_bootMode b \<equiv> b_bootMode b"
abbreviation Booster_connection :: "booster \<Rightarrow> connection option" where "Booster_connection b \<equiv> b_connection b"
abbreviation Booster_appData :: "booster \<Rightarrow> appdata" where "Booster_appData b \<equiv> b_appData b"

abbreviation Booster_setPipeFd :: "int \<times> int \<Rightarrow> booster \<Rightarrow> booster" where
  "Booster_setPipeFd newPipeFd b \<equiv> b\<lparr>m_pipeFd := newPipeFd\<rparr>"

abbreviation Booster_pipeFd :: "bool \<Rightarrow> booster \<Rightarrow> int" where
  "Booster_pipeFd whichEnd b \<equiv> (if whichEnd then snd (m_pipeFd b) else fst (m_pipeFd b))"

abbreviation Booster_setConnection :: "connection option \<Rightarrow> booster \<Rightarrow> booster" where
  "Booster_setConnection newConnection b \<equiv> b\<lparr>b_connection := newConnection\<rparr>"

text \<open>
  What lies outside the repository: the credentials library, the dynamic linker, the
  groups of the system, the caches the plugins fill, the application itself, the policy
  of the file system. \<open>dl_sym\<close> is \<open>None\<close> when \<open>dlerror\<close> reports an error.
\<close>

record platform =
  pl_creds :: creds_config
  creds_str2creds :: "string \<Rightarrow> (nat \<times> nat) option"
  creds_sub :: "creds \<Rightarrow> nat \<times> nat \<Rightarrow> creds"
  creds_confine2 :: "string \<Rightarrow> creds option \<Rightarrow> int"
  dl_open :: "string \<Rightarrow> int \<Rightarrow> nat option"
  dl_sym :: "nat \<Rightarrow> string \<Rightarrow> nat option option"
  getgrnam :: "string \<Rightarrow> u32 option"
  populate :: "booster_class \<Rightarrow> proc \<Rightarrow> proc"
  app_main :: "nat \<Rightarrow> int \<Rightarrow> cptr list option \<Rightarrow> proc \<Rightarrow> int \<times> proc"
  is_dir :: "string \<Rightarrow> bool"
  oom_file :: bool

definition FALLBACK_GID :: u32 where "FALLBACK_GID = 126"

definition getGroupId :: "platform \<Rightarrow> string \<Rightarrow> u32 \<Rightarrow> u32" where
  "getGroupId pl name fallback = (case getgrnam pl name of Some g \<Rightarrow> g | None \<Rightarrow> fallback)"

definition g_strCreds :: "string list" where
  "g_strCreds = [''applauncherd-launcher::access'', ''SRC::com.nokia.maemo'',
     ''AID::com.nokia.maemo.applauncherd-invoker.client'',
     ''applauncherd-invoker::applauncherd-invoker'']"

fun convertStringsToCreds :: "platform \<Rightarrow> string list \<Rightarrow> booster \<Rightarrow> booster" where
  "convertStringsToCreds pl [] b = b"
| "convertStringsToCreds pl (s # ss) b = convertStringsToCreds pl ss
     (case creds_str2creds pl s of
        None \<Rightarrow> b
      | Some pair \<Rightarrow> b\<lparr>m_extraCreds := m_extraCreds b @ [pair]\<rparr>)"

text \<open>\<open>old\<close> is the memory before construction: \<open>m_pipeFd\<close> is not initialised.\<close>

definition Booster_new :: "platform \<Rightarrow> booster \<Rightarrow> booster" where
  "Booster_new pl old =
     (let b = old\<lparr>b_appData := AppData_init, b_connection := None, m_oldPriority := 0,
                m_oldPriorityOk := False, m_spaceAvailable := 0, b_bootMode := False,
                m_extraCreds := []\<rparr>;
          b1 = (if HAVE_CREDS (pl_creds pl) then convertStringsToCreds pl g_strCreds b else b)
      in b1\<lparr>m_boosted_gid := getGroupId pl ''boosted'' FALLBACK_GID\<rparr>)"

text \<open>
  The destructor: the connection, which has none of its own, is freed and its descriptor left as
  it is; the application data release what they still hold.
\<close>

definition Booster_delete :: "platform \<Rightarrow> booster \<Rightarrow> unit outcome" where
  "Booster_delete pl b =
     and_then (AppData_delete (HAVE_CREDS (pl_creds pl)) (b_appData b)) (\<lambda>_. Returns ())"

definition filterOutCreds :: "platform \<Rightarrow> booster \<Rightarrow> creds option \<Rightarrow> creds option" where
  "filterOutCreds pl b cr = map_option (\<lambda>c. fold (\<lambda>e k. creds_sub pl k e) (m_extraCreds b) c) cr"

subsection \<open>Priority\<close>

definition pushPriority :: "int \<Rightarrow> booster \<Rightarrow> proc \<Rightarrow> bool \<times> booster \<times> proc" where
  "pushPriority nice b p =
     (let b1 = b\<lparr>m_oldPriorityOk := True,
                m_oldPriority := (if p_getpriority_fails p then -1 else p_nice p)\<rparr>
      in if p_getpriority_fails p then (False, b1\<lparr>m_oldPriorityOk := False\<rparr>, p)
         else (let (r, p1) = sys_setpriority nice p in (r \<noteq> -1, b1, p1)))"

definition popPriority :: "booster \<Rightarrow> proc \<Rightarrow> bool \<times> proc" where
  "popPriority b p = (if m_oldPriorityOk b
     then (let (r, p1) = sys_setpriority (m_oldPriority b) p in (r \<noteq> -1, p1))
     else (False, p))"

subsection \<open>The process name\<close>

text \<open>
  \<open>parentArgv\<close> points into the argument memory \<open>p_args\<close>, given as offsets. The string
  built from the source vector is undefined where a cell is not a string.
\<close>

fun new_argv :: "nat \<Rightarrow> cptr list \<Rightarrow> byte list outcome" where
  "new_argv 0 ps = Returns []"
| "new_argv (Suc n) [] = Undefined OutOfBounds"
| "new_argv (Suc n) (NullPtr # ps) = Undefined NullDereference"
| "new_argv (Suc n) (Indeterminate # ps) = Undefined IndeterminateValue"
| "new_argv (Suc n) (Str s # ps) = and_then (new_argv n ps) (\<lambda>r. Returns (s @ NUL # r))"

definition arg_space :: "byte list \<Rightarrow> nat list \<Rightarrow> int" where
  "arg_space mem offs = int (\<Sum>x \<leftarrow> offs. length (c_str (drop x mem)) + 1)"

definition write_args :: "nat \<Rightarrow> byte list \<Rightarrow> byte list \<Rightarrow> byte list outcome" where
  "write_args space newArgv mem =
     (let spaceNeeded = min space (length newArgv);
          data = (take spaceNeeded newArgv)[spaceNeeded - 1 := NUL]
      in if length mem < space then Undefined OutOfBounds
         else Returns (data @ replicate (space - spaceNeeded) NUL @ drop space mem))"

definition renameProcess :: "int \<Rightarrow> nat list \<Rightarrow> int \<Rightarrow> cptr list option \<Rightarrow> booster \<Rightarrow> proc
    \<Rightarrow> (booster \<times> proc) outcome" where
  "renameProcess parentArgc parentArgv sourceArgc sourceArgv b p =
     (if sourceArgc > 0 \<and> parentArgc > 0 then
        let b1 = (if m_spaceAvailable b = 0
                  then b\<lparr>m_spaceAvailable := arg_space (p_args p) (take (nat parentArgc) parentArgv)\<rparr>
                  else b)
        in case sourceArgv of
             None \<Rightarrow> Undefined NullDereference
           | Some ps \<Rightarrow>
               and_then (new_argv (nat sourceArgc) ps) (\<lambda>newArgv.
               and_then (write_args (nat (m_spaceAvailable b1)) newArgv (p_args p)) (\<lambda>mem.
               case ps of
                 Str name # _ \<Rightarrow>
                   let p1 = sys_set_name (base_name name) (p\<lparr>p_args := mem\<rparr>)
                   in Returns (b1, p1\<lparr>p_environ := sys_setenv ''_'' name (p_environ p1)\<rparr>)
               | _ \<Rightarrow> Undefined NullDereference))
      else Returns (b, p))"

subsection \<open>Telling the daemon\<close>

text \<open>\<open>cr\<close> is what the kernel answers about the peer.\<close>

definition invokersPid :: "int option \<Rightarrow> booster \<Rightarrow> int outcome" where
  "invokersPid cr b = (case b_connection b of
       None \<Rightarrow> Undefined NullDereference
     | Some c \<Rightarrow> Returns (if isReportAppExitStatusNeeded c then peerPid cr else 0))"

definition sendDataToParent :: "booster_class \<Rightarrow> int option \<Rightarrow> booster \<Rightarrow> proc \<Rightarrow> proc outcome" where
  "sendDataToParent k cr b p =
     (let (_, p1) = sys_write_pipe [boosterType k] p
      in and_then (invokersPid cr b) (\<lambda>pid.
         let (_, p2) = sys_write_pipe (le32 (word_of_int pid)) p1;
             (_, p3) = sys_write_pipe (le32 (word_of_int (AppData_delay (b_appData b)))) p2
         in Returns p3))"

subsection \<open>Receiving the request\<close>

text \<open>
  What happens on the listening socket: the descriptor \<open>accept\<close> returns and its socket, the
  descriptors the kernel installs during the conversation, the peer, the uninitialised
  memory of the connection object, and, while \<open>MBooster\<close> runs its event loop, whether an
  event other than the invoker's ends the process.
\<close>

datatype loop_event = InvokerConnected | ThemeChanged | HangUp

record incoming =
  in_fd :: int
  in_sock :: sock
  in_installed :: "(int \<times> nat) list"
  in_peer :: "int option"
  in_memory :: connection
  in_event :: loop_event

definition connection_memory :: "incoming \<Rightarrow> proc \<Rightarrow> connection" where
  "connection_memory inc p = (in_memory inc)\<lparr>c_environ := p_environ p, c_pid := p_pid p\<rparr>"

definition install_fds :: "(int \<times> nat) list \<Rightarrow> proc \<Rightarrow> proc" where
  "install_fds l p = p\<lparr>p_fds := fold (\<lambda>(fd, f). smap_set fd f) l (p_fds p)\<rparr>"

text \<open>Closing the connection closes its descriptor in the process.\<close>

definition close_connection :: "connection \<Rightarrow> proc \<Rightarrow> connection \<times> proc" where
  "close_connection c p =
     (close_conn c, if c_fd c \<noteq> -1 then close_fd (c_fd c) p else p)"

text \<open>The part both implementations share, after \<open>accept\<close> succeeded.\<close>

definition receive_accepted :: "incoming \<Rightarrow> appdata \<Rightarrow> connection \<Rightarrow> booster \<Rightarrow> proc
    \<Rightarrow> bool \<times> booster \<times> proc" where
  "receive_accepted inc a c b p =
     (let (ok, a1, c1) = receiveApplicationData a c;
          p1 = (install_fds (in_installed inc) p)\<lparr>p_environ := c_environ c1\<rparr>;
          b1 = b\<lparr>b_appData := a1\<rparr>
      in if \<not> ok
         then (let (c2, p2) = close_connection c1 p1 in (False, b1\<lparr>b_connection := Some c2\<rparr>, p2))
         else if \<not> isReportAppExitStatusNeeded c1
         then (let (c2, p2) = close_connection c1 p1 in (True, b1\<lparr>b_connection := Some c2\<rparr>, p2))
         else (True, b1\<lparr>b_connection := Some c1\<rparr>, p1))"

definition receiveDataFromInvoker :: "platform \<Rightarrow> int \<Rightarrow> incoming \<Rightarrow> booster \<Rightarrow> proc
    \<Rightarrow> (bool \<times> booster \<times> proc) outcome" where
  "receiveDataFromInvoker pl socketFd inc b p =
     and_then (Connection_new socketFd False (connection_memory inc p)) (\<lambda>c.
       let (ok, a, c1) = accept (pl_creds pl) (in_fd inc) (in_sock inc) (b_appData b) c
       in if ok then Returns (receive_accepted inc a c1 (b\<lparr>b_connection := Some c1\<rparr>) p)
          else Returns (False, b\<lparr>b_connection := Some c1, b_appData := a\<rparr>, p))"

text \<open>
  \<open>MBooster::receiveDataFromInvoker\<close> runs a Qt event loop while another thread accepts.
  A theme change or \<open>SIGHUP\<close> ends the process; the result of \<open>accept\<close> only ends the loop,
  and whether it succeeded is read off the connection.
\<close>

definition MBooster_receiveDataFromInvoker :: "platform \<Rightarrow> int \<Rightarrow> incoming \<Rightarrow> booster \<Rightarrow> proc
    \<Rightarrow> (bool \<times> booster \<times> proc) outcome" where
  "MBooster_receiveDataFromInvoker pl socketFd inc b p =
     (if Booster_bootMode b then receiveDataFromInvoker pl socketFd inc b p
      else and_then (Connection_new socketFd False (connection_memory inc p)) (\<lambda>c.
        if in_event inc \<noteq> InvokerConnected then Exits EXIT_SUCCESS
        else let (_, a, c1) = accept (pl_creds pl) (in_fd inc) (in_sock inc) (Booster_appData b) c
             in if \<not> connected c1
                then Returns (False, (Booster_setConnection (Some c1) b)\<lparr>b_appData := a\<rparr>, p)
                else Returns (receive_accepted inc a c1 (Booster_setConnection (Some c1) b) p)))"

text \<open>The virtual calls.\<close>

definition virtual_receive :: "booster_class \<Rightarrow> platform \<Rightarrow> int \<Rightarrow> incoming \<Rightarrow> booster \<Rightarrow> proc
    \<Rightarrow> (bool \<times> booster \<times> proc) outcome" where
  "virtual_receive k = (case k of MBooster \<Rightarrow> MBooster_receiveDataFromInvoker
     | _ \<Rightarrow> receiveDataFromInvoker)"

definition MBooster_preload :: "platform \<Rightarrow> proc \<Rightarrow> bool \<times> proc" where
  "MBooster_preload pl p = (True, populate pl MBooster p)"

definition QtBooster_preload :: "platform \<Rightarrow> proc \<Rightarrow> bool \<times> proc" where
  "QtBooster_preload pl p = (True, p)"

definition QDeclarativeBooster_preload :: "platform \<Rightarrow> proc \<Rightarrow> bool \<times> proc" where
  "QDeclarativeBooster_preload pl p = (True, populate pl QDeclarativeBooster p)"

lemmas preload_members [simp] = MBooster_preload_def QtBooster_preload_def QDeclarativeBooster_preload_def

definition preload :: "platform \<Rightarrow> booster_class \<Rightarrow> proc \<Rightarrow> bool \<times> proc" where
  "preload pl k p = (case k of
       MBooster \<Rightarrow> MBooster_preload pl p
     | QtBooster \<Rightarrow> QtBooster_preload pl p
     | QDeclarativeBooster \<Rightarrow> QDeclarativeBooster_preload pl p)"

subsection \<open>Initialisation\<close>

text \<open>
  \<open>si\<close> is the single-instance plugin, if it was loaded, and \<open>w\<close> the state its functions
  work on. \<open>claim_instance\<close> is the part of \<open>initialize\<close> that runs the process as a single
  instance if requested.
\<close>

definition claim_instance :: "'w si_entry option \<Rightarrow> appdata \<Rightarrow> 'w
    \<Rightarrow> ('w si_entry option \<times> 'w) outcome" where
  "claim_instance si a w =
     (if singleInstance a then
        (case si of
           Some e \<Rightarrow>
             let (locked, w1) = lockFunc e (AppData_appName a) w
             in if \<not> locked
                then let (activated, w2) = activateExistingInstanceFunc e (AppData_appName a) w1
                     in if \<not> activated then Exits EXIT_FAILURE else Exits EXIT_SUCCESS
                else Returns (closePlugin si, w1)
         | None \<Rightarrow> Returns (si, w))
      else Returns (si, w))"

text \<open>
  The results are the booster, the plugin holder, that state and the process result.
\<close>

definition initialize :: "platform \<Rightarrow> booster_class \<Rightarrow> int \<Rightarrow> nat list \<Rightarrow> int \<times> int \<Rightarrow> int
    \<Rightarrow> 'w si_entry option \<Rightarrow> bool \<Rightarrow> incoming \<Rightarrow> 'w \<Rightarrow> booster \<Rightarrow> proc
    \<Rightarrow> (booster \<times> 'w si_entry option \<times> 'w \<times> proc) outcome" where
  "initialize pl k initialArgc initialArgv newPipeFd socketFd si newBootMode inc w b p =
     (let b0 = Booster_setPipeFd newPipeFd (b\<lparr>b_bootMode := newBootMode\<rparr>);
          (_, b1, p1) = pushPriority 10 b0 p;
          p2 = (if b_bootMode b1 then p1 else snd (preload pl k p1))
      in and_then (renameProcess initialArgc initialArgv 1
                     (Some [Str (boosterTemporaryProcessName k)]) b1 p2) (\<lambda>(b3, p3).
         let (_, p4) = popPriority b3 p3
         in and_then (virtual_receive k pl socketFd inc b3 p4) (\<lambda>(ok, b5, p5).
            if \<not> ok then Exits EXIT_FAILURE
            else and_then (claim_instance si (b_appData b5) w) (\<lambda>(si1, w1).
            and_then (renameProcess initialArgc initialArgv (AppData_argc (b_appData b5))
                        (AppData_argv (b_appData b5)) b5 p5) (\<lambda>(b6, p6).
            and_then (sendDataToParent k (in_peer inc) b6 p6) (\<lambda>p7.
            Returns (b6, si1, w1,
              (close_fd (Booster_pipeFd True b6) p7)\<lparr>p_pdeathsig := 0, p_dumpable := True\<rparr>)))))))"

subsection \<open>Launching\<close>

definition resetOomAdj :: "platform \<Rightarrow> proc \<Rightarrow> proc" where
  "resetOomAdj pl p = (if oom_file pl
     then let (fd, p1) = sys_install 0 p in close_fd fd (p1\<lparr>p_oom := ''0''\<rparr>)
     else p)"

definition RTLD_LAZY :: int where "RTLD_LAZY = 1"
definition RTLD_NOW :: int where "RTLD_NOW = 2"
definition RTLD_DEEPBIND :: int where "RTLD_DEEPBIND = 8"
definition RTLD_GLOBAL :: int where "RTLD_GLOBAL = 256"
definition RTLD_LOCAL :: int where "RTLD_LOCAL = 0"

text \<open>The flags are disjoint bits, so \<open>|\<close> on them is addition.\<close>

definition dlopenFlags :: "appdata \<Rightarrow> int" where
  "dlopenFlags a = RTLD_LAZY + (if dlopenGlobal a then RTLD_GLOBAL else RTLD_LOCAL)
     + (if dlopenDeep a then RTLD_DEEPBIND else 0)"

definition loadMain :: "platform \<Rightarrow> booster \<Rightarrow> (nat \<times> booster) outcome" where
  "loadMain pl b = (case dl_open pl (AppData_fileName (b_appData b)) (dlopenFlags (b_appData b)) of
       None \<Rightarrow> Exits EXIT_FAILURE
     | Some module \<Rightarrow> (case dl_sym pl module ''main'' of
         None \<Rightarrow> Exits EXIT_FAILURE
       | Some entry \<Rightarrow> Returns (module, b\<lparr>b_appData := setEntry entry (b_appData b)\<rparr>)))"

text \<open>The loop over the received descriptors, from index \<open>i\<close>.\<close>

fun dup_descriptors :: "int \<Rightarrow> int list \<Rightarrow> proc \<Rightarrow> proc" where
  "dup_descriptors i [] p = p"
| "dup_descriptors i (d # ds) p = dup_descriptors (i + 1) ds
     (if d > 0 then close_fd d (snd (sys_dup2 d i p)) else p)"

text \<open>The workaround cuts \<open>argv[0]\<close> at the first \<open>.launch\<close>.\<close>

definition skype_workaround :: "cptr list option \<Rightarrow> cptr list option outcome" where
  "skype_workaround argv = (case argv of
       None \<Rightarrow> Undefined NullDereference
     | Some [] \<Rightarrow> Undefined OutOfBounds
     | Some (NullPtr # _) \<Rightarrow> Undefined NullDereference
     | Some (Indeterminate # _) \<Rightarrow> Undefined IndeterminateValue
     | Some (Str s # ps) \<Rightarrow> Returns (Some (Str
         (if strstr s ''skypeplugin.launch'' = None then s
          else case strstr s ''.launch'' of Some n \<Rightarrow> take n s | None \<Rightarrow> s) # ps)))"

text \<open>The identity of the process is set before the application is loaded.\<close>

definition switch_identity :: "booster \<Rightarrow> proc \<Rightarrow> proc" where
  "switch_identity b p =
     (let a = b_appData b;
          p1 = (if p_ruid p \<noteq> AppData_userId a then snd (sys_setuid (AppData_userId a) p) else p);
          p2 = (if p_rgid p1 \<noteq> AppData_groupId a then snd (sys_setgid (AppData_groupId a) p1) else p1);
          orig = p_egid p2;
          p3 = snd (sys_setegid (m_boosted_gid b) p2)
      in snd (sys_setegid orig p3))"

definition launchProcess :: "platform \<Rightarrow> booster \<Rightarrow> proc \<Rightarrow> (int \<times> booster \<times> proc) outcome" where
  "launchProcess pl b p =
     (let p1 = (if \<not> p_getpriority_fails p \<and> p_nice p < AppData_priority (b_appData b)
                then snd (sys_setpriority (AppData_priority (b_appData b)) p) else p);
          p2 = resetOomAdj pl (switch_identity b p1);
          peer = filterOutCreds pl b (AppData_peerCreds (b_appData b));
          err = creds_confine2 pl (AppData_fileName (b_appData b)) peer;
          b1 = (if HAVE_CREDS (pl_creds pl)
                then b\<lparr>b_appData := deletePeerCreds (b_appData b)\<rparr> else b)
      in if HAVE_CREDS (pl_creds pl) \<and> err < 0 then Exits EXIT_FAILURE
         else and_then (loadMain pl b1) (\<lambda>(handle, b2).
           let p3 = dup_descriptors 0 (AppData_ioDescriptors (b_appData b2)) p2;
               p4 = (case sys_getenv ''PWD'' (p_environ p3) of
                       Some pwd \<Rightarrow> if is_dir pl pwd then p3\<lparr>p_cwd := pwd\<rparr> else p3
                     | None \<Rightarrow> p3)
           in and_then (skype_workaround (AppData_argv (b_appData b2))) (\<lambda>argv.
              case AppData_entry (b_appData b2) of
                None \<Rightarrow> Undefined NullDereference
              | Some e \<Rightarrow>
                  let (retVal, p5) = app_main pl e (AppData_argc (b_appData b2)) argv p4;
                      a = setArgv argv (b_appData b2)
                  in and_then (deleteArgv a) (\<lambda>a1.
                       Returns (retVal, b2\<lparr>b_appData := a1\<rparr>, p5)))))"

text \<open>\<open>run\<close>: \<open>sm\<close> is the socket manager, if there is one.\<close>

definition run :: "platform \<Rightarrow> socket_hash option \<Rightarrow> booster \<Rightarrow> proc
    \<Rightarrow> (socket_hash option \<times> booster \<times> proc) outcome" where
  "run pl sm b p = (case b_connection b of
       None \<Rightarrow> Undefined NullDereference
     | Some c \<Rightarrow>
         if AppData_fileName (b_appData b) \<noteq> [] then
           let (sm1, p1) = (if \<not> isReportAppExitStatusNeeded c
                 then (case sm of Some m \<Rightarrow> (let (m1, q) = closeAllSockets m p in (Some m1, q))
                       | None \<Rightarrow> (None, p))
                 else (sm, p))
           in and_then (launchProcess pl b p1) (\<lambda>(ret_val, b2, p2).
              if isReportAppExitStatusNeeded c then
                let (_, c1) = sendAppExitStatus ret_val c;
                    (c2, p3) = close_connection c1 p2;
                    (sm2, p4) = (case sm1 of
                         Some m \<Rightarrow> (let (m1, q) = closeAllSockets m p3 in (Some m1, q))
                       | None \<Rightarrow> (None, p3))
                in Returns (sm2, b2\<lparr>b_connection := Some c2\<rparr>, p4)
              else Returns (sm1, b2, p2))
         else Returns (sm, b, p))"

end
