(* ===== verification/Daemon.thy ===== *)
theory Daemon
  imports Booster
begin

text \<open>
  \<open>src/launcherlib/daemon.cpp\<close> and \<open>main.cpp\<close>: the launcher daemon. The record holds the
  fields of the class; below them the process it runs in and what its system calls will
  meet: the pids that the next forks return, the children the kernel knows, those that have
  ended and wait to be reaped, the signals sent, the pipe from the boosters.
\<close>

datatype wait_status = Exited int | Signaled int

record daemon =
  m_daemon :: bool
  m_quiet :: bool
  m_bootMode :: bool
  m_debugMode :: bool
  m_children :: "int list"
  m_boosterPidToInvokerPid :: "(int, int) smap"
  m_boosterTypeToPid :: "(char, int) smap"
  m_boosterPipeFd :: "int \<times> int"
  m_sigChldPipeFd :: "int \<times> int"
  m_sigTermPipeFd :: "int \<times> int"
  m_sigUsr1PipeFd :: "int \<times> int"
  m_initialArgc :: int
  m_initialArgv :: "nat list"
  m_lockFd :: int
  d_registry :: registry
  d_sockets :: socket_hash
  d_files :: socket_files
  d_proc :: proc
  d_forks :: "int list"
  d_kernel :: "int list"
  d_ended :: "(int, wait_status) smap"
  d_kills :: "(int \<times> int) list"
  d_pipe :: sock
  d_junk :: byte

definition m_boosterSleepTime :: int where "m_boosterSleepTime = 2"

definition SIGHUP :: int where "SIGHUP = 1"
definition SIGUSR1 :: int where "SIGUSR1 = 10"
definition SIGTERM :: int where "SIGTERM = 15"
definition SIGCHLD :: int where "SIGCHLD = 17"

subsection \<open>System calls\<close>

text \<open>\<open>fork\<close> as the parent sees it: no more pids means that it fails.\<close>

definition sys_fork :: "daemon \<Rightarrow> int \<times> daemon" where
  "sys_fork d = (case d_forks d of
       [] \<Rightarrow> (-1, d)
     | pid # pids \<Rightarrow> (pid, d\<lparr>d_forks := pids, d_kernel := d_kernel d @ [pid]\<rparr>))"

text \<open>
  \<open>waitpid\<close> with \<open>WNOHANG\<close>: the pid and status of an ended child, which the kernel then
  forgets; 0 for a running one; -1 for a pid that is no child.
\<close>

definition sys_waitpid :: "int \<Rightarrow> daemon \<Rightarrow> int \<times> wait_status \<times> daemon" where
  "sys_waitpid pid d =
     (if pid \<in> set (d_kernel d) then
        (case smap_find (d_ended d) pid of
           None \<Rightarrow> (0, Exited 0, d)
         | Some st \<Rightarrow> (pid, st, d\<lparr>d_ended := smap_erase pid (d_ended d),
                              d_kernel := remove1 pid (d_kernel d)\<rparr>))
      else (-1, Exited 0, d))"

definition sys_kill :: "int \<Rightarrow> int \<Rightarrow> daemon \<Rightarrow> daemon" where
  "sys_kill pid sig d = d\<lparr>d_kills := d_kills d @ [(pid, sig)]\<rparr>"

definition pipe_read :: "nat \<Rightarrow> daemon \<Rightarrow> int \<times> byte list \<times> daemon" where
  "pipe_read n d = (case sys_read n (d_pipe d) of (count, bs, s) \<Rightarrow> (count, bs, d\<lparr>d_pipe := s\<rparr>))"

subsection \<open>Booster pids\<close>

definition setPidToBooster :: "char \<Rightarrow> int \<Rightarrow> daemon \<Rightarrow> daemon" where
  "setPidToBooster type pid d = d\<lparr>m_boosterTypeToPid := smap_set type pid (m_boosterTypeToPid d)\<rparr>"

fun type_for_pid :: "int \<Rightarrow> (char, int) smap \<Rightarrow> char" where
  "type_for_pid pid [] = NUL"
| "type_for_pid pid ((t, q) # m) = (if q = pid then t else type_for_pid pid m)"

definition boosterTypeForPid :: "int \<Rightarrow> daemon \<Rightarrow> char" where
  "boosterTypeForPid pid d = type_for_pid pid (m_boosterTypeToPid d)"

definition boosterPidForType :: "char \<Rightarrow> daemon \<Rightarrow> int" where
  "boosterPidForType type d =
     (case smap_find (m_boosterTypeToPid d) type of None \<Rightarrow> 0 | Some pid \<Rightarrow> pid)"

subsection \<open>Forking a booster\<close>

text \<open>\<open>forkBooster\<close> in the daemon; the child goes on with \<open>booster_child\<close> below.\<close>

abbreviation store_booster :: "char \<Rightarrow> int \<Rightarrow> daemon \<Rightarrow> daemon" where
  "store_booster type newPid d \<equiv> setPidToBooster type newPid (d\<lparr>m_children := m_children d @ [newPid]\<rparr>)"

definition forkBooster :: "char \<Rightarrow> int \<Rightarrow> daemon \<Rightarrow> daemon outcome" where
  "forkBooster type sleepTime d =
     (let d1 = setPidToBooster type 0 d;
          (newPid, d2) = sys_fork d1
      in if newPid = -1 then Exits EXIT_FAILURE
         else Returns (store_booster type newPid d2))"

text \<open>
  The child, on its copy of the daemon's state: what it does before the booster is created,
  and the life of the booster. The booster process always ends with \<open>EXIT_SUCCESS\<close> after
  the application's \<open>main\<close> has returned.
\<close>

definition unlock :: "daemon \<Rightarrow> daemon" where
  "unlock d = (if m_lockFd d \<noteq> -1
     then d\<lparr>d_proc := close_fd (m_lockFd d) (d_proc d), m_lockFd := -1\<rparr> else d)"

definition child_setup :: "char \<Rightarrow> int \<Rightarrow> int \<Rightarrow> daemon \<Rightarrow> daemon" where
  "child_setup type sleepTime pid d =
     (let p1 = (d_proc d)\<lparr>p_pid := pid, p_dfl := [SIGCHLD, SIGTERM, SIGUSR1],
                         p_pdeathsig := SIGHUP\<rparr>;
          p2 = close_fd (fst (m_boosterPipeFd d)) p1;
          p3 = close_fd (snd (m_sigChldPipeFd d)) (close_fd (fst (m_sigChldPipeFd d)) p2);
          p4 = close_fd (snd (m_sigTermPipeFd d)) (close_fd (fst (m_sigTermPipeFd d)) p3);
          p5 = close_fd (snd (m_sigUsr1PipeFd d)) (close_fd (fst (m_sigUsr1PipeFd d)) p4);
          (socks, p6) = closeUnusedSockets type (d_registry d) (d_sockets d) p5;
          d1 = unlock (d\<lparr>d_sockets := socks, d_proc := p6\<rparr>);
          p7 = (d_proc d1)\<lparr>p_sid := pid\<rparr>;
          p8 = (if \<not> m_bootMode d \<and> sleepTime \<noteq> 0
                then p7\<lparr>p_slept := p_slept p7 @ [sleepTime]\<rparr> else p7)
      in d1\<lparr>d_proc := p8\<rparr>)"

definition booster_child :: "platform \<Rightarrow> char \<Rightarrow> int \<Rightarrow> int \<Rightarrow> 'w si_entry option \<Rightarrow> incoming \<Rightarrow> 'w
    \<Rightarrow> booster \<Rightarrow> daemon \<Rightarrow> (socket_hash option \<times> booster \<times> proc) outcome" where
  "booster_child pl type sleepTime pid si inc w old d =
     (let d1 = child_setup type sleepTime pid d
      in case BoosterFactory_create type (d_registry d1) of
           None \<Rightarrow> Exits EXIT_FAILURE
         | Some k \<Rightarrow>
             and_then (initialize pl k (m_initialArgc d1) (m_initialArgv d1) (m_boosterPipeFd d1)
                         (findSocket (socketId k) (d_sockets d1)) si (m_bootMode d1) inc w
                         (Booster_new pl old) (d_proc d1)) (\<lambda>(b, _, _, p).
             run pl (Some (d_sockets d1)) b p))"

definition booster_process :: "platform \<Rightarrow> char \<Rightarrow> int \<Rightarrow> int \<Rightarrow> 'w si_entry option \<Rightarrow> incoming \<Rightarrow> 'w
    \<Rightarrow> booster \<Rightarrow> daemon \<Rightarrow> unit outcome" where
  "booster_process pl type sleepTime pid si inc w old d =
     and_then (booster_child pl type sleepTime pid si inc w old d) (\<lambda>(_, b, _).
     and_then (Booster_delete pl b) (\<lambda>_. Exits EXIT_SUCCESS))"

fun forkBoosters_from :: "registry \<Rightarrow> daemon \<Rightarrow> daemon outcome" where
  "forkBoosters_from [] d = Returns d"
| "forkBoosters_from (e # es) d = and_then (forkBooster (pe_type e) 0 d) (forkBoosters_from es)"

definition forkBoosters :: "daemon \<Rightarrow> daemon outcome" where
  "forkBoosters d = forkBoosters_from (d_registry d) d"

subsection \<open>Messages from the boosters\<close>

text \<open>
  \<open>read\<close>'s result is only tested for being nonzero: after a failed read \<open>msg\<close> is the
  indeterminate value it was.
\<close>

definition readFromBoosterPipe :: "daemon \<Rightarrow> daemon outcome" where
  "readFromBoosterPipe d =
     (let (count, bs, d1) = pipe_read 1 d;
          msg = (case bs of b # _ \<Rightarrow> b | [] \<Rightarrow> d_junk d)
      in if count \<noteq> 0 then
           let (count2, bs2, d2) = pipe_read 4 d1
           in if count2 < 4 then Exits EXIT_FAILURE
              else
                let invokerPid = sint (from_le32 bs2);
                    boosterPid = boosterPidForType msg d2;
                    d3 = (if invokerPid \<noteq> 0 \<and> boosterPid \<noteq> 0
                          then d2\<lparr>m_boosterPidToInvokerPid :=
                                 smap_set boosterPid invokerPid (m_boosterPidToInvokerPid d2)\<rparr>
                          else d2);
                    (count3, bs3, d4) = pipe_read 4 d3
                in if count3 < 4 then Exits EXIT_FAILURE
                   else forkBooster msg (sint (from_le32 bs3)) d4
         else Returns d1)"

subsection \<open>Reaping\<close>

text \<open>What \<open>reapZombies\<close> does about one pid that \<open>waitpid\<close> returned.\<close>

definition forward_signal :: "int \<Rightarrow> wait_status \<Rightarrow> daemon \<Rightarrow> daemon" where
  "forward_signal pid status d =
     (case smap_find (m_boosterPidToInvokerPid d) pid of
        None \<Rightarrow> d
      | Some invokerPid \<Rightarrow>
          let d1 = (case status of Signaled signal \<Rightarrow> sys_kill invokerPid signal d | Exited _ \<Rightarrow> d)
          in d1\<lparr>m_boosterPidToInvokerPid := smap_erase pid (m_boosterPidToInvokerPid d1)\<rparr>)"

definition restart_booster :: "int \<Rightarrow> daemon \<Rightarrow> daemon outcome" where
  "restart_booster pid d = (let type = boosterTypeForPid pid d
     in if type \<noteq> NUL then forkBooster type m_boosterSleepTime d else Returns d)"

definition erase_at :: "nat \<Rightarrow> 'a list \<Rightarrow> 'a list" where
  "erase_at i xs = take i xs @ drop (Suc i) xs"

lemma forkBooster_Returns:
  "forkBooster t s d = Returns d' \<longleftrightarrow> (\<exists>pid pids. d_forks d = pid # pids \<and> pid \<noteq> -1 \<and>
     d' = d\<lparr>m_boosterTypeToPid := smap_set t pid (smap_set t 0 (m_boosterTypeToPid d)),
            d_forks := pids, d_kernel := d_kernel d @ [pid], m_children := m_children d @ [pid]\<rparr>)"
  by (auto simp: forkBooster_def sys_fork_def setPidToBooster_def Let_def split: list.splits)

lemma restart_booster_measure:
  assumes "restart_booster pid d = Returns d'"
  shows "length (m_children d') + length (d_forks d') = length (m_children d) + length (d_forks d)"
    "length (m_children d) \<le> length (m_children d')" "length (m_children d') \<le> Suc (length (m_children d))"
  using assms by (auto simp: restart_booster_def forkBooster_Returns Let_def split: if_splits)

lemma forward_signal_children [simp]:
  "m_children (forward_signal pid st d) = m_children d"
  "d_forks (forward_signal pid st d) = d_forks d"
  by (auto simp: forward_signal_def sys_kill_def Let_def split: option.splits wait_status.splits)

lemma sys_waitpid_children:
  "sys_waitpid pid d = (r, st, d') \<Longrightarrow> m_children d' = m_children d \<and> d_forks d' = d_forks d"
  by (auto simp: sys_waitpid_def split: option.splits if_splits)

text \<open>
  The loop of \<open>reapZombies\<close> with the iterator as an index. It ends because a pid that
  is erased is replaced by at most one new pid, which uses up a fork.
\<close>

function reap_loop :: "nat \<Rightarrow> daemon \<Rightarrow> daemon outcome" where
  "reap_loop i d =
     (if i < length (m_children d) then
        let (pid, status, d1) = sys_waitpid (m_children d ! i) d
        in if pid \<noteq> 0
           then and_then (restart_booster pid (forward_signal pid status
                   (d1\<lparr>m_children := erase_at i (m_children d1)\<rparr>))) (reap_loop i)
           else reap_loop (Suc i) d1
      else Returns d)"
  by pat_completeness auto
termination
proof (relation "measure (\<lambda>(i, d). length (m_children d) - i + length (d_forks d))")
  show "wf (measure (\<lambda>(i, d). length (m_children d) - i + length (d_forks d)))" by simp
next
  fix i d x pid y status d1 d2
  assume w: "i < length (m_children d)" "x = sys_waitpid (m_children d ! i) d"
    "(pid, y) = x" "(status, d1) = y" "pid \<noteq> 0"
    and r: "restart_booster pid (forward_signal pid status
        (d1\<lparr>m_children := erase_at i (m_children d1)\<rparr>)) = Returns d2"
  have "m_children d1 = m_children d" "d_forks d1 = d_forks d"
    using w sys_waitpid_children [of "m_children d ! i" d pid status d1] by auto
  with restart_booster_measure [OF r] w(1)
  show "((i, d2), (i, d)) \<in> measure (\<lambda>(i, d). length (m_children d) - i + length (d_forks d))"
    by (simp add: erase_at_def)
next
  fix i d x pid y status d1
  assume w: "i < length (m_children d)" "x = sys_waitpid (m_children d ! i) d"
    "(pid, y) = x" "(status, d1) = y" "\<not> pid \<noteq> 0"
  have "m_children d1 = m_children d" "d_forks d1 = d_forks d"
    using w sys_waitpid_children [of "m_children d ! i" d pid status d1] by auto
  with w(1) show "((Suc i, d1), (i, d)) \<in> measure (\<lambda>(i, d). length (m_children d) - i + length (d_forks d))"
    by simp
qed

declare reap_loop.simps [simp del]

definition reapZombies :: "daemon \<Rightarrow> daemon outcome" where
  "reapZombies d = reap_loop 0 d"

subsection \<open>Boot mode\<close>

definition killProcess :: "int \<Rightarrow> int \<Rightarrow> daemon \<Rightarrow> daemon" where
  "killProcess pid signal d = (if pid \<noteq> 0 then sys_kill pid signal d else d)"

definition killBoosters :: "daemon \<Rightarrow> daemon" where
  "killBoosters d = fold (\<lambda>(_, pid). killProcess pid SIGTERM) (m_boosterTypeToPid d) d"

definition enterNormalMode :: "daemon \<Rightarrow> daemon" where
  "enterNormalMode d = (if m_bootMode d then killBoosters (d\<lparr>m_bootMode := False\<rparr>) else d)"

subsection \<open>The main loop\<close>

text \<open>
  What \<open>select\<close> finds readable: the pipe of the boosters and those the three signal
  handlers write to. \<open>None\<close> is a \<open>select\<close> that fails or is interrupted.
\<close>

record ready_fds =
  booster_ready :: bool
  sigChld_ready :: bool
  sigTerm_ready :: bool
  sigUsr1_ready :: bool

definition main_iteration :: "ready_fds option \<Rightarrow> daemon \<Rightarrow> daemon outcome" where
  "main_iteration sel d = (case sel of
       None \<Rightarrow> Returns d
     | Some r \<Rightarrow>
         and_then (if booster_ready r then readFromBoosterPipe d else Returns d) (\<lambda>d1.
         and_then (if sigChld_ready r then reapZombies d1 else Returns d1) (\<lambda>d2.
         if sigTerm_ready r then Exits EXIT_SUCCESS
         else Returns (if sigUsr1_ready r then enterNormalMode d2 else d2))))"

text \<open>The \<open>while (true)\<close> over what the successive calls of \<open>select\<close> find.\<close>

fun main_loop :: "ready_fds option list \<Rightarrow> daemon \<Rightarrow> daemon outcome" where
  "main_loop [] d = Returns d"
| "main_loop (sel # sels) d = and_then (main_iteration sel d) (main_loop sels)"

definition daemon_start :: "string \<Rightarrow> plugin_lib option list option \<Rightarrow> daemon \<Rightarrow> daemon outcome" where
  "daemon_start dir found d =
     (let d1 = d\<lparr>d_proc := (d_proc d)\<lparr>p_environ := sys_unsetenv ''LD_BIND_NOW'' (p_environ (d_proc d))\<rparr>,
                d_registry := loadBoosterPlugins dir found (d_registry d)\<rparr>
      in and_then (initBoosterSockets (d_registry d1) (d_sockets d1) (d_files d1) (d_proc d1))
           (\<lambda>(m, w, p). forkBoosters (d1\<lparr>d_sockets := m, d_files := w, d_proc := p\<rparr>)))"

definition daemon_run :: "string \<Rightarrow> plugin_lib option list option \<Rightarrow> ready_fds option list
    \<Rightarrow> daemon \<Rightarrow> daemon outcome" where
  "daemon_run dir found sels d = and_then (daemon_start dir found d) (main_loop sels)"

subsection \<open>Construction\<close>

text \<open>What \<open>usage\<close> prints is left out.\<close>

abbreviation Daemon_usage :: "int \<Rightarrow> 'a outcome" where "Daemon_usage status \<equiv> Exits status"

fun parseArgs :: "string list \<Rightarrow> daemon \<Rightarrow> daemon outcome" where
  "parseArgs [] d = Returns d"
| "parseArgs (a # as) d =
     (if a = ''--boot-mode'' \<or> a = ''-b'' then parseArgs as (d\<lparr>m_bootMode := True\<rparr>)
      else if a = ''--daemon'' \<or> a = ''-d'' then parseArgs as (d\<lparr>m_daemon := True\<rparr>)
      else if a = ''--debug'' then parseArgs as (d\<lparr>m_debugMode := True\<rparr>)
      else if a = ''--help'' \<or> a = ''-h'' then Daemon_usage EXIT_SUCCESS
      else if a = ''--quiet'' \<or> a = ''-q'' then parseArgs as (d\<lparr>m_quiet := True\<rparr>)
      else parseArgs as d)"

text \<open>\<open>r\<close> and \<open>w\<close> are the open files of \<open>/dev/null\<close> for reading and writing.\<close>

definition consoleQuiet :: "nat option \<Rightarrow> nat option \<Rightarrow> proc \<Rightarrow> proc outcome" where
  "consoleQuiet r w p =
     (let p1 = close_fd 2 (close_fd 1 (close_fd 0 p))
      in case r of None \<Rightarrow> Exits EXIT_FAILURE
         | Some fr \<Rightarrow> let (_, p2) = sys_install fr p1
             in (case w of None \<Rightarrow> Exits EXIT_FAILURE
                 | Some fw \<Rightarrow> let (fd, p3) = sys_install fw p2; (fd2, p4) = sys_dup fd p3
                     in if fd2 < 0 then Exits EXIT_FAILURE else Returns p4))"

definition redirect_null :: "nat option \<Rightarrow> int \<Rightarrow> proc \<Rightarrow> proc" where
  "redirect_null f std p = (case f of None \<Rightarrow> p
     | Some file \<Rightarrow> let (fd, p1) = sys_install file p in close_fd fd (snd (sys_dup2 fd std p1)))"

text \<open>
  \<open>daemonize\<close> in the process that goes on: \<open>r1\<close> and \<open>r2\<close> are what the two forks return
  to it, \<open>pid\<close> its pid after them, \<open>sid\<close> what \<open>setsid\<close> returns, \<open>cd\<close> whether the change to the root directory works.
\<close>

definition daemonize :: "int \<Rightarrow> int \<Rightarrow> int \<Rightarrow> int \<Rightarrow> bool \<Rightarrow> nat option \<Rightarrow> nat option \<Rightarrow> proc \<Rightarrow> proc outcome" where
  "daemonize r1 r2 pid sid cd nr nw p =
     (if r1 < 0 then Exits EXIT_FAILURE
      else if r1 > 0 then Exits EXIT_SUCCESS
      else if r2 < 0 then Exits EXIT_FAILURE
      else if r2 > 0 then Exits EXIT_SUCCESS
      else if sid < 0 then Exits EXIT_FAILURE
      else if \<not> cd then Exits EXIT_FAILURE
      else Returns (redirect_null nw 2 (redirect_null nw 1 (redirect_null nr 0
             (p\<lparr>p_pid := pid, p_umask := 0, p_sid := sid, p_cwd := ''/''\<rparr>)))))"

text \<open>A pipe takes two descriptors; \<open>f\<close> numbers its two ends.\<close>

definition sys_pipe :: "nat \<Rightarrow> proc \<Rightarrow> (int \<times> int) \<times> proc" where
  "sys_pipe f p = (let (a, p1) = sys_install f p; (b, p2) = sys_install (f + 1) p1 in ((a, b), p2))"

text \<open>
  What the constructor meets: whether a daemon object exists, the files of \<open>/dev/null\<close>, the
  numbers of the four pipes (\<open>None\<close> if \<open>pipe\<close> fails), the results of \<open>daemonize\<close>'s calls.
\<close>

record startup =
  st_instance :: bool
  st_null_r :: "nat option"
  st_null_w :: "nat option"
  st_pipes :: "nat option list"
  st_fork1 :: int
  st_fork2 :: int
  st_pid :: int
  st_sid :: int
  st_chdir :: bool

fun make_pipes :: "nat option list \<Rightarrow> proc \<Rightarrow> ((int \<times> int) list \<times> proc) outcome" where
  "make_pipes [] p = Returns ([], p)"
| "make_pipes (None # fs) p = Exits EXIT_FAILURE"
| "make_pipes (Some f # fs) p = (let (ab, p1) = sys_pipe f p
     in and_then (make_pipes fs p1) (\<lambda>(abs, p2). Returns (ab # abs, p2)))"

definition Daemon_new :: "startup \<Rightarrow> string list \<Rightarrow> nat list \<Rightarrow> daemon \<Rightarrow> daemon outcome" where
  "Daemon_new st args offs d =
     (if st_instance st then Exits EXIT_FAILURE
      else and_then (parseArgs args (d\<lparr>m_daemon := False, m_quiet := False, m_bootMode := False,
             m_children := [], m_boosterPidToInvokerPid := [], m_boosterTypeToPid := [],
             d_sockets := []\<rparr>)) (\<lambda>d1.
        and_then (if m_quiet d1 then consoleQuiet (st_null_r st) (st_null_w st) (d_proc d1)
                  else Returns (d_proc d1)) (\<lambda>p1.
        and_then (make_pipes (take 4 (st_pipes st)) p1) (\<lambda>(ps, p2).
        and_then (if m_daemon d1
                  then daemonize (st_fork1 st) (st_fork2 st) (st_pid st) (st_sid st) (st_chdir st)
                         (st_null_r st) (st_null_w st) p2
                  else Returns p2) (\<lambda>p3.
        case ps of
          [bp, cp, tp, up] \<Rightarrow> Returns (d1\<lparr>d_proc := p3, m_initialArgc := int (length args),
              m_initialArgv := offs, m_boosterPipeFd := bp, m_sigChldPipeFd := cp,
              m_sigTermPipeFd := tp, m_sigUsr1PipeFd := up\<rparr>)
        | _ \<Rightarrow> Exits EXIT_FAILURE)))))"

text \<open>
  \<open>lock\<close>: \<open>f\<close> is the opened lock file, \<open>taken\<close> whether another process holds the lock.
\<close>

definition lock :: "nat option \<Rightarrow> bool \<Rightarrow> daemon \<Rightarrow> bool \<times> daemon" where
  "lock f taken d = (case f of
       None \<Rightarrow> (False, d\<lparr>m_lockFd := -1\<rparr>)
     | Some file \<Rightarrow> let (fd, p) = sys_install file (d_proc d);
                        d1 = d\<lparr>m_lockFd := fd, d_proc := p\<rparr>
         in if taken then (False, d1) else (True, d1))"

text \<open>\<open>main\<close> of the launcher library.\<close>

definition launcher_main :: "nat option \<Rightarrow> bool \<Rightarrow> startup \<Rightarrow> string list \<Rightarrow> nat list \<Rightarrow> string
    \<Rightarrow> plugin_lib option list option \<Rightarrow> ready_fds option list \<Rightarrow> daemon \<Rightarrow> daemon outcome" where
  "launcher_main f taken st args offs dir found sels d =
     (let (locked, d1) = lock f taken d
      in if \<not> locked then Exits EXIT_FAILURE
         else and_then (Daemon_new st args offs d1) (daemon_run dir found sels))"

end
