(* ===== verification/Daemon_Safety.thy ===== *)
theory Daemon_Safety
  imports Daemon
begin

text \<open>
  What the daemon guarantees: the messages of the boosters are understood, dead boosters
  are replaced, the loop over a vector that changes under it is a single pass over the
  children, and the bookkeeping of children, boosters and invokers stays consistent.
\<close>

subsection \<open>The invariants\<close>

text \<open>What the kernel knows and what the daemon waits for.\<close>

definition pids_ok :: "daemon \<Rightarrow> bool" where
  "pids_ok d \<longleftrightarrow> distinct (m_children d) \<and> set (m_children d) \<subseteq> set (d_kernel d) \<and>
     distinct (d_kernel d) \<and> (\<forall>p \<in> set (d_kernel d). 0 < p) \<and>
     smap_ok (d_ended d) \<and> (\<forall>p. smap_find (d_ended d) p \<noteq> None \<longrightarrow> p \<in> set (d_kernel d))"

text \<open>The boosters and the children with an invoker are children; a child is one booster at most.\<close>

definition maps_ok :: "daemon \<Rightarrow> bool" where
  "maps_ok d \<longleftrightarrow> smap_ok (m_boosterTypeToPid d) \<and> smap_ok (m_boosterPidToInvokerPid d) \<and>
     (\<forall>t p. smap_find (m_boosterTypeToPid d) t = Some p \<longrightarrow> t \<noteq> NUL \<and> p \<in> set (m_children d)) \<and>
     (\<forall>t t' p. smap_find (m_boosterTypeToPid d) t = Some p \<longrightarrow>
        smap_find (m_boosterTypeToPid d) t' = Some p \<longrightarrow> t = t') \<and>
     (\<forall>p. smap_find (m_boosterPidToInvokerPid d) p \<noteq> None \<longrightarrow> p \<in> set (m_children d))"

text \<open>The pids that the kernel will give out are new.\<close>

definition forks_fresh :: "daemon \<Rightarrow> bool" where
  "forks_fresh d \<longleftrightarrow> distinct (d_forks d) \<and> (\<forall>p \<in> set (d_forks d). 0 < p \<and> p \<notin> set (d_kernel d))"

lemmas daemon_invs = pids_ok_def maps_ok_def forks_fresh_def

lemma pids_okD:
  assumes "pids_ok d"
  shows "distinct (m_children d)" "set (m_children d) \<subseteq> set (d_kernel d)" "distinct (d_kernel d)"
    "smap_ok (d_ended d)" "p \<in> set (d_kernel d) \<Longrightarrow> 0 < p"
    "smap_find (d_ended d) p \<noteq> None \<Longrightarrow> p \<in> set (d_kernel d)"
  using assms unfolding pids_ok_def by blast+

lemma maps_okD:
  assumes "maps_ok d"
  shows "smap_ok (m_boosterTypeToPid d)" "smap_ok (m_boosterPidToInvokerPid d)"
    "smap_find (m_boosterTypeToPid d) t = Some p \<Longrightarrow> t \<noteq> NUL \<and> p \<in> set (m_children d)"
    "smap_find (m_boosterTypeToPid d) t = Some p \<Longrightarrow>
       smap_find (m_boosterTypeToPid d) t' = Some p \<Longrightarrow> t = t'"
    "smap_find (m_boosterPidToInvokerPid d) p \<noteq> None \<Longrightarrow> p \<in> set (m_children d)"
  using assms unfolding maps_ok_def by blast+

subsection \<open>Forking\<close>

text \<open>
  The maps without the type \<open>t\<close>: what holds while \<open>t\<close>'s booster is gone.
\<close>

definition maps_ok_but :: "char \<Rightarrow> daemon \<Rightarrow> bool" where
  "maps_ok_but t d \<longleftrightarrow> maps_ok (d\<lparr>m_boosterTypeToPid := smap_erase t (m_boosterTypeToPid d)\<rparr>) \<and>
     smap_ok (m_boosterTypeToPid d)"

lemma maps_ok_but: "maps_ok d \<Longrightarrow> maps_ok_but t d"
  by (simp add: maps_ok_but_def maps_ok_def smap_simps)

lemma forkBooster_pid:
  assumes "forkBooster t s d = Returns d'" "smap_ok (m_boosterTypeToPid d)"
  obtains pid pids where "d_forks d = pid # pids" "d_forks d' = pids" "m_children d' = m_children d @ [pid]"
    "d_kernel d' = d_kernel d @ [pid]" "d_ended d' = d_ended d" "d_kills d' = d_kills d"
    "m_boosterPidToInvokerPid d' = m_boosterPidToInvokerPid d" "m_bootMode d' = m_bootMode d"
    "d_registry d' = d_registry d" "d_pipe d' = d_pipe d"
    "smap_ok (m_boosterTypeToPid d')"
    "\<And>k. smap_find (m_boosterTypeToPid d') k = (if k = t then Some pid else smap_find (m_boosterTypeToPid d) k)"
  using assms by (auto simp: forkBooster_Returns smap_simps)

lemma forkBooster_invs:
  assumes f: "forkBooster t s d = Returns d'" and "t \<noteq> NUL"
    and ok: "pids_ok d" "maps_ok_but t d" "forks_fresh d"
  shows "pids_ok d'" "maps_ok d'" "forks_fresh d'"
proof -
  have tok: "smap_ok (m_boosterTypeToPid d)"
    and but: "maps_ok (d\<lparr>m_boosterTypeToPid := smap_erase t (m_boosterTypeToPid d)\<rparr>)"
    using ok(2) by (simp_all add: maps_ok_but_def)
  obtain pid pids where p: "d_forks d = pid # pids" "d_forks d' = pids"
    "m_children d' = m_children d @ [pid]" "d_kernel d' = d_kernel d @ [pid]" "d_ended d' = d_ended d"
    "m_boosterPidToInvokerPid d' = m_boosterPidToInvokerPid d" "smap_ok (m_boosterTypeToPid d')"
    "\<And>k. smap_find (m_boosterTypeToPid d') k = (if k = t then Some pid else smap_find (m_boosterTypeToPid d) k)"
    using forkBooster_pid [OF f tok] by metis
  have new: "0 < pid" "pid \<notin> set (d_kernel d)" "pid \<notin> set (m_children d)"
    using ok(1,3) p(1) by (auto simp: forks_fresh_def pids_ok_def)
  show "pids_ok d'" using ok(1) p new unfolding pids_ok_def by auto
  show "forks_fresh d'" using ok(3) p by (auto simp: forks_fresh_def)
  have rest1: "k \<noteq> NUL \<and> q \<in> set (m_children d)"
    if "smap_find (m_boosterTypeToPid d) k = Some q" "k \<noteq> t" for k q
    using that maps_okD(3) [OF but, of k q] tok by (simp add: smap_simps)
  have rest2: "k = k'" if "smap_find (m_boosterTypeToPid d) k = Some q"
    "smap_find (m_boosterTypeToPid d) k' = Some q" "k \<noteq> t" "k' \<noteq> t" for k k' q
    using that maps_okD(4) [OF but, of k q k'] tok by (simp add: smap_simps)
  have inv: "smap_ok (m_boosterPidToInvokerPid d)"
    "smap_find (m_boosterPidToInvokerPid d) q \<noteq> None \<Longrightarrow> q \<in> set (m_children d)" for q
    using maps_okD(2) [OF but] maps_okD(5) [OF but, of q] by simp_all
  have types: "k \<noteq> NUL \<and> q \<in> set (m_children d')" if "smap_find (m_boosterTypeToPid d') k = Some q" for k q
    using that rest1 [of k q] \<open>t \<noteq> NUL\<close> unfolding p(3,8) by (cases "k = t") auto
  have single: "k = k'" if "smap_find (m_boosterTypeToPid d') k = Some q"
    "smap_find (m_boosterTypeToPid d') k' = Some q" for k k' q
    using that rest1 [of k q] rest1 [of k' q] rest2 [of k q k'] new(3) unfolding p(8)
    by (cases "k = t"; cases "k' = t") auto
  have "q \<in> set (m_children d')" if "smap_find (m_boosterPidToInvokerPid d') q \<noteq> None" for q
    using that inv(2) [of q] unfolding p(3,6) by simp
  then show "maps_ok d'"
    using p(6,7) inv(1) types single unfolding maps_ok_def by (metis (no_types))
qed

lemma type_for_pid_None: "(\<forall>t q. (t, q) \<in> set m \<longrightarrow> q \<noteq> pid) \<Longrightarrow> type_for_pid pid m = NUL"
  by (induction pid m rule: type_for_pid.induct) auto

lemma type_for_pid_Some: "type_for_pid pid m = t \<Longrightarrow> t \<noteq> NUL \<Longrightarrow> (t, pid) \<in> set m"
  by (induction pid m rule: type_for_pid.induct) (auto split: if_splits)

text \<open>A booster's pid is found with its type, any other pid without one.\<close>

lemma boosterTypeForPid_iff:
  assumes "maps_ok d"
  shows "boosterTypeForPid pid d = t \<and> t \<noteq> NUL \<longleftrightarrow> smap_find (m_boosterTypeToPid d) t = Some pid"
proof -
  note ok = maps_okD [OF assms]
  have entry: "(k, q) \<in> set (m_boosterTypeToPid d) \<longleftrightarrow> smap_find (m_boosterTypeToPid d) k = Some q" for k q
    by (rule smap.entries_find [OF ok(1)])
  show ?thesis
  proof
    assume "boosterTypeForPid pid d = t \<and> t \<noteq> NUL"
    then show "smap_find (m_boosterTypeToPid d) t = Some pid"
      using type_for_pid_Some entry by (auto simp: boosterTypeForPid_def)
  next
    assume t: "smap_find (m_boosterTypeToPid d) t = Some pid"
    show "boosterTypeForPid pid d = t \<and> t \<noteq> NUL"
    proof (cases "boosterTypeForPid pid d = NUL")
      case True
      have "type_for_pid pid m \<noteq> NUL" if "(t, pid) \<in> set m" "\<forall>(k, q) \<in> set m. k \<noteq> NUL" for m
        using that by (induction pid m rule: type_for_pid.induct) auto
      moreover have "\<forall>(k, q) \<in> set (m_boosterTypeToPid d). k \<noteq> NUL" using ok(3) entry by auto
      ultimately show ?thesis using True t entry by (auto simp: boosterTypeForPid_def)
    next
      case False
      then have "smap_find (m_boosterTypeToPid d) (boosterTypeForPid pid d) = Some pid"
        using type_for_pid_Some entry by (auto simp: boosterTypeForPid_def)
      then show ?thesis using ok(3,4) t by blast
    qed
  qed
qed

subsection \<open>Reaping one child\<close>

definition daemon_inv :: "daemon \<Rightarrow> bool" where
  "daemon_inv d \<longleftrightarrow> pids_ok d \<and> maps_ok d \<and> forks_fresh d"

text \<open>What becomes of one child, as a reference: nothing if it is alive.\<close>

definition reap_child :: "int \<Rightarrow> daemon \<Rightarrow> daemon outcome" where
  "reap_child c d = (let (pid, status, d1) = sys_waitpid c d
     in if pid \<noteq> 0
        then restart_booster pid (forward_signal pid status (d1\<lparr>m_children := remove1 c (m_children d1)\<rparr>))
        else Returns d1)"

fun reap_pass :: "int list \<Rightarrow> daemon \<Rightarrow> daemon outcome" where
  "reap_pass [] d = Returns d"
| "reap_pass (c # cs) d = and_then (reap_child c d) (reap_pass cs)"

definition bury :: "int \<Rightarrow> wait_status \<Rightarrow> daemon \<Rightarrow> daemon" where
  "bury c st d = forward_signal c st (d\<lparr>d_ended := smap_erase c (d_ended d),
     d_kernel := remove1 c (d_kernel d), m_children := remove1 c (m_children d)\<rparr>)"

lemma sys_waitpid_alive:
  "c \<in> set (d_kernel d) \<Longrightarrow> smap_find (d_ended d) c = None \<Longrightarrow> sys_waitpid c d = (0, Exited 0, d)"
  by (simp add: sys_waitpid_def)

lemma reap_child_alive:
  "c \<in> set (d_kernel d) \<Longrightarrow> smap_find (d_ended d) c = None \<Longrightarrow> reap_child c d = Returns d"
  by (simp add: reap_child_def sys_waitpid_alive)

lemma reap_child_dead:
  assumes "c \<in> set (d_kernel d)" "smap_find (d_ended d) c = Some st" "0 < c"
  shows "reap_child c d = restart_booster c (bury c st d)"
  using assms by (simp add: reap_child_def sys_waitpid_def bury_def)

lemma bury_fields [simp]:
  "m_children (bury c st d) = remove1 c (m_children d)"
  "d_kernel (bury c st d) = remove1 c (d_kernel d)"
  "d_ended (bury c st d) = smap_erase c (d_ended d)"
  "d_forks (bury c st d) = d_forks d"
  "m_boosterTypeToPid (bury c st d) = m_boosterTypeToPid d"
  "m_bootMode (bury c st d) = m_bootMode d"
  "d_registry (bury c st d) = d_registry d"
  "d_pipe (bury c st d) = d_pipe d"
  by (auto simp: bury_def forward_signal_def sys_kill_def Let_def
      split: option.splits wait_status.splits)

lemma bury_invokers:
  "smap_ok (m_boosterPidToInvokerPid d) \<Longrightarrow>
     smap_ok (m_boosterPidToInvokerPid (bury c st d)) \<and>
     smap_find (m_boosterPidToInvokerPid (bury c st d)) q =
       (if q = c then None else smap_find (m_boosterPidToInvokerPid d) q)"
  by (auto simp: bury_def forward_signal_def sys_kill_def Let_def smap_simps
      split: option.splits wait_status.splits)

lemma bury_pids_ok:
  assumes "pids_ok d" "forks_fresh d"
  shows "pids_ok (bury c st d)" "forks_fresh (bury c st d)"
proof -
  note ok = pids_okD [OF assms(1)]
  have "q \<in> set (remove1 c (d_kernel d))" if "smap_find (smap_erase c (d_ended d)) q \<noteq> None" for q
    using that ok(4) ok(6) [of q] ok(3) by (auto simp: smap_simps split: if_splits)
  moreover have "set (remove1 c (m_children d)) \<subseteq> set (remove1 c (d_kernel d))"
    using ok(1-3) by auto
  moreover have "smap_ok (smap_erase c (d_ended d))" using ok(4) by (simp add: smap_simps)
  moreover have "\<forall>p \<in> set (remove1 c (d_kernel d)). 0 < p" using ok(3,5) by auto
  ultimately show "pids_ok (bury c st d)"
    using ok(1,3) unfolding pids_ok_def bury_fields by (simp add: distinct_remove1)
  show "forks_fresh (bury c st d)"
    using assms(2) ok(3) by (auto simp: forks_fresh_def)
qed

lemma bury_maps_ok_but:
  assumes "pids_ok d" "maps_ok d" "smap_find (m_boosterTypeToPid d) t = Some c"
  shows "maps_ok_but t (bury c st d)"
proof -
  note ok = maps_okD [OF assms(2)]
  have child: "p \<in> set (remove1 c (m_children d)) \<longleftrightarrow> p \<in> set (m_children d) \<and> p \<noteq> c" for p
    using pids_okD(1) [OF assms(1)] by auto
  have find: "smap_find (smap_erase t (m_boosterTypeToPid d)) k =
      (if k = t then None else smap_find (m_boosterTypeToPid d) k)" for k
    using ok(1) by (simp add: smap_simps)
  have 1: "k \<noteq> NUL \<and> p \<in> set (remove1 c (m_children d))"
    if "smap_find (smap_erase t (m_boosterTypeToPid d)) k = Some p" for k p
    using that ok(3) [of k p] ok(4) [of k p t] assms(3) unfolding find child by (auto split: if_splits)
  have 2: "k = k'" if "smap_find (smap_erase t (m_boosterTypeToPid d)) k = Some p"
    "smap_find (smap_erase t (m_boosterTypeToPid d)) k' = Some p" for k k' p
    using that ok(4) [of k p k'] unfolding find by (auto split: if_splits)
  have 3: "p \<in> set (remove1 c (m_children d))"
    if "smap_find (m_boosterPidToInvokerPid (bury c st d)) p \<noteq> None" for p
    using that bury_invokers [OF ok(2), of c st p] ok(5) [of p] unfolding child by (auto split: if_splits)
  show ?thesis
    unfolding maps_ok_but_def maps_ok_def
    using 1 2 3 ok(1) bury_invokers [OF ok(2)] by (simp add: smap.ok_erase)
qed

lemma bury_maps_ok:
  assumes "pids_ok d" "maps_ok d" "\<And>t. smap_find (m_boosterTypeToPid d) t \<noteq> Some c"
  shows "maps_ok (bury c st d)"
proof -
  note ok = maps_okD [OF assms(2)]
  have child: "p \<in> set (remove1 c (m_children d)) \<longleftrightarrow> p \<in> set (m_children d) \<and> p \<noteq> c" for p
    using pids_okD(1) [OF assms(1)] by auto
  have 3: "p \<in> set (remove1 c (m_children d))"
    if "smap_find (m_boosterPidToInvokerPid (bury c st d)) p \<noteq> None" for p
    using that bury_invokers [OF ok(2), of c st p] ok(5) [of p] unfolding child by (auto split: if_splits)
  have 1: "k \<noteq> NUL \<and> p \<in> set (remove1 c (m_children d))"
    if "smap_find (m_boosterTypeToPid d) k = Some p" for k p
    using that ok(3) [of k p] assms(3) [of k] unfolding child by auto
  show ?thesis
    unfolding maps_ok_def bury_fields
    using 1 3 ok(1,4) bury_invokers [OF ok(2)] by metis
qed

text \<open>Reaping a dead child: the child is gone, and if it was a booster, its type has a new one.\<close>

lemma reap_child_dead_inv:
  assumes inv: "daemon_inv d" and c: "c \<in> set (m_children d)" "smap_find (d_ended d) c = Some st"
    and r: "reap_child c d = Returns d'"
  shows "daemon_inv d'" "d_ended d' = smap_erase c (d_ended d)"
    "\<And>t. smap_find (m_boosterTypeToPid d') t = None \<longleftrightarrow> smap_find (m_boosterTypeToPid d) t = None"
    "\<exists>new. m_children d' = remove1 c (m_children d) @ new \<and> set new \<inter> set (d_kernel d) = {} \<and> length new \<le> 1"
    "set (d_kernel d) - {c} \<subseteq> set (d_kernel d')" "d_registry d' = d_registry d" "d_pipe d' = d_pipe d"
proof -
  have ok: "pids_ok d" "maps_ok d" "forks_fresh d" using inv by (simp_all add: daemon_inv_def)
  have k: "c \<in> set (d_kernel d)" "0 < c" using pids_okD(2,5) [OF ok(1)] c(1) by auto
  let ?b = "bury c st d"
  have b: "pids_ok ?b" "forks_fresh ?b" by (rule bury_pids_ok [OF ok(1,3)])+
  from r have restart: "restart_booster c ?b = Returns d'"
    by (simp add: reap_child_dead [OF k(1) c(2) k(2)])
  have type: "boosterTypeForPid c ?b = boosterTypeForPid c d" by (simp add: boosterTypeForPid_def)
  have "daemon_inv d' \<and> d_ended d' = smap_erase c (d_ended d) \<and>
    (\<forall>t. smap_find (m_boosterTypeToPid d') t = None \<longleftrightarrow> smap_find (m_boosterTypeToPid d) t = None) \<and>
    (\<exists>new. m_children d' = remove1 c (m_children d) @ new \<and> set new \<inter> set (d_kernel d) = {} \<and> length new \<le> 1) \<and>
    set (d_kernel d) - {c} \<subseteq> set (d_kernel d') \<and> d_registry d' = d_registry d \<and> d_pipe d' = d_pipe d"
  proof (cases "boosterTypeForPid c d = NUL")
    case True
    then have no: "smap_find (m_boosterTypeToPid d) t \<noteq> Some c" for t
      using boosterTypeForPid_iff [OF ok(2), of c t] True by auto
    have "d' = ?b" using restart True type by (simp add: restart_booster_def Let_def)
    moreover have "maps_ok ?b" by (rule bury_maps_ok [OF ok(1,2) no])
    ultimately show ?thesis
      using b by (auto simp: daemon_inv_def set_remove1_eq [OF pids_okD(3) [OF ok(1)]])
  next
    case False
    let ?t = "boosterTypeForPid c d"
    have t: "smap_find (m_boosterTypeToPid d) ?t = Some c"
      using boosterTypeForPid_iff [OF ok(2), of c ?t] False by simp
    have f: "forkBooster ?t m_boosterSleepTime ?b = Returns d'"
      using restart False type by (simp add: restart_booster_def Let_def)
    have but: "maps_ok_but ?t ?b" by (rule bury_maps_ok_but [OF ok(1,2) t])
    note invs = forkBooster_invs [OF f False b(1) but b(2)]
    have tok: "smap_ok (m_boosterTypeToPid ?b)" using maps_okD(1) [OF ok(2)] by simp
    obtain pid pids where p: "d_forks ?b = pid # pids" "m_children d' = m_children ?b @ [pid]"
      "d_kernel d' = d_kernel ?b @ [pid]" "d_ended d' = d_ended ?b" "d_registry d' = d_registry ?b"
      "d_pipe d' = d_pipe ?b"
      "\<And>k. smap_find (m_boosterTypeToPid d') k = (if k = ?t then Some pid else smap_find (m_boosterTypeToPid ?b) k)"
      using forkBooster_pid [OF f tok] by metis
    have new: "pid \<notin> set (d_kernel d)" using ok(3) p(1) by (auto simp: forks_fresh_def)
    have "daemon_inv d'" using invs by (simp add: daemon_inv_def)
    moreover have "smap_find (m_boosterTypeToPid d') k = None \<longleftrightarrow> smap_find (m_boosterTypeToPid d) k = None" for k
      unfolding p(7) bury_fields using t by auto
    moreover have "set (d_kernel d) - {c} \<subseteq> set (d_kernel d')"
      unfolding p(3) bury_fields by (auto simp: set_remove1_eq [OF pids_okD(3) [OF ok(1)]])
    moreover have "m_children d' = remove1 c (m_children d) @ [pid] \<and> set [pid] \<inter> set (d_kernel d) = {} \<and>
        length [pid] \<le> 1" using p(2) new by simp
    ultimately show ?thesis
      using p(4-6) by (metis bury_fields(3,7,8))
  qed
  then show "daemon_inv d'" "d_ended d' = smap_erase c (d_ended d)"
    "\<And>t. smap_find (m_boosterTypeToPid d') t = None \<longleftrightarrow> smap_find (m_boosterTypeToPid d) t = None"
    "\<exists>new. m_children d' = remove1 c (m_children d) @ new \<and> set new \<inter> set (d_kernel d) = {} \<and> length new \<le> 1"
    "set (d_kernel d) - {c} \<subseteq> set (d_kernel d')" "d_registry d' = d_registry d" "d_pipe d' = d_pipe d"
    by simp_all
qed

subsection \<open>Reaping all of them\<close>

lemma reap_pass_inv:
  assumes "daemon_inv d" "reap_pass cs d = Returns d'" "distinct cs" "set cs \<subseteq> set (m_children d)"
    and "\<forall>x \<in> set (m_children d) - set cs. smap_find (d_ended d) x = None"
  shows "daemon_inv d' \<and> (\<forall>x \<in> set (m_children d'). smap_find (d_ended d') x = None) \<and>
    (\<forall>t. smap_find (m_boosterTypeToPid d') t = None \<longleftrightarrow> smap_find (m_boosterTypeToPid d) t = None) \<and>
    length (m_children d') \<le> length (m_children d) \<and> d_registry d' = d_registry d \<and> d_pipe d' = d_pipe d"
  using assms
proof (induction cs arbitrary: d)
  case Nil
  then show ?case by simp
next
  case (Cons c cs)
  have ok: "pids_ok d" "c \<in> set (m_children d)" "c \<in> set (d_kernel d)"
    using Cons.prems(1,4) by (auto simp: daemon_inv_def pids_ok_def)
  show ?case
  proof (cases "smap_find (d_ended d) c")
    case None
    then have "reap_pass cs d = Returns d'"
      using Cons.prems(2) reap_child_alive [OF ok(3)] by simp
    then show ?thesis
      using Cons.IH [OF Cons.prems(1)] Cons.prems(3-5) None by auto
  next
    case (Some st)
    from Cons.prems(2) obtain d1 where r: "reap_child c d = Returns d1" "reap_pass cs d1 = Returns d'"
      by (auto simp: and_then_eq_Returns)
    note dead = reap_child_dead_inv [OF Cons.prems(1) ok(2) Some r(1)]
    from dead(4) obtain new where new: "m_children d1 = remove1 c (m_children d) @ new"
      "set new \<inter> set (d_kernel d) = {}" "length new \<le> 1" by blast
    have e: "smap_ok (d_ended d)" by (rule pids_okD(4) [OF ok(1)])
    have ch: "set (remove1 c (m_children d)) = set (m_children d) - {c}"
      using pids_okD(1) [OF ok(1)] by (simp add: set_remove1_eq)
    have fresh: "smap_find (d_ended d) x = None" if "x \<in> set new" for x
      using pids_okD(6) [OF ok(1), of x] new(2) that by auto
    have alive: "\<forall>x \<in> set (m_children d1) - set cs. smap_find (d_ended d1) x = None"
      using Cons.prems(5) fresh unfolding dead(2) new(1) set_append ch by (auto simp: smap.find_erase [OF e])
    have sub: "set cs \<subseteq> set (m_children d1)"
      using Cons.prems(3,4) unfolding new(1) set_append ch by auto
    have len: "length (m_children d1) \<le> length (m_children d)"
      using new(3) length_pos_if_in_set [OF ok(2)]
      unfolding new(1) length_append length_remove1 if_P [OF ok(2)] by linarith
    from Cons.IH [OF dead(1) r(2) _ sub alive] Cons.prems(3) dead(3,6,7) len show ?thesis by auto
  qed
qed

lemma reap_loop_alive:
  assumes "\<forall>x \<in> set (drop i (m_children d)). x \<in> set (d_kernel d) \<and> smap_find (d_ended d) x = None"
  shows "reap_loop i d = Returns d"
  using assms
proof (induction "length (m_children d) - i" arbitrary: i)
  case 0
  then show ?case by (simp add: reap_loop.simps)
next
  case (Suc n)
  then have i: "i < length (m_children d)" "drop i (m_children d) = m_children d ! i # drop (Suc i) (m_children d)"
    by (simp_all add: Cons_nth_drop_Suc)
  then have "reap_loop i d = reap_loop (Suc i) d"
    using Suc.prems by (subst reap_loop.simps) (simp add: sys_waitpid_alive)
  moreover have "reap_loop (Suc i) d = Returns d"
    using Suc i by (intro Suc.hyps(1)) auto
  ultimately show ?case by simp
qed

lemma reap_loop_pass:
  assumes "daemon_inv d" "m_children d = old @ cs @ new"
    and "\<forall>x \<in> set old \<union> set new. smap_find (d_ended d) x = None"
  shows "reap_loop (length old) d = reap_pass cs d"
  using assms
proof (induction cs arbitrary: d old new)
  case Nil
  then have "reap_loop (length old) d = Returns d"
    by (intro reap_loop_alive) (auto simp: daemon_inv_def pids_ok_def)
  then show ?case by simp
next
  case (Cons c cs)
  have ok: "pids_ok d" "c \<in> set (m_children d)" "c \<in> set (d_kernel d)" "0 < c" "distinct (m_children d)"
    using Cons.prems(1,2) by (auto simp: daemon_inv_def pids_ok_def)
  have at: "length old < length (m_children d)" "m_children d ! length old = c"
    using Cons.prems(2) by simp_all
  show ?case
  proof (cases "smap_find (d_ended d) c")
    case None
    have "reap_loop (length old) d = reap_loop (length (old @ [c])) d"
      using at None ok(3) by (subst reap_loop.simps) (simp add: sys_waitpid_alive)
    also have "\<dots> = reap_pass cs d"
      using Cons.prems None by (intro Cons.IH) auto
    finally show ?thesis using reap_child_alive [OF ok(3) None] by simp
  next
    case (Some st)
    let ?d1 = "d\<lparr>d_ended := smap_erase c (d_ended d), d_kernel := remove1 c (d_kernel d)\<rparr>"
    have rest: "remove1 c (m_children d) = old @ cs @ new" "erase_at (length old) (m_children d) = old @ cs @ new"
      using Cons.prems(2) ok(5) by (auto simp: remove1_append erase_at_def)
    have step: "reap_loop (length old) d = and_then (reap_child c d) (reap_loop (length old))"
      using at ok(3,4) Some rest
      by (subst reap_loop.simps) (simp add: reap_child_dead [OF ok(3) Some ok(4)] bury_def sys_waitpid_def)
    have "reap_loop (length old) d1 = reap_pass cs d1" if r: "reap_child c d = Returns d1" for d1
    proof -
      note dead = reap_child_dead_inv [OF Cons.prems(1) ok(2) Some r]
      from dead(4) rest(1) obtain more where more: "m_children d1 = old @ cs @ (new @ more)"
        "set more \<inter> set (d_kernel d) = {}" by auto
      have "smap_find (d_ended d1) x = None" if "x \<in> set old \<union> set (new @ more)" for x
        using that Cons.prems(3) more(2) pids_okD(4) [OF ok(1)] pids_okD(6) [OF ok(1), of x]
        unfolding dead(2) by (auto simp: smap.find_erase)
      then show ?thesis using Cons.IH [OF dead(1) more(1)] by blast
    qed
    then show ?thesis unfolding step reap_pass.simps by (intro and_then_cong refl)
  qed
qed

lemma reapZombies_pass: "daemon_inv d \<Longrightarrow> reapZombies d = reap_pass (m_children d) d"
  using reap_loop_pass [of d "[]" "m_children d" "[]"] by (simp add: reapZombies_def)

lemma reapZombies_inv:
  assumes "daemon_inv d" "reapZombies d = Returns d'"
  shows "daemon_inv d' \<and> (\<forall>x \<in> set (m_children d'). smap_find (d_ended d') x = None) \<and>
    (\<forall>t. smap_find (m_boosterTypeToPid d') t = None \<longleftrightarrow> smap_find (m_boosterTypeToPid d) t = None) \<and>
    length (m_children d') \<le> length (m_children d) \<and> d_registry d' = d_registry d \<and> d_pipe d' = d_pipe d"
  by (rule reap_pass_inv [of d "m_children d"])
    (use assms pids_okD(1) in \<open>auto simp: reapZombies_pass daemon_inv_def\<close>)

text \<open>The signals that the death of a child sends to its invoker.\<close>

definition forwarded :: "daemon \<Rightarrow> int \<Rightarrow> (int \<times> int) list" where
  "forwarded d c = (case smap_find (d_ended d) c of
       Some (Signaled s) \<Rightarrow> (case smap_find (m_boosterPidToInvokerPid d) c of
           Some invoker \<Rightarrow> [(invoker, s)] | None \<Rightarrow> [])
     | _ \<Rightarrow> [])"

lemma reap_child_kills:
  assumes inv: "daemon_inv d" and c: "c \<in> set (m_children d)" and r: "reap_child c d = Returns d'"
  shows "d_kills d' = d_kills d @ forwarded d c" "x \<noteq> c \<Longrightarrow> forwarded d' x = forwarded d x"
proof -
  have ok: "pids_ok d" "maps_ok d" using inv by (simp_all add: daemon_inv_def)
  have k: "c \<in> set (d_kernel d)" "0 < c" using pids_okD(2,5) [OF ok(1)] c(1) by auto
  have "d_kills d' = d_kills d @ forwarded d c \<and> (x \<noteq> c \<longrightarrow> forwarded d' x = forwarded d x)"
  proof (cases "smap_find (d_ended d) c")
    case None
    then have "d' = d" using r reap_child_alive [OF k(1)] by simp
    then show ?thesis using None by (simp add: forwarded_def)
  next
    case (Some st)
    let ?b = "bury c st d"
    have restart: "restart_booster c ?b = Returns d'"
      using r by (simp add: reap_child_dead [OF k(1) Some k(2)])
    then have same: "d_kills d' = d_kills ?b" "d_ended d' = d_ended ?b"
      "m_boosterPidToInvokerPid d' = m_boosterPidToInvokerPid ?b"
      by (auto simp: restart_booster_def forkBooster_Returns Let_def split: if_splits)
    have "d_kills ?b = d_kills d @ forwarded d c"
      using Some by (auto simp: bury_def forward_signal_def sys_kill_def forwarded_def Let_def
          split: option.splits wait_status.splits)
    moreover have "forwarded d' x = forwarded d x" if "x \<noteq> c"
    proof -
      have "smap_find (m_boosterPidToInvokerPid ?b) x = smap_find (m_boosterPidToInvokerPid d) x"
        using that bury_invokers [OF maps_okD(2) [OF ok(2)], of c st x] by simp
      then show ?thesis
        using that smap.find_erase [OF pids_okD(4) [OF ok(1)], of c x]
        unfolding forwarded_def same by (simp split: option.splits wait_status.splits)
    qed
    ultimately show ?thesis using same by simp
  qed
  then show "d_kills d' = d_kills d @ forwarded d c" "x \<noteq> c \<Longrightarrow> forwarded d' x = forwarded d x"
    by simp_all
qed

lemma reap_child_step:
  assumes "daemon_inv d" "c \<in> set (m_children d)" "reap_child c d = Returns d'"
  shows "daemon_inv d'" "x \<in> set (m_children d) \<Longrightarrow> x \<noteq> c \<Longrightarrow> x \<in> set (m_children d')"
proof -
  have "daemon_inv d' \<and> (x \<in> set (m_children d) \<longrightarrow> x \<noteq> c \<longrightarrow> x \<in> set (m_children d'))"
  proof (cases "smap_find (d_ended d) c")
    case None
    then show ?thesis
      using assms reap_child_alive [of c d] by (auto simp: daemon_inv_def pids_ok_def)
  next
    case (Some st)
    note dead = reap_child_dead_inv [OF assms(1,2) Some assms(3)]
    then show ?thesis by (auto simp: in_set_remove1)
  qed
  then show "daemon_inv d'" "x \<in> set (m_children d) \<Longrightarrow> x \<noteq> c \<Longrightarrow> x \<in> set (m_children d')"
    by simp_all
qed

lemma reap_pass_kills:
  assumes "daemon_inv d" "reap_pass cs d = Returns d'" "distinct cs" "set cs \<subseteq> set (m_children d)"
  shows "d_kills d' = d_kills d @ concat (map (forwarded d) cs)"
  using assms
proof (induction cs arbitrary: d)
  case Nil
  then show ?case by simp
next
  case (Cons c cs)
  from Cons.prems(2) obtain d1 where r: "reap_child c d = Returns d1" "reap_pass cs d1 = Returns d'"
    by (auto simp: and_then_eq_Returns)
  have c: "c \<in> set (m_children d)" using Cons.prems(4) by simp
  note step = reap_child_step [OF Cons.prems(1) c r(1)]
  note kills = reap_child_kills [OF Cons.prems(1) c r(1)]
  have "set cs \<subseteq> set (m_children d1)"
    using Cons.prems(3,4) step(2) by auto
  then have "d_kills d' = d_kills d1 @ concat (map (forwarded d1) cs)"
    using Cons.IH [OF step(1) r(2)] Cons.prems(3) by simp
  moreover have "map (forwarded d1) cs = map (forwarded d) cs"
    using kills(2) Cons.prems(3) by (intro map_cong refl kills(2)) auto
  ultimately show ?case using kills(1) by simp
qed

text \<open>
  A daemon with three boosters, two running applications (103 for the invoker 4242, 104),
  of which the first was killed by a signal, and a booster that has died.
\<close>

definition example_daemon :: daemon where
  "example_daemon = \<lparr>m_daemon = False, m_quiet = False, m_bootMode = True, m_debugMode = False,
     m_children = [103, 104, 105, 106, 107],
     m_boosterPidToInvokerPid = [(103, 4242)],
     m_boosterTypeToPid = [(CHR ''d'', 105), (CHR ''m'', 106), (CHR ''q'', 107)],
     m_boosterPipeFd = (3, 4), m_sigChldPipeFd = (5, 6), m_sigTermPipeFd = (7, 8),
     m_sigUsr1PipeFd = (9, 10), m_initialArgc = 1, m_initialArgv = [0], m_lockFd = 11,
     d_registry = shipped_registry, d_sockets = [], d_files = example_files,
     d_proc = example_proc, d_forks = [201, 202], d_kernel = [103, 104, 105, 106, 107],
     d_ended = [(103, Signaled 11), (106, Exited 1)], d_kills = [],
     d_pipe = \<lparr>rx = [], tx = [], rplan = [], wplan = []\<rparr>, d_junk = NUL\<rparr>"

lemma example_daemon_inv: "daemon_inv example_daemon"
  by (auto simp: daemon_inv_def pids_ok_def maps_ok_def forks_fresh_def example_daemon_def smap_ok_def
      split: if_splits)

lemma example_reaped:
  "reap_pass [103, 104, 105, 106, 107] example_daemon = Returns (example_daemon\<lparr>
     m_children := [104, 105, 107, 201], m_boosterPidToInvokerPid := [],
     m_boosterTypeToPid := [(CHR ''d'', 105), (CHR ''m'', 201), (CHR ''q'', 107)],
     d_forks := [202], d_kernel := [104, 105, 107, 201], d_ended := [], d_kills := [(4242, 11)]\<rparr>)"
  by (simp add: reap_child_def sys_waitpid_def example_daemon_def forward_signal_def sys_kill_def
      restart_booster_def boosterTypeForPid_def forkBooster_def sys_fork_def setPidToBooster_def Let_def)

text \<open>
  C16. The loop of \<open>reapZombies\<close> walks the vector of children while it erases from it and
  appends to it. It does what a single pass over the children present at its start does,
  each looked at exactly once; and as the vector never outgrows the length it had (a new
  pid takes the place an erased one left), the appended pids never move the storage under
  the iterator.
\<close>

theorem reapZombies_single_pass:
  assumes "daemon_inv d"
  shows "reapZombies d = reap_pass (m_children d) d \<and>
    (case reapZombies d of Returns d' \<Rightarrow> length (m_children d') \<le> length (m_children d) | _ \<Rightarrow> True)"
  using reapZombies_pass [OF assms] reapZombies_inv [OF assms] by (simp split: outcome.splits)

theorem reapZombies_single_pass_witness:
  "\<exists>d'. reapZombies example_daemon = Returns d' \<and> m_children d' = [104, 105, 107, 201]"
  using reapZombies_single_pass [OF example_daemon_inv] example_reaped
  by (simp add: example_daemon_def)

text \<open>
  C15. After \<open>reapZombies\<close> the bookkeeping is consistent again, no child that it still
  waits for has ended, every type that had a booster has one that is running, and exactly
  the invokers of the children that were killed by a signal got that signal, in the order
  of the children.
\<close>

theorem reapZombies_replaces_the_dead:
  assumes "daemon_inv d" "reapZombies d = Returns d'"
  shows "daemon_inv d' \<and> (\<forall>c \<in> set (m_children d'). smap_find (d_ended d') c = None) \<and>
    d_kills d' = d_kills d @ concat (map (forwarded d) (m_children d)) \<and>
    (\<forall>t. boosterPidForType t d \<noteq> 0 \<longrightarrow> boosterPidForType t d' \<noteq> 0 \<and>
       boosterPidForType t d' \<in> set (m_children d') \<and>
       smap_find (d_ended d') (boosterPidForType t d') = None)"
proof -
  note inv = reapZombies_inv [OF assms]
  have ok: "maps_ok d'" "pids_ok d'" using inv by (simp_all add: daemon_inv_def)
  have kills: "d_kills d' = d_kills d @ concat (map (forwarded d) (m_children d))"
    by (rule reap_pass_kills [OF assms(1)])
      (use assms pids_okD(1) in \<open>auto simp: reapZombies_pass daemon_inv_def\<close>)
  have "boosterPidForType t d' \<noteq> 0 \<and> boosterPidForType t d' \<in> set (m_children d')"
    if "boosterPidForType t d \<noteq> 0" for t
  proof -
    from that have "smap_find (m_boosterTypeToPid d) t \<noteq> None"
      by (auto simp: boosterPidForType_def split: option.splits)
    then obtain p where p: "smap_find (m_boosterTypeToPid d') t = Some p" using inv not_None_eq by metis
    have "p \<in> set (m_children d')" using maps_okD(3) [OF ok(1) p] by simp
    moreover from this have "0 < p" using pids_okD(2,5) [OF ok(2)] by auto
    ultimately show ?thesis using p by (simp add: boosterPidForType_def)
  qed
  with inv kills show ?thesis by blast
qed

theorem reapZombies_replaces_the_dead_witness:
  "\<exists>d'. reapZombies example_daemon = Returns d' \<and> d_kills d' = [(4242, 11)]"
proof -
  have r: "reapZombies example_daemon = reap_pass [103, 104, 105, 106, 107] example_daemon"
    using reapZombies_pass [OF example_daemon_inv] by (simp add: example_daemon_def)
  then obtain d' where d': "reapZombies example_daemon = Returns d'" using example_reaped by simp
  show ?thesis
    using reapZombies_replaces_the_dead [OF example_daemon_inv d'] d'
    by (simp add: example_daemon_def forwarded_def)
qed

end
