(* ===== verification/Wire.thy ===== *)
theory Wire
  imports Connection
begin

text \<open>
  The wire format as a contract between sender and receiver: how messages and strings
  are laid out, and, as locales, what it means that a receiving operation reads back
  exactly what an encoder laid out and leaves the rest of the stream. Every action of
  the protocol interprets the locale, so that the receive loop advances over an encoded
  action by one lemma.
\<close>

definition msg_wire :: "u32 \<Rightarrow> item list" where
  "msg_wire w = plain (le32 w)"

definition str_wire :: "string \<Rightarrow> item list" where
  "str_wire s = msg_wire (word_of_nat (length s + 1)) @ plain (s @ [NUL])"

text \<open>The strings the receiver takes: C strings that fit its limit with the zero byte.\<close>

definition str_ok :: "string \<Rightarrow> bool" where
  "str_ok s \<longleftrightarrow> is_c_str s \<and> length s < 4096"

text \<open>A connection whose reads deliver what they are asked for.\<close>

definition live :: "connection \<Rightarrow> bool" where
  "live c \<longleftrightarrow> \<not> c_testMode c \<and> 0 \<le> c_fd c \<and> rplan (c_sock c) = []"

abbreviation with_rx :: "item list \<Rightarrow> connection \<Rightarrow> connection" where
  "with_rx r c \<equiv> c\<lparr>c_sock := (c_sock c)\<lparr>rx := r\<rparr>\<rparr>"

lemma live_updates [simp]:
  "live (c\<lparr>c_fileName := f\<rparr>) = live c"
  "live (c\<lparr>c_argc := n\<rparr>) = live c"
  "live (c\<lparr>c_argv := a\<rparr>) = live c"
  "live (c\<lparr>c_io := l\<rparr>) = live c"
  "live (c\<lparr>c_priority := p\<rparr>) = live c"
  "live (c\<lparr>c_delay := y\<rparr>) = live c"
  "live (c\<lparr>c_uid := u\<rparr>) = live c"
  "live (c\<lparr>c_gid := g\<rparr>) = live c"
  "live (c\<lparr>c_environ := e\<rparr>) = live c"
  "live (c\<lparr>c_sendPid := b\<rparr>) = live c"
  "live (with_rx r c) = live c"
  by (simp_all add: live_def)

lemma length_msg_wire [simp]: "length (msg_wire w) = 4"
  by (simp add: msg_wire_def)

subsection \<open>Messages and strings are read back\<close>

lemma recvMsg_wire:
  "live c \<Longrightarrow> rx (c_sock c) = msg_wire w @ r \<Longrightarrow> recvMsg v c = (True, w, with_rx r c)"
  by (simp add: recvMsg_def fd_read_def live_def msg_wire_def
      sys_read_plain [where bs = "le32 w" and n = 4 and r = r])

lemma recvStr_wire:
  assumes "live c" "rx (c_sock c) = str_wire s @ r" "str_ok s"
  shows "recvStr c = (Str s, with_rx r c)"
proof -
  let ?n = "word_of_nat (length s + 1) :: u32"
  have n: "unat ?n = length s + 1"
    using unat_of_nat_u32 [of "length s + 1"] assms(3) by (simp add: str_ok_def)
  have bounds: "?n \<noteq> 0" "\<not> STR_LEN_MAX < ?n"
    using n assms(3) by (auto simp: str_ok_def STR_LEN_MAX_def word_less_nat_alt unat_eq_0)
  have m: "recvMsg 0 c = (True, ?n, with_rx (plain (s @ [NUL]) @ r) c)"
    by (rule recvMsg_wire) (use assms in \<open>simp_all add: str_wire_def\<close>)
  have rd: "fd_read (length s + 1) (with_rx (plain (s @ [NUL]) @ r) c)
      = (int (length s + 1), s @ [NUL], with_rx r c)"
    using assms(1) by (simp add: fd_read_def live_def
        sys_read_plain [where bs = "s @ [NUL]" and r = r])
  have "(word_of_int (int (length s + 1)) :: u32) = ?n" by simp
  then show ?thesis
    using assms(1,3) bounds
    unfolding recvStr_def m Let_def prod.case n rd
    by (simp add: live_def recv_buffer_def list_update_append str_ok_def)
qed

subsection \<open>The contract of an action\<close>

locale wire_format =
  fixes enc :: "'a \<Rightarrow> item list"
    and ok :: "'a \<Rightarrow> bool"
    and recv :: "connection \<Rightarrow> bool \<times> connection"
    and effect :: "'a \<Rightarrow> connection \<Rightarrow> connection"
  assumes recv_enc: "ok x \<Longrightarrow> live c \<Longrightarrow> rx (c_sock c) = enc x @ r \<Longrightarrow>
      recv c = (True, effect x (with_rx r c))"
    and effect_live: "live c \<Longrightarrow> live (effect x c)"
    and effect_rx: "effect x (with_rx r c) = with_rx r (effect x c)"

locale action_format = wire_format enc ok recv effect
  for enc :: "'a \<Rightarrow> item list"
    and ok :: "'a \<Rightarrow> bool"
    and recv :: "connection \<Rightarrow> bool \<times> connection"
    and effect :: "'a \<Rightarrow> connection \<Rightarrow> connection" +
  fixes tag :: u32
  assumes tag_END: "tag \<noteq> INVOKER_MSG_END"
    and dispatch: "receiveAction tag c = Some (snd (recv c))"
begin

definition action :: "'a \<Rightarrow> item list" where
  "action x = msg_wire tag @ enc x"

text \<open>The loop reads an encoded action and goes on with the rest of the stream.\<close>

lemma receiveActions_action:
  assumes "ok x" "live c"
  shows "receiveActions (with_rx (action x @ r) c) = receiveActions (with_rx r (effect x c))"
proof -
  have "recvMsg 0 (with_rx (action x @ r) c) = (True, tag, with_rx (enc x @ r) c)"
    using recvMsg_wire [of "with_rx (action x @ r) c" tag "enc x @ r" 0] assms(2)
    by (simp add: action_def)
  moreover have "recv (with_rx (enc x @ r) c) = (True, with_rx r (effect x c))"
    using recv_enc [OF assms(1), of "with_rx (enc x @ r) c" r] assms(2)
      effect_rx [of x r c] by simp
  ultimately show ?thesis
    by (subst receiveActions.simps) (simp add: dispatch tag_END)
qed

end

subsection \<open>The actions meet the contract\<close>

definition exec_effect :: "string \<Rightarrow> connection \<Rightarrow> connection" where
  "exec_effect s c = c\<lparr>c_fileName := s\<rparr>"

definition prio_effect :: "u32 \<Rightarrow> connection \<Rightarrow> connection" where
  "prio_effect w c = c\<lparr>c_priority := w\<rparr>"

definition delay_effect :: "u32 \<Rightarrow> connection \<Rightarrow> connection" where
  "delay_effect w c = c\<lparr>c_delay := w\<rparr>"

definition ids_wire :: "u32 \<times> u32 \<Rightarrow> item list" where
  "ids_wire p = msg_wire (fst p) @ msg_wire (snd p)"

definition ids_effect :: "u32 \<times> u32 \<Rightarrow> connection \<Rightarrow> connection" where
  "ids_effect p c = c\<lparr>c_uid := fst p, c_gid := snd p\<rparr>"

interpretation exec_msg: action_format str_wire str_ok receiveExec exec_effect INVOKER_MSG_EXEC
  by unfold_locales
    (simp_all add: receiveExec_def exec_effect_def recvStr_wire receiveAction_def)

interpretation prio_msg:
  action_format msg_wire "\<lambda>_. True" receivePriority prio_effect INVOKER_MSG_PRIO
  by unfold_locales
    (simp_all add: receivePriority_def prio_effect_def recvMsg_wire receiveAction_def)

interpretation delay_msg:
  action_format msg_wire "\<lambda>_. True" receiveDelay delay_effect INVOKER_MSG_DELAY
  by unfold_locales
    (simp_all add: receiveDelay_def delay_effect_def recvMsg_wire receiveAction_def)

interpretation ids_msg:
  action_format ids_wire "\<lambda>_. True" receiveIDs ids_effect INVOKER_MSG_IDS
proof unfold_locales
  fix x :: "u32 \<times> u32" and c r
  assume c: "live c" and rx: "rx (c_sock c) = ids_wire x @ r"
  have "recvMsg (c_uid c) c = (True, fst x, with_rx (msg_wire (snd x) @ r) c)"
    using c rx by (simp add: recvMsg_wire ids_wire_def)
  then show "receiveIDs c = (True, ids_effect x (with_rx r c))"
    using c by (simp add: receiveIDs_def ids_effect_def recvMsg_wire)
qed (simp_all add: ids_effect_def receiveAction_def)

text \<open>The descriptors: one byte that carries the control message.\<close>

definition io_cmsg :: "int list \<Rightarrow> cmsg" where
  "io_cmsg fds = \<lparr>cmsg_len = CMSG_LEN 12, cmsg_level = SOL_SOCKET, cmsg_type = SCM_RIGHTS,
     cmsg_data = fds\<rparr>"

definition io_wire :: "byte \<times> int list \<Rightarrow> item list" where
  "io_wire p = [(fst p, Some (io_cmsg (snd p)))]"

definition io_effect :: "byte \<times> int list \<Rightarrow> connection \<Rightarrow> connection" where
  "io_effect p c = c\<lparr>c_io := snd p\<rparr>"

interpretation io_msg:
  action_format io_wire "\<lambda>_. True" receiveIO io_effect INVOKER_MSG_IO
  by unfold_locales
    (auto simp: receiveIO_def io_effect_def io_wire_def io_cmsg_def fd_recvmsg_def
      sys_recvmsg_def live_def receiveAction_def Let_def)

text \<open>The argument vector.\<close>

definition args_wire :: "string list \<Rightarrow> item list" where
  "args_wire ss = msg_wire (word_of_nat (length ss)) @ concat (map str_wire ss)"

definition args_ok :: "string list \<Rightarrow> bool" where
  "args_ok ss \<longleftrightarrow> 0 < length ss \<and> length ss < 1024 \<and> (\<forall>s \<in> set ss. str_ok s)"

definition args_effect :: "string list \<Rightarrow> connection \<Rightarrow> connection" where
  "args_effect ss c = c\<lparr>c_argc := word_of_nat (length ss), c_argv := Some (map Str ss)\<rparr>"

lemma recv_argv_loop_wire:
  assumes "live c" "rx (c_sock c) = concat (map str_wire ss) @ r" "\<forall>s \<in> set ss. str_ok s"
    "c_argv c = Some a" "length a = i + length ss"
  shows "recv_argv_loop i (length ss) c
    = (True, (with_rx r c)\<lparr>c_argv := Some (take i a @ map Str ss)\<rparr>)"
  using assms
proof (induction ss arbitrary: i c a)
  case Nil
  have "with_rx (rx (c_sock c)) c = c" "c\<lparr>c_argv := c_argv c\<rparr> = c" by simp_all
  with Nil show ?case by simp
next
  case (Cons s ss)
  let ?c = "(with_rx (concat (map str_wire ss) @ r) c)\<lparr>c_argv := Some (a[i := Str s])\<rparr>"
  have "recvStr c = (Str s, with_rx (concat (map str_wire ss) @ r) c)"
    by (rule recvStr_wire) (use Cons.prems in simp_all)
  moreover have "recv_argv_loop (Suc i) (length ss) ?c
      = (True, (with_rx r ?c)\<lparr>c_argv := Some (take (Suc i) (a[i := Str s]) @ map Str ss)\<rparr>)"
    by (rule Cons.IH) (use Cons.prems in simp_all)
  moreover have "take (Suc i) (a[i := Str s]) = take i a @ [Str s]"
    using Cons.prems(5) by (simp add: take_Suc_conv_app_nth)
  ultimately show ?case using Cons.prems(4) by simp
qed

interpretation args_msg:
  action_format args_wire args_ok receiveArgs args_effect INVOKER_MSG_ARGS
proof unfold_locales
  fix ss c r
  assume ok: "args_ok ss" and c: "live c" and rx: "rx (c_sock c) = args_wire ss @ r"
  let ?n = "word_of_nat (length ss) :: u32"
  have n: "unat ?n = length ss" using ok by (simp add: args_ok_def unat_of_nat_u32)
  have bounds: "0 < ?n" "?n < ARGC_MAX"
    using ok n by (auto simp: args_ok_def ARGC_MAX_def word_less_nat_alt)
  have m: "recvMsg (c_argc c) c = (True, ?n, with_rx (concat (map str_wire ss) @ r) c)"
    by (rule recvMsg_wire) (use c rx in \<open>simp_all add: args_wire_def\<close>)
  let ?c = "(with_rx (concat (map str_wire ss) @ r) c)\<lparr>c_argc := ?n,
      c_argv := Some (replicate (length ss) Indeterminate)\<rparr>"
  have "recv_argv_loop 0 (length ss) ?c
      = (True, (with_rx r ?c)\<lparr>c_argv := Some (take 0 (replicate (length ss) Indeterminate) @ map Str ss)\<rparr>)"
    by (rule recv_argv_loop_wire) (use ok c in \<open>simp_all add: args_ok_def\<close>)
  then show "receiveArgs c = (True, args_effect ss (with_rx r c))"
    using bounds n by (simp add: receiveArgs_def m args_effect_def)
qed (simp_all add: args_effect_def receiveAction_def)

text \<open>The environment: a fresh one, entered variable by variable.\<close>

definition env_enter :: "(string \<Rightarrow> bool) \<Rightarrow> string \<Rightarrow> string list \<Rightarrow> string list" where
  "env_enter nomem e es = (if putenv_sanitize e \<and> \<not> nomem e then env_put e es else es)"

definition env_wire :: "string list \<Rightarrow> item list" where
  "env_wire es = args_wire es"

definition env_effect :: "string list \<Rightarrow> connection \<Rightarrow> connection" where
  "env_effect es c = c\<lparr>c_environ := fold (env_enter (c_nomem c)) es []\<rparr>"

lemma recv_env_loop_wire:
  assumes "live c" "rx (c_sock c) = concat (map str_wire es) @ r" "\<forall>s \<in> set es. str_ok s"
  shows "recv_env_loop (length es) c
    = (True, (with_rx r c)\<lparr>c_environ := fold (env_enter (c_nomem c)) es (c_environ c)\<rparr>)"
  using assms
proof (induction es arbitrary: c)
  case Nil
  have "with_rx (rx (c_sock c)) c = c" "c\<lparr>c_environ := c_environ c\<rparr> = c" by simp_all
  with Nil show ?case by simp
next
  case (Cons e es)
  let ?c = "(with_rx (concat (map str_wire es) @ r) c)\<lparr>c_environ := env_enter (c_nomem c) e (c_environ c)\<rparr>"
  have "recvStr c = (Str e, with_rx (concat (map str_wire es) @ r) c)"
    by (rule recvStr_wire) (use Cons.prems in simp_all)
  moreover have "recv_env_loop (length es) ?c
      = (True, (with_rx r ?c)\<lparr>c_environ := fold (env_enter (c_nomem ?c)) es (c_environ ?c)\<rparr>)"
    by (rule Cons.IH) (use Cons.prems in simp_all)
  moreover have "recv_env_loop (Suc (length es)) c = recv_env_loop (length es) ?c"
    using calculation(1) by (simp add: putenv_wrapper_def env_enter_def)
  ultimately show ?case by simp
qed

interpretation env_msg:
  action_format env_wire args_ok "\<lambda>c. receiveEnv (c\<lparr>c_environ := []\<rparr>)" env_effect INVOKER_MSG_ENV
proof unfold_locales
  fix es c r
  assume ok: "args_ok es" and c: "live c" and rx: "rx (c_sock c) = env_wire es @ r"
  let ?n = "word_of_nat (length es) :: u32"
  have n: "unat ?n = length es" using ok by (simp add: args_ok_def unat_of_nat_u32)
  have bounds: "0 < ?n" "?n < MAX_VARS"
    using ok n by (auto simp: args_ok_def MAX_VARS_def word_less_nat_alt)
  let ?c = "(with_rx (concat (map str_wire es) @ r) c)\<lparr>c_environ := []\<rparr>"
  have m: "recvMsg 0 (c\<lparr>c_environ := []\<rparr>) = (True, ?n, ?c)"
    using recvMsg_wire [of "c\<lparr>c_environ := []\<rparr>" ?n "concat (map str_wire es) @ r" 0] c rx
    by (simp add: env_wire_def args_wire_def)
  have "recv_env_loop (length es) ?c
      = (True, (with_rx r ?c)\<lparr>c_environ := fold (env_enter (c_nomem ?c)) es (c_environ ?c)\<rparr>)"
    by (rule recv_env_loop_wire) (use ok c in \<open>simp_all add: args_ok_def\<close>)
  then show "receiveEnv (c\<lparr>c_environ := []\<rparr>) = (True, env_effect es (with_rx r c))"
    using bounds n by (simp add: receiveEnv_def m env_effect_def)
qed (simp_all add: env_effect_def receiveAction_def)

end
