(* ===== verification/Invoker.thy ===== *)
theory Invoker
  imports Protocol Channel
begin

text \<open>
  The invoker's side of the conversation: \<open>src/invoker/invokelib.c\<close> and the functions
  of \<open>src/invoker/invoker.c\<close> that send the launch request and wait for the
  application. The record holds the socket and what the functions reach through the
  process. \<open>i_junk\<close> is the indeterminate value of an uninitialised local variable.
\<close>

record invoker =
  i_sock :: sock
  i_junk :: u32
  i_environ :: "string list"
  i_uid :: u32
  i_gid :: u32
  i_errno :: int
  i_priority :: int
  g_invoked_pid :: int
  i_forwarding :: bool
  i_slept :: "nat list"

definition EXIT_STATUS_APPLICATION_CONNECTION_LOST :: u32 where
  "EXIT_STATUS_APPLICATION_CONNECTION_LOST = 0xfa"
definition EXIT_STATUS_APPLICATION_NOT_FOUND :: int where
  "EXIT_STATUS_APPLICATION_NOT_FOUND = 0x7f"

subsection \<open>invokelib.c\<close>

definition invoke_write :: "item list \<Rightarrow> invoker \<Rightarrow> invoker" where
  "invoke_write bs i = i\<lparr>i_sock := snd (sys_write bs (i_sock i))\<rparr>"

definition invoke_send_msg :: "u32 \<Rightarrow> invoker \<Rightarrow> invoker" where
  "invoke_send_msg msg i = invoke_write (plain (le32 msg)) i"

text \<open>
  \<open>invoke_recv_msg\<close> ignores \<open>read\<close>'s result: bytes that were not read keep the value
  they had in \<open>*msg\<close>.
\<close>

definition invoke_recv_msg :: "u32 \<Rightarrow> invoker \<Rightarrow> u32 \<times> invoker" where
  "invoke_recv_msg msg i = (case sys_read 4 (i_sock i) of (ret, bs, s) \<Rightarrow>
     (from_le32 (bs @ drop (length bs) (le32 msg)), i\<lparr>i_sock := s\<rparr>))"

definition invoke_send_str :: "string option \<Rightarrow> invoker \<Rightarrow> invoker" where
  "invoke_send_str str i = (case str of
       None \<Rightarrow> i
     | Some s \<Rightarrow> invoke_write (plain (s @ [NUL])) (invoke_send_msg (word_of_nat (length s + 1)) i))"

subsection \<open>Receiving the answers\<close>

definition invoke_recv_ack :: "invoker \<Rightarrow> invoker outcome" where
  "invoke_recv_ack i = (let (action, i1) = invoke_recv_msg (i_junk i) i
     in if action = INVOKER_MSG_BAD_CREDS then Exits 1
        else if action \<noteq> INVOKER_MSG_ACK then Exits 1
        else Returns i1)"

definition invoker_recv_pid :: "invoker \<Rightarrow> (u32 \<times> invoker) outcome" where
  "invoker_recv_pid i = (let (action, i1) = invoke_recv_msg (i_junk i) i
     in if action \<noteq> INVOKER_MSG_PID then Exits 1
        else Returns (invoke_recv_msg (i_junk i1) i1))"

definition invoker_recv_exit :: "invoker \<Rightarrow> u32 \<times> invoker" where
  "invoker_recv_exit i = (let (action, i1) = invoke_recv_msg (i_junk i) i
     in if action \<noteq> INVOKER_MSG_EXIT
        then (EXIT_STATUS_APPLICATION_CONNECTION_LOST, i1\<lparr>i_slept := i_slept i1 @ [2]\<rparr>)
        else invoke_recv_msg (i_junk i1) i1)"

subsection \<open>Sending the request\<close>

definition invoker_send_magic :: "u32 \<Rightarrow> invoker \<Rightarrow> invoker" where
  "invoker_send_magic opts i =
     invoke_send_msg (INVOKER_MSG_MAGIC OR INVOKER_MSG_MAGIC_VERSION OR opts) i"

definition invoker_send_name :: "string option \<Rightarrow> invoker \<Rightarrow> invoker" where
  "invoker_send_name name i = invoke_send_str name (invoke_send_msg INVOKER_MSG_NAME i)"

definition invoker_send_exec :: "string option \<Rightarrow> invoker \<Rightarrow> invoker" where
  "invoker_send_exec exec i = invoke_send_str exec (invoke_send_msg INVOKER_MSG_EXEC i)"

definition invoker_send_args :: "string list \<Rightarrow> invoker \<Rightarrow> invoker" where
  "invoker_send_args argv i =
     fold (\<lambda>s. invoke_send_str (Some s)) argv
       (invoke_send_msg (word_of_nat (length argv)) (invoke_send_msg INVOKER_MSG_ARGS i))"

definition invoker_send_prio :: "int \<Rightarrow> invoker \<Rightarrow> invoker" where
  "invoker_send_prio prio i = invoke_send_msg (word_of_int prio) (invoke_send_msg INVOKER_MSG_PRIO i)"

definition invoker_send_delay :: "int \<Rightarrow> invoker \<Rightarrow> invoker" where
  "invoker_send_delay delay i =
     invoke_send_msg (word_of_int delay) (invoke_send_msg INVOKER_MSG_DELAY i)"

definition invoker_send_ids :: "u32 \<Rightarrow> u32 \<Rightarrow> invoker \<Rightarrow> invoker" where
  "invoker_send_ids uid gid i =
     invoke_send_msg gid (invoke_send_msg uid (invoke_send_msg INVOKER_MSG_IDS i))"

definition invoker_send_env :: "invoker \<Rightarrow> invoker" where
  "invoker_send_env i =
     fold (\<lambda>s. invoke_send_str (Some s)) (i_environ i)
       (invoke_send_msg (word_of_nat (length (i_environ i))) (invoke_send_msg INVOKER_MSG_ENV i))"

text \<open>
  The descriptors 0, 1 and 2 travel as a control message on one (indeterminate) byte.
\<close>

definition invoker_send_io :: "invoker \<Rightarrow> invoker" where
  "invoker_send_io i =
     (let m = \<lparr>cmsg_len = CMSG_LEN 12, cmsg_level = SOL_SOCKET, cmsg_type = SCM_RIGHTS,
               cmsg_data = [0, 1, 2]\<rparr>;
          dummy = hd (le32 (i_junk i))
      in invoke_write [(dummy, Some m)] (invoke_send_msg INVOKER_MSG_IO i))"

definition invoker_send_end :: "invoker \<Rightarrow> invoker outcome" where
  "invoker_send_end i = invoke_recv_ack (invoke_send_msg INVOKER_MSG_END i)"

subsection \<open>Signal forwarding\<close>

definition sigs_init :: "invoker \<Rightarrow> invoker" where
  "sigs_init i = i\<lparr>i_forwarding := True\<rparr>"

definition sigs_restore :: "invoker \<Rightarrow> invoker" where
  "sigs_restore i = i\<lparr>i_forwarding := False\<rparr>"

text \<open>
  \<open>sig_forwarder\<close>: the signals it sends, first to the application and then, with the
  default handlers back, to the invoker itself.
\<close>

datatype sig_call = Kill int int | Raise int

definition sig_forwarder :: "int \<Rightarrow> invoker \<Rightarrow> sig_call list \<times> invoker" where
  "sig_forwarder sig i = (if g_invoked_pid i \<ge> 0
     then ([Kill (g_invoked_pid i) sig, Raise sig], sigs_restore i)
     else ([], i))"

subsection \<open>The remote invocation\<close>

text \<open>
  \<open>invoke_remote\<close>: \<open>prog_argv\<close> has \<open>prog_argc\<close> strings, and a null pointer after them.
  The result is the exit status of the invoker.
\<close>

definition invoke_remote :: "string list \<Rightarrow> string option \<Rightarrow> u32 \<Rightarrow> bool \<Rightarrow> int
    \<Rightarrow> invoker \<Rightarrow> (int \<times> invoker) outcome" where
  "invoke_remote prog_argv prog_name magic_options wait_term respawn_delay i =
     (let prog_prio = (if i_errno i \<noteq> 0 \<and> i_priority i < 0 then 0 else i_priority i);
          i1 = invoker_send_magic magic_options i;
          i2 = invoker_send_name (case prog_argv of [] \<Rightarrow> None | s # _ \<Rightarrow> Some s) i1;
          i3 = invoker_send_exec prog_name i2;
          i4 = invoker_send_args prog_argv i3;
          i5 = invoker_send_prio prog_prio i4;
          i6 = invoker_send_delay respawn_delay i5;
          i7 = invoker_send_ids (i_uid i6) (i_gid i6) i6;
          i8 = invoker_send_io i7;
          i9 = invoker_send_env i8
      in and_then (invoker_send_end i9) (\<lambda>i10.
           if wait_term
           then and_then (invoker_recv_pid i10) (\<lambda>(pid, i11).
                  let i12 = sigs_init (i11\<lparr>g_invoked_pid := sint pid\<rparr>);
                      (status, i13) = invoker_recv_exit i12
                  in Returns (sint status, sigs_restore i13))
           else Returns (0, i10)))"

end
