(* ===== verification/Handshake.thy ===== *)
theory Handshake
  imports Wire Invoker
begin

text \<open>
  Invoker and booster put together: the bytes the invoker writes are the encoded
  request, the booster's receive loop reads the request back, and the invoker reads
  back the booster's answers.
\<close>

subsection \<open>What the invoker writes\<close>

definition sends :: "invoker \<Rightarrow> item list \<Rightarrow> invoker" where
  "sends i bs = i\<lparr>i_sock := (i_sock i)\<lparr>tx := tx (i_sock i) @ bs\<rparr>\<rparr>"

definition can_send :: "invoker \<Rightarrow> bool" where
  "can_send i \<longleftrightarrow> wplan (i_sock i) = []"

lemma sends_sends [simp]: "sends (sends i a) b = sends i (a @ b)"
  by (simp add: sends_def)

lemma sends_fields [simp]:
  "can_send (sends i a) = can_send i"
  "i_uid (sends i a) = i_uid i" "i_gid (sends i a) = i_gid i"
  "i_environ (sends i a) = i_environ i" "i_junk (sends i a) = i_junk i"
  "tx (i_sock (sends i a)) = tx (i_sock i) @ a"
  "rx (i_sock (sends i a)) = rx (i_sock i)"
  "rplan (i_sock (sends i a)) = rplan (i_sock i)"
  by (simp_all add: sends_def can_send_def)

lemma invoke_write_sends [simp]: "can_send i \<Longrightarrow> invoke_write bs i = sends i bs"
  by (simp add: invoke_write_def sends_def can_send_def)

lemma invoke_send_msg_sends [simp]: "can_send i \<Longrightarrow> invoke_send_msg w i = sends i (msg_wire w)"
  by (simp add: invoke_send_msg_def msg_wire_def)

lemma invoke_send_str_sends [simp]:
  "can_send i \<Longrightarrow> invoke_send_str (Some s) i = sends i (str_wire s)"
  by (simp add: invoke_send_str_def str_wire_def)

lemma invoke_send_strs_sends [simp]:
  "can_send i \<Longrightarrow> fold (\<lambda>s. invoke_send_str (Some s)) ss i = sends i (concat (map str_wire ss))"
  by (induction ss arbitrary: i) (simp_all, simp add: sends_def)

text \<open>The request as it goes over the wire, up to the \<open>END\<close> message.\<close>

record request =
  rq_options :: u32
  rq_name :: string
  rq_exec :: string
  rq_args :: "string list"
  rq_prio :: int
  rq_delay :: int
  rq_uid :: u32
  rq_gid :: u32
  rq_dummy :: byte
  rq_fds :: "int list"
  rq_environ :: "string list"

definition actions_wire :: "request \<Rightarrow> item list" where
  "actions_wire q =
     exec_msg.action (rq_exec q) @ args_msg.action (rq_args q) @
     prio_msg.action (word_of_int (rq_prio q)) @ delay_msg.action (word_of_int (rq_delay q)) @
     ids_msg.action (rq_uid q, rq_gid q) @ io_msg.action (rq_dummy q, rq_fds q) @
     env_msg.action (rq_environ q) @ msg_wire INVOKER_MSG_END"

definition request_wire :: "request \<Rightarrow> item list" where
  "request_wire q =
     msg_wire (INVOKER_MSG_MAGIC OR INVOKER_MSG_MAGIC_VERSION OR rq_options q) @
     msg_wire INVOKER_MSG_NAME @ str_wire (rq_name q) @ actions_wire q"

text \<open>The request that a run of \<open>invoke_remote\<close> stands for.\<close>

definition request_of :: "string list \<Rightarrow> string \<Rightarrow> u32 \<Rightarrow> int \<Rightarrow> invoker \<Rightarrow> request" where
  "request_of argv prog opts respawn i =
     \<lparr>rq_options = opts, rq_name = hd argv, rq_exec = prog, rq_args = argv,
      rq_prio = (if i_errno i \<noteq> 0 \<and> i_priority i < 0 then 0 else i_priority i),
      rq_delay = respawn, rq_uid = i_uid i, rq_gid = i_gid i,
      rq_dummy = hd (le32 (i_junk i)), rq_fds = [0, 1, 2], rq_environ = i_environ i\<rparr>"

lemma invoke_remote_sends:
  assumes "can_send i" "argv \<noteq> []"
  shows "invoke_remote argv (Some prog) opts wait_term respawn i =
    and_then (invoke_recv_ack (sends i (request_wire (request_of argv prog opts respawn i)))) (\<lambda>i10.
      if wait_term
      then and_then (invoker_recv_pid i10) (\<lambda>(pid, i11).
             let (status, i13) = invoker_recv_exit (sigs_init (i11\<lparr>g_invoked_pid := sint pid\<rparr>))
             in Returns (sint status, sigs_restore i13))
      else Returns (0, i10))"
proof -
  obtain a as where argv: "argv = a # as" using assms(2) by (cases argv) auto
  have "invoker_send_end
     (invoker_send_env (invoker_send_io (invoker_send_ids (i_uid i) (i_gid i)
       (invoker_send_delay respawn (invoker_send_prio
         (if i_errno i \<noteq> 0 \<and> i_priority i < 0 then 0 else i_priority i)
       (invoker_send_args argv (invoker_send_exec (Some prog) (invoker_send_name (Some a)
       (invoker_send_magic opts i)))))))))
    = invoke_recv_ack (sends i (request_wire (request_of argv prog opts respawn i)))"
    using assms(1)
    by (simp add: invoker_send_end_def invoker_send_env_def invoker_send_io_def
        invoker_send_ids_def invoker_send_delay_def invoker_send_prio_def invoker_send_args_def
        invoker_send_exec_def invoker_send_name_def invoker_send_magic_def request_wire_def
        actions_wire_def request_of_def exec_msg.action_def args_msg.action_def prio_msg.action_def
        delay_msg.action_def ids_msg.action_def io_msg.action_def env_msg.action_def
        args_wire_def env_wire_def ids_wire_def io_wire_def io_cmsg_def argv)
  moreover have "i_uid (invoker_send_delay respawn (invoker_send_prio p
       (invoker_send_args argv (invoker_send_exec (Some prog) (invoker_send_name (Some a)
       (invoker_send_magic opts i)))))) = i_uid i"
     "i_gid (invoker_send_delay respawn (invoker_send_prio p
       (invoker_send_args argv (invoker_send_exec (Some prog) (invoker_send_name (Some a)
       (invoker_send_magic opts i)))))) = i_gid i" for p
    using assms(1)
    by (simp_all add: invoker_send_delay_def invoker_send_prio_def invoker_send_args_def
        invoker_send_exec_def invoker_send_name_def invoker_send_magic_def)
  ultimately show ?thesis
    unfolding invoke_remote_def Let_def by (simp only: argv list.case)
qed

subsection \<open>In transit\<close>

text \<open>
  The kernel hands the bytes over unchanged and installs the descriptors of a control
  message in the receiver under numbers of its choice: \<open>install\<close> is that choice.
\<close>

definition deliver :: "(int \<Rightarrow> int) \<Rightarrow> item list \<Rightarrow> item list" where
  "deliver install = map (\<lambda>(b, cm). (b, map_option (\<lambda>m. m\<lparr>cmsg_data := map install (cmsg_data m)\<rparr>) cm))"

lemma deliver_append [simp]: "deliver f (a @ b) = deliver f a @ deliver f b"
  by (simp add: deliver_def)

lemma deliver_plain [simp]: "deliver f (plain bs) = plain bs"
  by (simp add: deliver_def plain_def)

lemma deliver_msg_wire [simp]: "deliver f (msg_wire w) = msg_wire w"
  by (simp add: msg_wire_def)

lemma deliver_str_wire [simp]: "deliver f (str_wire s) = str_wire s"
  by (simp add: str_wire_def del: plain_append)

lemma deliver_io_wire [simp]: "deliver f (io_wire p) = io_wire (fst p, map f (snd p))"
  by (simp add: deliver_def io_wire_def io_cmsg_def)

lemma deliver_strs [simp]: "deliver f (concat (map str_wire ss)) = concat (map str_wire ss)"
  by (induction ss) (simp_all, simp add: deliver_def)

lemma deliver_request:
  "deliver f (request_wire q) = request_wire (q\<lparr>rq_fds := map f (rq_fds q)\<rparr>)"
  by (simp add: request_wire_def actions_wire_def exec_msg.action_def args_msg.action_def
      prio_msg.action_def delay_msg.action_def ids_msg.action_def io_msg.action_def
      env_msg.action_def args_wire_def env_wire_def ids_wire_def)

subsection \<open>What the booster reads\<close>

definition request_ok :: "request \<Rightarrow> bool" where
  "request_ok q \<longleftrightarrow> rq_options q AND INVOKER_MSG_MAGIC_OPTION_MASK = rq_options q \<and>
     str_ok (rq_name q) \<and> rq_name q \<noteq> [] \<and> str_ok (rq_exec q) \<and>
     args_ok (rq_args q) \<and> args_ok (rq_environ q)"

definition ready :: "connection \<Rightarrow> bool" where
  "ready c \<longleftrightarrow> live c \<and> wplan (c_sock c) = []"

lemma sendMsg_ready:
  "ready c \<Longrightarrow> sendMsg w c = (True, c\<lparr>c_sock := (c_sock c)\<lparr>tx := tx (c_sock c) @ msg_wire w\<rparr>\<rparr>)"
  by (simp add: sendMsg_def fd_write_def ready_def live_def msg_wire_def)

lemma ready_tx [simp]: "ready (c\<lparr>c_sock := (c_sock c)\<lparr>tx := t\<rparr>\<rparr>) = ready c"
  by (simp add: ready_def live_def)

lemma live_tx [simp]: "live (c\<lparr>c_sock := (c_sock c)\<lparr>tx := t\<rparr>\<rparr>) = live c"
  by (simp add: live_def)

lemma sendAppExitStatus_tx:
  "ready c \<Longrightarrow> tx (c_sock (snd (sendAppExitStatus status c))) =
     tx (c_sock c) @ msg_wire INVOKER_MSG_EXIT @ msg_wire (word_of_int status)"
  by (simp add: sendAppExitStatus_def sendMsg_ready)

definition reply_wire :: "connection \<Rightarrow> item list" where
  "reply_wire c = msg_wire INVOKER_MSG_ACK @
     (if c_sendPid c then msg_wire INVOKER_MSG_PID @ msg_wire (word_of_int (c_pid c)) else [])"

lemma sendReply_ready:
  "ready c \<Longrightarrow> sendReply c = c\<lparr>c_sock := (c_sock c)\<lparr>tx := tx (c_sock c) @ reply_wire c\<rparr>\<rparr>"
  by (simp add: sendReply_def sendPid_def sendMsg_ready reply_wire_def Let_def)

lemma receiveActions_END:
  "ready c \<Longrightarrow> rx (c_sock c) = msg_wire INVOKER_MSG_END @ r \<Longrightarrow>
     receiveActions c = (True, sendReply (with_rx r c))"
  using recvMsg_wire [of c INVOKER_MSG_END r 0]
  by (subst receiveActions.simps) (simp add: ready_def)

definition request_effect :: "request \<Rightarrow> connection \<Rightarrow> connection" where
  "request_effect q c = env_effect (rq_environ q) (io_effect (rq_dummy q, rq_fds q)
     (ids_effect (rq_uid q, rq_gid q) (delay_effect (word_of_int (rq_delay q))
     (prio_effect (word_of_int (rq_prio q)) (args_effect (rq_args q)
     (exec_effect (rq_exec q) c))))))"

lemmas effect_defs = exec_effect_def args_effect_def prio_effect_def delay_effect_def
  ids_effect_def io_effect_def env_effect_def

lemmas action_steps =
  exec_msg.receiveActions_action args_msg.receiveActions_action prio_msg.receiveActions_action
  delay_msg.receiveActions_action ids_msg.receiveActions_action io_msg.receiveActions_action
  env_msg.receiveActions_action

lemmas effects_live =
  exec_msg.effect_live args_msg.effect_live prio_msg.effect_live delay_msg.effect_live
  ids_msg.effect_live io_msg.effect_live env_msg.effect_live

lemma request_effect_ready: "ready c \<Longrightarrow> ready (request_effect q c)"
  by (simp add: request_effect_def effect_defs ready_def live_def)

lemma receiveActions_request:
  assumes "ready c" "request_ok q"
  shows "receiveActions (with_rx (actions_wire q @ r) c)
    = (True, sendReply (with_rx r (request_effect q c)))"
proof -
  have "receiveActions (with_rx (actions_wire q @ r) c)
      = receiveActions (with_rx (msg_wire INVOKER_MSG_END @ r) (request_effect q c))"
    using assms unfolding actions_wire_def append_assoc request_effect_def
    by (simp only: action_steps effects_live request_ok_def ready_def simp_thms)
  also have "\<dots> = (True, sendReply (with_rx r (request_effect q c)))"
    using receiveActions_END [of "with_rx (msg_wire INVOKER_MSG_END @ r) (request_effect q c)" r]
      request_effect_ready [OF assms(1), of q] by (simp add: ready_def)
  finally show ?thesis .
qed

subsection \<open>The magic number\<close>

lemma receiveMagic_value:
  "receiveMagic c = (let (_, magic, c1) = recvMsg 0 c in
     (magic AND INVOKER_MSG_MAGIC_OPTION_MASK,
      c1\<lparr>c_sendPid := (magic AND INVOKER_MSG_MAGIC_OPTION_WAIT \<noteq> 0)\<rparr>))"
  by (auto simp: receiveMagic_def INVOKER_MSG_MAGIC_VERSION_def Let_def split: prod.splits)

lemma magic_bits:
  "(INVOKER_MSG_MAGIC OR INVOKER_MSG_MAGIC_VERSION OR w) AND INVOKER_MSG_MAGIC_OPTION_MASK
     = w AND INVOKER_MSG_MAGIC_OPTION_MASK"
  "(INVOKER_MSG_MAGIC OR INVOKER_MSG_MAGIC_VERSION OR w) AND INVOKER_MSG_MAGIC_OPTION_WAIT
     = w AND INVOKER_MSG_MAGIC_OPTION_WAIT"
  by (simp_all add: magic_defs option_defs word_ao_dist)

lemma options_masked: "options (setOptions (w AND INVOKER_MSG_MAGIC_OPTION_MASK) a) \<noteq> -1"
proof
  assume "options (setOptions (w AND INVOKER_MSG_MAGIC_OPTION_MASK) a) = -1"
  then have "sint (w AND INVOKER_MSG_MAGIC_OPTION_MASK) = -1"
    by (simp add: options_def setOptions_def)
  then have "word_of_int (sint (w AND INVOKER_MSG_MAGIC_OPTION_MASK)) = (-1 :: u32)"
    by (simp only: of_int_minus of_int_1)
  then have "w AND INVOKER_MSG_MAGIC_OPTION_MASK = -1" by simp
  then have "bit (w AND INVOKER_MSG_MAGIC_OPTION_MASK) 31" by simp
  then show False by (simp add: bit_and_iff option_defs)
qed

subsection \<open>The whole request\<close>

text \<open>The application data the booster ends up with.\<close>

definition app_of :: "request \<Rightarrow> appdata \<Rightarrow> appdata" where
  "app_of q a = a\<lparr>m_options := rq_options q, m_argc := int (length (rq_args q)),
     m_argv := Some (map Str (rq_args q)), m_appName := rq_name q, m_fileName := rq_exec q,
     m_prio := sint (word_of_int (rq_prio q) :: u32),
     m_delay := sint (word_of_int (rq_delay q) :: u32),
     m_ioDescriptors := rq_fds q, m_uid := rq_uid q, m_gid := rq_gid q\<rparr>"

lemma sint_of_int_u32:
  "-2147483648 \<le> k \<Longrightarrow> k < 2147483648 \<Longrightarrow> sint (word_of_int k :: u32) = k"
  by (simp add: signed_of_int signed_take_bit_int_eq_self_iff)

lemma sint_of_nat_u32: "n < 2147483648 \<Longrightarrow> sint (word_of_nat n :: u32) = int n"
  using sint_of_int_u32 [of "int n"] by simp

lemma receiveAppName_wire:
  assumes "live c" "str_ok s"
  shows "receiveAppName (with_rx (msg_wire INVOKER_MSG_NAME @ str_wire s @ r) c) = (s, with_rx r c)"
  using recvMsg_wire [of "with_rx (msg_wire INVOKER_MSG_NAME @ str_wire s @ r) c"]
    recvStr_wire [of "with_rx (str_wire s @ r) c" s r] assms
  by (simp add: receiveAppName_def)

definition sends_pid :: "request \<Rightarrow> bool" where
  "sends_pid q \<longleftrightarrow> rq_options q AND INVOKER_MSG_MAGIC_OPTION_WAIT \<noteq> 0"

definition after_request :: "request \<Rightarrow> item list \<Rightarrow> connection \<Rightarrow> connection" where
  "after_request q r c =
     sendReply (with_rx r (request_effect q (c\<lparr>c_sendPid := sends_pid q\<rparr>)))"

lemma receiveApplicationData_request:
  assumes "ready c" "request_ok q" "rx (c_sock c) = request_wire q @ r"
  shows "receiveApplicationData a c = (True, app_of q a, after_request q r c)"
proof -
  have live: "live c" using assms(1) by (simp add: ready_def)
  let ?c1 = "c\<lparr>c_sendPid := sends_pid q\<rparr>"
  let ?names = "msg_wire INVOKER_MSG_NAME @ str_wire (rq_name q) @ actions_wire q @ r"
  have "recvMsg 0 c = (True, INVOKER_MSG_MAGIC OR INVOKER_MSG_MAGIC_VERSION OR rq_options q,
      with_rx ?names c)"
    using assms(3) by (intro recvMsg_wire live) (simp add: request_wire_def)
  then have magic: "receiveMagic c = (rq_options q, with_rx ?names ?c1)"
    using assms(2) by (simp add: receiveMagic_value magic_bits request_ok_def sends_pid_def)
  have nofail: "options (setOptions (rq_options q) a) \<noteq> -1"
    using options_masked [of "rq_options q" a] assms(2) by (simp add: request_ok_def)
  have name: "receiveAppName (with_rx ?names ?c1) = (rq_name q, with_rx (actions_wire q @ r) ?c1)"
    using receiveAppName_wire [of ?c1 "rq_name q" "actions_wire q @ r"] live assms(2)
    by (simp add: request_ok_def)
  have actions: "receiveActions (with_rx (actions_wire q @ r) ?c1) = (True, after_request q r c)"
    using receiveActions_request [of ?c1 q r] assms(1,2)
    by (simp add: after_request_def ready_def)
  have fields: "c_uid (after_request q r c) = rq_uid q" "c_gid (after_request q r c) = rq_gid q"
    "c_io (after_request q r c) = rq_fds q" "c_argv (after_request q r c) = Some (map Str (rq_args q))"
    "c_argc (after_request q r c) = word_of_nat (length (rq_args q))"
    "c_delay (after_request q r c) = word_of_int (rq_delay q)"
    "c_priority (after_request q r c) = word_of_int (rq_prio q)"
    "c_fileName (after_request q r c) = rq_exec q"
    using assms(1) by (simp_all add: after_request_def sendReply_ready ready_def live_def
        request_effect_def effect_defs)
  have argc: "sint (word_of_nat (length (rq_args q)) :: u32) = int (length (rq_args q))"
    using assms(2) by (simp add: sint_of_nat_u32 request_ok_def args_ok_def)
  show ?thesis
    using nofail assms(2) unfolding receiveApplicationData_def magic Let_def prod.case name actions
    by (simp add: fields argc app_of_def appdata_setters request_ok_def)
qed

lemma after_request_fields:
  assumes "ready c"
  shows "c_sock (after_request q r c) = (c_sock c)\<lparr>rx := r,
      tx := tx (c_sock c) @ reply_wire (c\<lparr>c_sendPid := sends_pid q\<rparr>)\<rparr>"
    "c_environ (after_request q r c) = fold (env_enter (c_nomem c)) (rq_environ q) []"
    "c_sendPid (after_request q r c) = sends_pid q"
    "c_pid (after_request q r c) = c_pid c"
    "ready (after_request q r c)"
  using assms by (simp_all add: after_request_def sendReply_ready ready_def live_def
      request_effect_def effect_defs reply_wire_def)

text \<open>An environment of distinct names, every entry of the form name=value, is taken over as it is.\<close>

definition env_ok :: "(string \<Rightarrow> bool) \<Rightarrow> string list \<Rightarrow> bool" where
  "env_ok nomem es \<longleftrightarrow> distinct (map env_name es) \<and> (\<forall>e \<in> set es. putenv_sanitize e \<and> \<not> nomem e)"

lemma env_put_new: "env_name e \<notin> env_name ` set es \<Longrightarrow> env_put e es = es @ [e]"
  by (induction es) auto

lemma fold_env_enter:
  "env_ok nomem es \<Longrightarrow> env_name ` set es \<inter> env_name ` set acc = {} \<Longrightarrow>
     fold (env_enter nomem) es acc = acc @ es"
proof (induction es arbitrary: acc)
  case Nil
  then show ?case by simp
next
  case (Cons e es)
  from Cons.prems have "env_put e acc = acc @ [e]"
    by (intro env_put_new) auto
  with Cons.prems have "env_enter nomem e acc = acc @ [e]"
    by (simp add: env_enter_def env_ok_def)
  moreover have "fold (env_enter nomem) es (acc @ [e]) = (acc @ [e]) @ es"
    by (rule Cons.IH) (use Cons.prems in \<open>auto simp: env_ok_def\<close>)
  ultimately show ?case by simp
qed

subsection \<open>The invoker's reads\<close>

lemma invoke_recv_msg_wire:
  "rplan (i_sock i) = [] \<Longrightarrow> rx (i_sock i) = msg_wire w @ r \<Longrightarrow>
     invoke_recv_msg v i = (w, i\<lparr>i_sock := (i_sock i)\<lparr>rx := r\<rparr>\<rparr>)"
  by (simp add: invoke_recv_msg_def msg_wire_def sys_read_plain [where bs = "le32 w" and n = 4 and r = r])

lemma invoke_recv_msg_tx: "tx (i_sock (snd (invoke_recv_msg v i))) = tx (i_sock i)"
  by (auto simp: invoke_recv_msg_def split: prod.splits dest: sys_read_frame)

lemma invoke_recv_ack_tx: "invoke_recv_ack i = Returns i' \<Longrightarrow> tx (i_sock i') = tx (i_sock i)"
  using invoke_recv_msg_tx [of "i_junk i" i]
  by (auto simp: invoke_recv_ack_def split_def Let_def split: if_splits)

lemma invoker_recv_pid_tx:
  "invoker_recv_pid i = Returns (p, i') \<Longrightarrow> tx (i_sock i') = tx (i_sock i)"
  by (auto simp: invoker_recv_pid_def split_def Let_def split: if_splits)
    (metis invoke_recv_msg_tx snd_conv)

lemma invoker_recv_exit_tx: "tx (i_sock (snd (invoker_recv_exit i))) = tx (i_sock i)"
  by (simp add: invoker_recv_exit_def split_def Let_def invoke_recv_msg_tx)

lemma invoke_remote_tx:
  assumes "can_send i" "argv \<noteq> []"
    and "invoke_remote argv (Some prog) opts w respawn i = Returns (st, i')"
  shows "tx (i_sock i') = tx (i_sock i) @ request_wire (request_of argv prog opts respawn i)"
proof -
  let ?s = "sends i (request_wire (request_of argv prog opts respawn i))"
  obtain i10 where ack: "invoke_recv_ack ?s = Returns i10"
    and rest: "(if w then and_then (invoker_recv_pid i10) (\<lambda>(pid, i11).
             let (status, i13) = invoker_recv_exit (sigs_init (i11\<lparr>g_invoked_pid := sint pid\<rparr>))
             in Returns (sint status, sigs_restore i13))
      else Returns (0, i10)) = Returns (st, i')"
    using assms(3) unfolding invoke_remote_sends [OF assms(1,2)] and_then_eq_Returns by blast
  from rest have "tx (i_sock i') = tx (i_sock i10)"
    by (auto simp: and_then_eq_Returns sigs_restore_def split_def Let_def invoker_recv_exit_tx
        sigs_init_def invoker_recv_pid_tx split: if_splits)
  with invoke_recv_ack_tx [OF ack] show ?thesis by simp
qed

lemma invoke_remote_reply:
  assumes "can_send i" "argv \<noteq> []" "rplan (i_sock i) = []"
    and "rx (i_sock i) = msg_wire INVOKER_MSG_ACK @
      (if w then msg_wire INVOKER_MSG_PID @ msg_wire pid @ msg_wire INVOKER_MSG_EXIT @ msg_wire st
       else [])"
  shows "\<exists>i'. invoke_remote argv (Some prog) opts w respawn i
      = Returns (if w then sint st else 0, i') \<and>
    rx (i_sock i') = [] \<and> g_invoked_pid i' = (if w then sint pid else g_invoked_pid i) \<and>
    (w \<longrightarrow> \<not> i_forwarding i')"
proof -
  note rd = invoke_recv_msg_wire
  let ?s = "sends i (request_wire (request_of argv prog opts respawn i))"
  show ?thesis
  proof (cases w)
    case True
    with assms(3,4) show ?thesis
      unfolding invoke_remote_sends [OF assms(1,2)]
      by (simp add: invoke_recv_ack_def invoker_recv_pid_def invoker_recv_exit_def sigs_init_def
          sigs_restore_def Let_def
          rd [where w = INVOKER_MSG_ACK
            and r = "msg_wire INVOKER_MSG_PID @ msg_wire pid @ msg_wire INVOKER_MSG_EXIT @ msg_wire st"]
          rd [where w = INVOKER_MSG_PID and r = "msg_wire pid @ msg_wire INVOKER_MSG_EXIT @ msg_wire st"]
          rd [where w = pid and r = "msg_wire INVOKER_MSG_EXIT @ msg_wire st"]
          rd [where w = INVOKER_MSG_EXIT and r = "msg_wire st"]
          rd [where w = st and r = "[]"])
  next
    case False
    with assms(3,4) show ?thesis
      unfolding invoke_remote_sends [OF assms(1,2)]
      by (simp add: invoke_recv_ack_def Let_def rd [where w = INVOKER_MSG_ACK and r = "[]"], simp add: sends_def)
  qed
qed

lemma request_okI:
  assumes "opts AND INVOKER_MSG_MAGIC_OPTION_MASK = opts" "args_ok argv" "hd argv \<noteq> []" "str_ok prog"
    "args_ok (i_environ i)"
  shows "request_ok (request_of argv prog opts respawn i)"
proof -
  from assms(2) have "hd argv \<in> set argv" "\<forall>s \<in> set argv. str_ok s"
    by (auto simp: args_ok_def)
  with assms show ?thesis by (auto simp: request_ok_def request_of_def)
qed

text \<open>What the booster stores of a request, and the lemma that a sent request arrives.\<close>

definition delivered :: "(int \<Rightarrow> int) \<Rightarrow> string list \<Rightarrow> string \<Rightarrow> u32 \<Rightarrow> int \<Rightarrow> invoker \<Rightarrow> appdata" where
  "delivered install argv prog opts respawn i =
     \<lparr>m_options = opts, m_argc = int (length argv), m_argv = Some (map Str argv),
      m_appName = hd argv, m_fileName = prog,
      m_prio = (if i_errno i \<noteq> 0 \<and> i_priority i < 0 then 0 else i_priority i),
      m_delay = respawn, m_entry = None, m_ioDescriptors = map install [0, 1, 2],
      m_gid = i_gid i, m_uid = i_uid i, m_peerCreds = None\<rparr>"

definition sendable :: "connection \<Rightarrow> string list \<Rightarrow> string \<Rightarrow> invoker \<Rightarrow> bool" where
  "sendable c argv prog i \<longleftrightarrow> args_ok argv \<and> hd argv \<noteq> [] \<and> str_ok prog \<and>
     args_ok (i_environ i) \<and> env_ok (c_nomem c) (i_environ i) \<and>
     -2147483648 \<le> i_priority i \<and> i_priority i < 2147483648"

lemma request_delivered:
  assumes "can_send i" "tx (i_sock i) = []"
    and "invoke_remote argv (Some prog) opts w respawn i = Returns (st, i')"
    and "opts AND INVOKER_MSG_MAGIC_OPTION_MASK = opts" "sendable c argv prog i"
    and "-2147483648 \<le> respawn" "respawn < 2147483648"
    and "ready c" "tx (c_sock c) = []" "rx (c_sock c) = deliver install (tx (i_sock i'))"
  shows "\<exists>c'. receiveApplicationData AppData_init c =
      (True, delivered install argv prog opts respawn i, c')
    \<and> c_environ c' = i_environ i \<and> rx (c_sock c') = []
    \<and> tx (c_sock c') = msg_wire INVOKER_MSG_ACK @
        (if opts AND INVOKER_MSG_MAGIC_OPTION_WAIT \<noteq> 0
         then msg_wire INVOKER_MSG_PID @ msg_wire (word_of_int (c_pid c)) else [])"
proof -
  let ?q = "(request_of argv prog opts respawn i)\<lparr>rq_fds := map install [0, 1, 2]\<rparr>"
  note s = assms(5) [unfolded sendable_def]
  have argv: "argv \<noteq> []" using s by (auto simp: args_ok_def)
  have ok: "request_ok ?q"
    using request_okI [of opts argv prog i respawn] assms(4) s by (simp add: request_ok_def)
  have rx: "rx (c_sock c) = request_wire ?q @ []"
    using invoke_remote_tx [OF assms(1) argv assms(3)] assms(2,10)
    by (simp add: deliver_request request_of_def)
  have "app_of ?q AppData_init = delivered install argv prog opts respawn i"
    using assms(6,7) s sint_of_int_u32 [of respawn] sint_of_int_u32 [of "i_priority i"]
    by (simp add: app_of_def AppData_init_def request_of_def delivered_def)
  moreover have "fold (env_enter (c_nomem c)) (i_environ i) [] = i_environ i"
    using fold_env_enter [of "c_nomem c" "i_environ i" "[]"] s by simp
  ultimately show ?thesis
    using receiveApplicationData_request [OF assms(8) ok rx] assms(9)
    by (simp add: after_request_fields [OF assms(8)] reply_wire_def sends_pid_def request_of_def)
qed

subsection \<open>The session\<close>

text \<open>
  C1. What the invoker writes is what the booster gets: when \<open>invoke_remote\<close> returns, the
  bytes it wrote, delivered to a freshly accepted connection, make
  \<open>receiveApplicationData\<close> succeed with exactly the invoker's options, arguments,
  program, priority, delay and ids, the installed descriptors and the invoker's
  environment; nothing is left unread, and the acknowledgement (and the pid, if the
  invoker waits) is all that is answered.
\<close>

theorem request_reaches_booster:
  assumes "can_send i" "tx (i_sock i) = []"
    and "invoke_remote argv (Some prog) opts w respawn i = Returns (st, i')"
    and "opts AND INVOKER_MSG_MAGIC_OPTION_MASK = opts" "args_ok argv" "hd argv \<noteq> []"
      "str_ok prog" "args_ok (i_environ i)" "env_ok (c_nomem c) (i_environ i)"
    and "-2147483648 \<le> respawn" "respawn < 2147483648"
      "-2147483648 \<le> i_priority i" "i_priority i < 2147483648"
    and "ready c" "tx (c_sock c) = []" "rx (c_sock c) = deliver install (tx (i_sock i'))"
  shows "\<exists>c'. receiveApplicationData AppData_init c =
      (True, \<lparr>m_options = opts, m_argc = int (length argv), m_argv = Some (map Str argv),
              m_appName = hd argv, m_fileName = prog,
              m_prio = (if i_errno i \<noteq> 0 \<and> i_priority i < 0 then 0 else i_priority i),
              m_delay = respawn, m_entry = None, m_ioDescriptors = map install [0, 1, 2],
              m_gid = i_gid i, m_uid = i_uid i, m_peerCreds = None\<rparr>, c')
    \<and> c_environ c' = i_environ i \<and> rx (c_sock c') = []
    \<and> tx (c_sock c') = msg_wire INVOKER_MSG_ACK @
        (if opts AND INVOKER_MSG_MAGIC_OPTION_WAIT \<noteq> 0
         then msg_wire INVOKER_MSG_PID @ msg_wire (word_of_int (c_pid c)) else [])"
proof -
  have "sendable c argv prog i" using assms(5-9,12,13) by (simp add: sendable_def)
  from request_delivered [OF assms(1-4) this assms(10,11,14-16)] show ?thesis
    by (simp add: delivered_def)
qed

text \<open>A concrete pair of processes: the invoker before the call, an accepted connection.\<close>

definition example_invoker :: "item list \<Rightarrow> invoker" where
  "example_invoker r = \<lparr>i_sock = \<lparr>rx = r, tx = [], rplan = [], wplan = []\<rparr>, i_junk = 77,
     i_environ = [''A=1'', ''PATH=/bin''], i_uid = 29999, i_gid = 500, i_errno = 0,
     i_priority = 5, g_invoked_pid = -1, i_forwarding = False, i_slept = []\<rparr>"

definition example_connection :: "item list \<Rightarrow> connection" where
  "example_connection r = \<lparr>c_testMode = False, c_fd = 9, c_curSocket = 4, c_fileName = [],
     c_argc = 0, c_argv = None, c_io = [-1, -1, -1], c_priority = 0, c_delay = 0,
     c_sendPid = False, c_gid = 0, c_uid = 0,
     c_sock = \<lparr>rx = r, tx = [], rplan = [], wplan = []\<rparr>, c_environ = [''OLD=1''],
     c_nomem = (\<lambda>_. False), c_junk = (\<lambda>_. CHR ''x''), c_pid = 321\<rparr>"

lemma example_fields [simp]:
  "can_send (example_invoker r)" "tx (i_sock (example_invoker r)) = []"
  "rplan (i_sock (example_invoker r)) = []" "rx (i_sock (example_invoker r)) = r"
  "i_environ (example_invoker r) = [''A=1'', ''PATH=/bin'']" "i_priority (example_invoker r) = 5"
  "i_errno (example_invoker r) = 0" "i_uid (example_invoker r) = 29999"
  "i_gid (example_invoker r) = 500"
  "ready (example_connection r)" "tx (c_sock (example_connection r)) = []"
  "rx (c_sock (example_connection r)) = r" "c_nomem (example_connection r) = (\<lambda>_. False)"
  "c_pid (example_connection r) = 321"
  by (simp_all add: example_invoker_def example_connection_def can_send_def ready_def live_def)

lemma example_limits [simp]:
  "args_ok [''app'', ''-x'']" "str_ok ''/bin/app''" "args_ok [''A=1'', ''PATH=/bin'']"
  "env_ok (\<lambda>_. False) [''A=1'', ''PATH=/bin'']"
  by (simp_all add: args_ok_def str_ok_def env_ok_def env_name_def putenv_sanitize_def)

definition example_reply :: "item list" where
  "example_reply = msg_wire INVOKER_MSG_ACK @ msg_wire INVOKER_MSG_PID @ msg_wire 321 @
     msg_wire INVOKER_MSG_EXIT @ msg_wire 7"

theorem request_reaches_booster_witness:
  "\<exists>i' c'. invoke_remote [''app'', ''-x''] (Some ''/bin/app'') 9 True 3
        (example_invoker example_reply) = Returns (7, i') \<and>
     receiveApplicationData AppData_init
       (example_connection (deliver (\<lambda>n. n + 10) (tx (i_sock i')))) =
       (True, \<lparr>m_options = 9, m_argc = 2, m_argv = Some [Str ''app'', Str ''-x''],
              m_appName = ''app'', m_fileName = ''/bin/app'', m_prio = 5, m_delay = 3,
              m_entry = None, m_ioDescriptors = [10, 11, 12], m_gid = 500, m_uid = 29999,
              m_peerCreds = None\<rparr>, c') \<and>
     c_environ c' = [''A=1'', ''PATH=/bin''] \<and> rx (c_sock c') = []"
proof -
  obtain i' where run: "invoke_remote [''app'', ''-x''] (Some ''/bin/app'') 9 True 3
        (example_invoker example_reply) = Returns (7, i')"
    using invoke_remote_reply [of "example_invoker example_reply" "[''app'', ''-x'']" True 321 7
        "''/bin/app''" 9 3]
    by (auto simp: example_reply_def)
  have opts: "(9 :: u32) AND INVOKER_MSG_MAGIC_OPTION_MASK = 9" by (simp add: option_defs)
  show ?thesis
    using run request_reaches_booster [OF _ _ run opts, where install = "\<lambda>n. n + 10"
        and c = "example_connection (deliver (\<lambda>n. n + 10) (tx (i_sock i')))"]
    by auto
qed

text \<open>
  C5. The answers reach the invoker: if the invoker's socket delivers what the booster
  wrote while it served the invoker's request and, for a waiting invoker, reported the
  application's exit status, then \<open>invoke_remote\<close> returns that status, remembers the
  pid of the application for signal forwarding and has forwarding switched off again.
\<close>

theorem status_reaches_invoker:
  assumes "can_send i" "rplan (i_sock i) = []"
    and "opts AND INVOKER_MSG_MAGIC_OPTION_MASK = opts" "args_ok argv" "hd argv \<noteq> []"
      "str_ok prog" "args_ok (i_environ i)"
    and "w \<longleftrightarrow> opts AND INVOKER_MSG_MAGIC_OPTION_WAIT \<noteq> 0"
    and "ready c" "tx (c_sock c) = []"
      "rx (c_sock c) = deliver install (request_wire (request_of argv prog opts respawn i))"
    and "receiveApplicationData a c = (ok, a', c')"
    and "rx (i_sock i) = tx (c_sock (if w then snd (sendAppExitStatus status c') else c'))"
    and "-2147483648 \<le> status" "status < 2147483648"
      "-2147483648 \<le> c_pid c" "c_pid c < 2147483648"
  shows "ok \<and> (\<exists>i'. invoke_remote argv (Some prog) opts w respawn i
        = Returns (if w then status else 0, i') \<and>
      g_invoked_pid i' = (if w then c_pid c else g_invoked_pid i) \<and>
      rx (i_sock i') = [] \<and> (w \<longrightarrow> \<not> i_forwarding i'))"
proof -
  let ?q = "(request_of argv prog opts respawn i)\<lparr>rq_fds := map install [0, 1, 2]\<rparr>"
  have argv: "argv \<noteq> []" using assms(4) by (auto simp: args_ok_def)
  have okq: "request_ok ?q" using request_okI [OF assms(3-7)] by (simp add: request_ok_def)
  have rx: "rx (c_sock c) = request_wire ?q @ []"
    using assms(11) by (simp add: deliver_request request_of_def)
  have res: "ok" "c' = after_request ?q [] c"
    using receiveApplicationData_request [OF assms(9) okq rx, of a] assms(12) by simp_all
  have pid: "sends_pid ?q = w" using assms(8) by (simp add: sends_pid_def request_of_def)
  have "rx (i_sock i) = msg_wire INVOKER_MSG_ACK @
      (if w then msg_wire INVOKER_MSG_PID @ msg_wire (word_of_int (c_pid c)) @
         msg_wire INVOKER_MSG_EXIT @ msg_wire (word_of_int status) else [])"
    using assms(10,13) after_request_fields [OF assms(9), of ?q "[]"] pid
    by (simp add: res(2) reply_wire_def sendAppExitStatus_tx)
  from invoke_remote_reply [OF assms(1) argv assms(2) this, of prog opts respawn] res(1)
  show ?thesis
    using assms(14-17) by (auto simp: sint_of_int_u32)
qed

theorem status_reaches_invoker_witness:
  "\<exists>a' c'. receiveApplicationData AppData_init (example_connection (deliver (\<lambda>n. n)
        (request_wire (request_of [''app''] ''/bin/app'' 1 3 (example_invoker []))))) = (True, a', c') \<and>
     (\<exists>i'. invoke_remote [''app''] (Some ''/bin/app'') 1 True 3
        (example_invoker (tx (c_sock (snd (sendAppExitStatus (-6) c'))))) = Returns (-6, i') \<and>
       g_invoked_pid i' = 321)"
proof -
  let ?c = "example_connection (deliver (\<lambda>n. n)
    (request_wire (request_of [''app''] ''/bin/app'' 1 3 (example_invoker []))))"
  obtain ok a' c' where r: "receiveApplicationData AppData_init ?c = (ok, a', c')"
    by (cases "receiveApplicationData AppData_init ?c")
  let ?i = "example_invoker (tx (c_sock (snd (sendAppExitStatus (-6) c'))))"
  have q: "request_of [''app''] ''/bin/app'' 1 3 ?i
      = request_of [''app''] ''/bin/app'' 1 3 (example_invoker [])"
    by (simp add: request_of_def example_invoker_def)
  have o: "(1 :: u32) AND INVOKER_MSG_MAGIC_OPTION_MASK = 1"
    "True \<longleftrightarrow> (1 :: u32) AND INVOKER_MSG_MAGIC_OPTION_WAIT \<noteq> 0"
    by (simp_all add: option_defs)
  have l: "args_ok [''app'']" by (simp add: args_ok_def str_ok_def)
  have "ok \<and> (\<exists>i'. invoke_remote [''app''] (Some ''/bin/app'') 1 True 3 ?i
        = Returns (if True then - 6 else 0, i') \<and>
      g_invoked_pid i' = (if True then c_pid ?c else g_invoked_pid ?i) \<and>
      rx (i_sock i') = [] \<and> (True \<longrightarrow> \<not> i_forwarding i'))"
    by (rule status_reaches_invoker [where install = "\<lambda>n. n" and respawn = 3, OF _ _ o(1) l _ _ _ o(2) _ _ _ r])
      (simp_all add: q)
  then show ?thesis using r by auto
qed

end
