(* ===== verification/Connection_Safety.thy ===== *)
theory Connection_Safety
  imports Handshake
begin

text \<open>
  What the booster's side of the conversation guarantees against any peer: whatever
  bytes arrive and however the reads are cut short, strings and vectors stay within
  their limits, the acknowledgement is sent exactly when the request was complete, and
  an unauthorised peer is turned away. The last section shows where the code accepts
  what it means to refuse.
\<close>

subsection \<open>Strings\<close>

lemma fd_read_ret:
  "fd_read n c = (ret, bs, c') \<Longrightarrow> ret = -1 \<and> bs = [] \<or> ret = int (length bs) \<and> length bs \<le> n"
  by (auto simp: fd_read_def split: if_splits prod.splits dest: sys_read_ret)

lemma recvStr_bounded:
  assumes "recvStr c = (Str s, c')"
  shows "str_ok s"
proof -
  obtain res n c1 where m: "recvMsg 0 c = (res, n, c1)" by (cases "recvMsg 0 c") auto
  obtain ret bs c2 where r: "fd_read (unat n) c1 = (ret, bs, c2)" by (cases "fd_read (unat n) c1") auto
  let ?buf = "recv_buffer c2 (unat n) bs"
  from assms m r have n: "n \<noteq> 0" "n \<le> STR_LEN_MAX" and s: "s = c_str (?buf[unat n - 1 := NUL])"
    by (auto simp: recvStr_def Let_def split: if_splits)
  from r have "length bs \<le> unat n" using fd_read_ret by fastforce
  then have len: "length ?buf = unat n" by (simp add: recv_buffer_def)
  moreover have "0 < unat n" "unat n \<le> 4096"
    using n by (simp_all add: STR_LEN_MAX_def word_le_nat_alt unat_gt_0)
  ultimately have "length s < unat n"
    using length_c_str_update_last [of ?buf] s by fastforce
  with \<open>unat n \<le> 4096\<close> s show ?thesis by (simp add: str_ok_def)
qed

lemma recvStr_not_indeterminate: "recvStr c \<noteq> (Indeterminate, c')"
  by (auto simp: recvStr_def Let_def split: if_splits prod.splits)

lemma recvStr_cases:
  obtains (Null) c' where "recvStr c = (NullPtr, c')"
  | (String) s c' where "recvStr c = (Str s, c')" "str_ok s"
proof -
  assume n: "\<And>c'. recvStr c = (NullPtr, c') \<Longrightarrow> thesis"
    and s: "\<And>s c'. recvStr c = (Str s, c') \<Longrightarrow> str_ok s \<Longrightarrow> thesis"
  obtain p c' where r: "recvStr c = (p, c')" by (cases "recvStr c")
  show thesis
  proof (cases p)
    case NullPtr
    with r n show ?thesis by simp
  next
    case Indeterminate
    with r recvStr_not_indeterminate show ?thesis by simp
  next
    case (Str t)
    with r s recvStr_bounded show ?thesis by simp
  qed
qed

text \<open>
  C21. Whatever arrives, a string that \<open>recvStr\<close> returns is a terminated C string of at
  most 4095 bytes: an application name, a file name, an argument or a variable never
  exceeds the protocol's limit. (All three callers that store a string are covered.)
\<close>

theorem received_strings_bounded:
  "(case recvStr c of (Str s, _) \<Rightarrow> is_c_str s \<and> length s < 4096 | (_, _) \<Rightarrow> True) \<and>
   (let (name, _) = receiveAppName c in is_c_str name \<and> length name < 4096) \<and>
   (let (ok, c') = receiveExec c
    in if ok then is_c_str (c_fileName c') \<and> length (c_fileName c') < 4096
       else c_fileName c' = c_fileName c)"
proof -
  have field: "c_fileName (snd (recvStr c)) = c_fileName c"
    by (auto simp: recvStr_def recvMsg_def fd_read_def Let_def split: prod.splits)
  have "case recvStr c of (Str s, _) \<Rightarrow> is_c_str s \<and> length s < 4096 | (_, _) \<Rightarrow> True"
    by (cases c rule: recvStr_cases) (auto simp: str_ok_def)
  moreover have "let (name, _) = receiveAppName c in is_c_str name \<and> length name < 4096"
  proof (cases "recvMsg 0 c")
    case (fields ok msg c1)
    then show ?thesis
      by (cases c1 rule: recvStr_cases) (auto simp: receiveAppName_def str_ok_def)
  qed
  moreover have "let (ok, c') = receiveExec c
    in if ok then is_c_str (c_fileName c') \<and> length (c_fileName c') < 4096
       else c_fileName c' = c_fileName c"
    using field by (cases c rule: recvStr_cases) (auto simp: receiveExec_def str_ok_def)
  ultimately show ?thesis by blast
qed

subsection \<open>The argument vector\<close>

lemma recvStr_argv: "recvStr c = (p, c') \<Longrightarrow> c_argv c' = c_argv c \<and> c_argc c' = c_argc c
    \<and> c_environ c' = c_environ c \<and> c_fileName c' = c_fileName c"
  by (auto simp: recvStr_def recvMsg_def fd_read_def Let_def split: prod.splits if_splits)

lemma recvMsg_argv: "recvMsg v c = (b, w, c') \<Longrightarrow> c_argv c' = c_argv c \<and> c_argc c' = c_argc c
    \<and> c_environ c' = c_environ c"
  by (auto simp: recvMsg_def fd_read_def Let_def split: prod.splits if_splits)

definition is_string :: "cptr \<Rightarrow> bool" where
  "is_string p \<longleftrightarrow> (\<exists>s. p = Str s \<and> str_ok s)"

lemma recv_argv_loop_cells:
  assumes "recv_argv_loop i n c = (ok, c')" "c_argv c = Some a" "length a = i + n"
    "\<forall>p \<in> set (take i a). is_string p"
  shows "\<exists>a'. c_argv c' = Some a' \<and> length a' = length a \<and> c_argc c' = c_argc c \<and>
    (if ok then \<forall>p \<in> set a'. is_string p
     else \<exists>j < length a. a' ! j = NullPtr \<and> (\<forall>p \<in> set (take j a'). is_string p))"
  using assms
proof (induction i n c arbitrary: a rule: recv_argv_loop.induct)
  case (1 i c)
  then show ?case by simp
next
  case (2 i n c)
  obtain p c1 where r: "recvStr c = (p, c1)" by (cases "recvStr c")
  define c2 where "c2 = c1\<lparr>c_argv := map_option (\<lambda>a. a[i := p]) (c_argv c1)\<rparr>"
  have c2: "c_argv c2 = Some (a[i := p])" "c_argc c2 = c_argc c"
    using recvStr_argv [OF r] "2.prems"(2) by (simp_all add: c2_def)
  have takes: "take (Suc i) (a[i := p]) = take i a @ [p]"
    using "2.prems"(3) by (simp add: take_Suc_conv_app_nth)
  show ?case
  proof (cases "p = NullPtr")
    case True
    with "2.prems" r have "ok = False" "c' = c2" by (auto simp: c2_def Let_def)
    with True c2 "2.prems"(3,4) show ?thesis
      by (auto intro!: exI [of _ i])
  next
    case False
    then have s: "is_string p"
      using r by (cases c rule: recvStr_cases) (auto simp: is_string_def)
    have "recv_argv_loop (Suc i) n c2 = (ok, c')"
      using "2.prems"(1) r False by (simp add: c2_def Let_def)
    from "2.IH" [OF r [symmetric] refl c2_def False this c2(1)] "2.prems"(3,4) s takes c2(2)
    show ?thesis by auto
  qed
qed

text \<open>
  C20. The argument vector after \<open>receiveArgs\<close>, for any input: on success it has exactly
  \<open>argc\<close> cells, between 1 and 1023, and every cell is a bounded C string. When a string
  fails, the vector has \<open>argc\<close> cells, strings up to a null pointer at the failing
  index. When the count is refused, the old vector stays (and does not fit the count).
\<close>

theorem received_argv:
  assumes "receiveArgs c = (ok, c')"
  shows "if ok then 0 < c_argc c' \<and> c_argc c' < 1024 \<and>
           (\<exists>ps. c_argv c' = Some ps \<and> length ps = unat (c_argc c') \<and> (\<forall>p \<in> set ps. is_string p))
         else if 0 < c_argc c' \<and> c_argc c' < 1024
         then \<exists>ps j. c_argv c' = Some ps \<and> length ps = unat (c_argc c') \<and> j < length ps \<and>
                ps ! j = NullPtr \<and> (\<forall>p \<in> set (take j ps). is_string p)
         else c_argv c' = c_argv c"
proof -
  obtain r n c1 where m: "recvMsg (c_argc c) c = (r, n, c1)" by (cases "recvMsg (c_argc c) c") auto
  let ?c = "c1\<lparr>c_argc := n, c_argv := Some (replicate (unat n) Indeterminate)\<rparr>"
  show ?thesis
  proof (cases "n > 0 \<and> n < ARGC_MAX")
    case True
    with m assms have "recv_argv_loop 0 (unat n) ?c = (ok, c')"
      by (simp add: receiveArgs_def)
    from recv_argv_loop_cells [OF this, of "replicate (unat n) Indeterminate"]
    have "\<exists>a'. c_argv c' = Some a' \<and> length a' = unat n \<and> c_argc c' = n \<and>
      (if ok then \<forall>p \<in> set a'. is_string p
       else \<exists>j < unat n. a' ! j = NullPtr \<and> (\<forall>p \<in> set (take j a'). is_string p))"
      by (simp split del: if_split cong: if_cong)
    then obtain a' where a': "c_argv c' = Some a'" "length a' = unat n" "c_argc c' = n"
      "if ok then \<forall>p \<in> set a'. is_string p
       else \<exists>j < unat n. a' ! j = NullPtr \<and> (\<forall>p \<in> set (take j a'). is_string p)"
      by blast
    with True show ?thesis by (cases ok) (auto simp: ARGC_MAX_def)
  next
    case False
    with m assms have "ok = False" "c' = c1\<lparr>c_argc := n\<rparr>"
      by (auto simp: receiveArgs_def)
    with False recvMsg_argv [OF m] show ?thesis by (auto simp: ARGC_MAX_def)
  qed
qed

lemma example_live [simp]: "live (example_connection r)"
  by (simp add: example_connection_def live_def)

theorem received_argv_witness:
  "\<exists>c' ps. receiveArgs (example_connection (args_wire [''a'', ''-b''])) = (True, c') \<and>
     c_argv c' = Some ps \<and> length ps = unat (c_argc c') \<and> (\<forall>p \<in> set ps. is_string p)"
proof -
  let ?c = "example_connection (args_wire [''a'', ''-b''])"
  have r: "receiveArgs ?c = (True, args_effect [''a'', ''-b''] (with_rx [] ?c))"
    by (rule args_msg.recv_enc) (simp_all add: args_ok_def str_ok_def)
  show ?thesis using received_argv [OF r] r by auto
qed

subsection \<open>The environment\<close>

definition env_wf :: "string list \<Rightarrow> bool" where
  "env_wf es \<longleftrightarrow> distinct (map env_name es) \<and> (\<forall>e \<in> set es. putenv_sanitize e \<and> str_ok e)"

lemma set_env_put: "set (env_put s es) \<subseteq> insert s (set es)"
  by (induction s es rule: env_put.induct) auto

lemma env_put_names:
  "\<forall>e \<in> set es. putenv_sanitize e \<Longrightarrow>
     set (map env_name (env_put s es)) = insert (env_name s) (set (map env_name es))"
  by (induction s es rule: env_put.induct) auto

lemma env_put_distinct:
  "\<forall>e \<in> set es. putenv_sanitize e \<Longrightarrow> distinct (map env_name es) \<Longrightarrow>
     distinct (map env_name (env_put s es))"
proof (induction s es rule: env_put.induct)
  case (2 s e es)
  then show ?case
    using env_put_names [of es s] by auto
qed simp

lemma env_wf_put: "env_wf es \<Longrightarrow> putenv_sanitize s \<Longrightarrow> str_ok s \<Longrightarrow> env_wf (env_put s es)"
  using set_env_put [of s es] env_put_distinct [of es s] by (auto simp: env_wf_def)

lemma recv_env_loop_wf: "recv_env_loop n c = (ok, c') \<Longrightarrow> env_wf (c_environ c) \<Longrightarrow> env_wf (c_environ c')"
proof (induction n c rule: recv_env_loop.induct)
  case (1 c)
  then show ?case by simp
next
  case (2 n c)
  show ?case
  proof (cases c rule: recvStr_cases)
    case (Null c1)
    then show ?thesis using "2.prems" recvStr_argv [OF Null] by simp
  next
    case (String v c1)
    have e: "c_environ c1 = c_environ c" using recvStr_argv [OF String(1)] by simp
    show ?thesis
    proof (cases "putenv_sanitize v")
      case True
      have "env_wf (c_environ (snd (putenv_wrapper v c1)))"
        using "2.prems"(2) True String(2) e by (simp add: putenv_wrapper_def env_wf_put)
      then show ?thesis
        using "2.IH"(1) [OF String(1) [symmetric] refl True] "2.prems"(1) String(1) True by simp
    next
      case False
      then show ?thesis
        using "2.IH"(2) [OF String(1) [symmetric] refl False] "2.prems" String(1) e by simp
    qed
  qed
qed

text \<open>
  C22. The environment action replaces the whole environment of the booster, and whatever
  the peer sends, the new one is well formed: every entry has an equals sign and is a
  bounded C string, and no name occurs twice. Nothing of the old environment survives.
\<close>

theorem received_environment_wf:
  "(case receiveAction INVOKER_MSG_ENV c of Some c' \<Rightarrow> env_wf (c_environ c') | None \<Rightarrow> False) \<and>
   map_option c_environ (receiveAction INVOKER_MSG_ENV (c\<lparr>c_environ := old\<rparr>)) =
   map_option c_environ (receiveAction INVOKER_MSG_ENV c)"
proof -
  let ?c = "c\<lparr>c_environ := []\<rparr>"
  obtain r n c1 where m: "recvMsg 0 ?c = (r, n, c1)" by (cases "recvMsg 0 ?c") auto
  have e: "c_environ c1 = []" using recvMsg_argv [OF m] by simp
  have "env_wf (c_environ (snd (receiveEnv ?c)))"
  proof (cases "n > 0 \<and> n < MAX_VARS")
    case True
    obtain ok c' where l: "recv_env_loop (unat n) c1 = (ok, c')" by (cases "recv_env_loop (unat n) c1")
    with True m recv_env_loop_wf [OF l] e show ?thesis
      by (simp add: receiveEnv_def env_wf_def)
  next
    case False
    with m e show ?thesis by (auto simp: receiveEnv_def env_wf_def)
  qed
  then show ?thesis by (simp add: receiveAction_def)
qed

subsection \<open>The acknowledgement\<close>

lemma receiveActions_reply:
  "receiveActions c = (ok, c') \<Longrightarrow> ok = False \<and> only_receives c c' \<or>
     ok = True \<and> (\<exists>d. only_receives c d \<and> c' = sendReply d)"
proof (induction c arbitrary: ok c' rule: receiveActions.induct)
  case (1 c)
  obtain r action c1 where m: "recvMsg 0 c = (r, action, c1)" by (cases "recvMsg 0 c") auto
  have c1: "only_receives c c1" by (rule recvMsg_receives [OF m])
  show ?case
  proof (cases "action = INVOKER_MSG_END")
    case True
    with "1.prems" m c1 show ?thesis by (subst (asm) receiveActions.simps) auto
  next
    case False
    show ?thesis
    proof (cases "receiveAction action c1")
      case None
      with "1.prems" m c1 False show ?thesis by (subst (asm) receiveActions.simps) auto
    next
      case (Some c2)
      with "1.prems" m False have "receiveActions c2 = (ok, c')"
        by (subst (asm) receiveActions.simps) auto
      from "1.IH" [OF m [symmetric] refl refl False Some this] receiveAction_receives [OF Some] c1
      show ?thesis by (blast intro: only_receives_trans)
    qed
  qed
qed

text \<open>
  C17. The receive loop ends on every input (it is a total function), and its verdict is
  what the invoker is told: if it reports success, exactly one acknowledgement (and the
  pid when the request asked to wait) has been written, and if it reports failure,
  nothing has. In both cases it only consumed input.
\<close>

theorem acknowledged_iff_complete:
  assumes "receiveActions c = (ok, c')" "\<not> c_testMode c" "0 \<le> c_fd c" "wplan (c_sock c) = []"
  shows "tx (c_sock c') = tx (c_sock c) @
      (if ok then msg_wire INVOKER_MSG_ACK @
          (if c_sendPid c then msg_wire INVOKER_MSG_PID @ msg_wire (word_of_int (c_pid c)) else [])
       else []) \<and> length (rx (c_sock c')) \<le> length (rx (c_sock c))"
proof -
  have reply: "c_sock (sendReply d) = (c_sock d)\<lparr>tx := tx (c_sock d) @ reply_wire d\<rparr>"
    if "only_receives c d" for d
    using that assms(2-4)
    by (simp add: sendReply_def sendPid_def sendMsg_def fd_write_def only_receives_def reply_wire_def
        msg_wire_def Let_def)
  show ?thesis
    using receiveActions_reply [OF assms(1)] reply
    by (auto simp: only_receives_def pending_def reply_wire_def)
qed

theorem acknowledged_iff_complete_witness:
  "\<exists>c'. receiveActions (example_connection (msg_wire 5)) = (False, c') \<and> tx (c_sock c') = []"
proof -
  let ?c = "example_connection (msg_wire 5)"
  have c: "\<not> c_testMode ?c" "0 \<le> c_fd ?c" "wplan (c_sock ?c) = []"
    by (simp_all add: example_connection_def)
  have m: "recvMsg 0 ?c = (True, 5, with_rx [] ?c)"
    by (rule recvMsg_wire) (simp_all add: live_def example_connection_def)
  have "fst (receiveActions ?c) = False"
    by (subst receiveActions.simps) (simp add: m receiveAction_def action_defs)
  then obtain c' where r: "receiveActions ?c = (False, c')" by (metis prod.collapse)
  then show ?thesis using acknowledged_iff_complete [OF r c] by simp
qed

subsection \<open>Unauthorised peers\<close>

text \<open>
  C23. With verification built in, a peer without the required credentials gets the
  \<open>BAD_CREDS\<close> message and nothing else: \<open>accept\<close> fails, the connection is closed (so
  every later send fails), nothing of what the peer sent is read, and an invoker that
  reads the answer dies with status 1.
\<close>

theorem unauthorised_peer_rejected:
  assumes "HAVE_CREDS cfg" "\<not> DISABLE_VERIFICATION cfg" "\<not> creds_have_p cfg (creds_getpeer cfg fd)"
    and "\<not> c_testMode c" "0 \<le> fd" "wplan s = []" "tx s = []"
    and "rplan (i_sock i) = []" "rx (i_sock i) = tx (c_sock (snd (snd (accept cfg fd s a c))))"
  shows "\<exists>c'. accept cfg fd s a c = (False, setPeerCreds (creds_getpeer cfg fd) a, c') \<and>
    \<not> connected c' \<and> rx (c_sock c') = rx s \<and> tx (c_sock c') = msg_wire INVOKER_MSG_BAD_CREDS \<and>
    sendMsg m c' = (False, c') \<and> invoke_recv_ack i = Exits 1"
proof -
  let ?c = "c\<lparr>c_fd := -1, c_sock := s\<lparr>tx := msg_wire INVOKER_MSG_BAD_CREDS\<rparr>\<rparr>"
  have acc: "accept cfg fd s a c = (False, setPeerCreds (creds_getpeer cfg fd) a, ?c)"
    using assms(1-7)
    by (simp add: accept_def sendMsg_def fd_write_def close_conn_def msg_wire_def Let_def)
  moreover have "invoke_recv_ack i = Exits 1"
    using assms(8,9) acc invoke_recv_msg_wire [of i INVOKER_MSG_BAD_CREDS "[]" "i_junk i"]
    by (simp add: invoke_recv_ack_def)
  ultimately show ?thesis
    using assms(4) by (simp add: connected_def sendMsg_def fd_write_def)
qed

theorem unauthorised_peer_rejected_witness:
  "\<exists>c'. accept \<lparr>HAVE_CREDS = True, DISABLE_VERIFICATION = False, creds_getpeer = (\<lambda>_. 3),
      creds_have_p = (\<lambda>k. k = 4)\<rparr> 9 \<lparr>rx = msg_wire 7, tx = [], rplan = [], wplan = []\<rparr>
      AppData_init (example_connection []) = (False, AppData_init\<lparr>m_peerCreds := Some 3\<rparr>, c') \<and>
    \<not> connected c'"
  using unauthorised_peer_rejected [of "\<lparr>HAVE_CREDS = True, DISABLE_VERIFICATION = False,
      creds_getpeer = (\<lambda>_. 3), creds_have_p = (\<lambda>k. k = 4)\<rparr>" 9 "example_connection []"
      "\<lparr>rx = msg_wire 7, tx = [], rplan = [], wplan = []\<rparr>"
      "example_invoker (msg_wire INVOKER_MSG_BAD_CREDS)" AppData_init 0]
  by (auto simp: accept_def example_connection_def sendMsg_def fd_write_def close_conn_def
      msg_wire_def Let_def setPeerCreds_def)

subsection \<open>Oversized requests\<close>

lemma base256_digit:
  "(p :: nat) < 256 \<Longrightarrow> (p + 256 * m) mod 256 = p"
  "(p :: nat) < 256 \<Longrightarrow> (p + 256 * m) div 256 = m"
  by simp_all

lemma le32_from_le32:
  assumes "length b = 4"
  shows "le32 (from_le32 b) = b"
proof -
  from assms obtain p q r t where b: "b = [p, q, r, t]"
    by (auto simp: numeral_eq_Suc length_Suc_conv)
  let ?p = "of_char p :: nat" and ?q = "of_char q :: nat"
    and ?r = "of_char r :: nat" and ?t = "of_char t :: nat"
  let ?n = "?p + 256 * ?q + 65536 * ?r + 16777216 * ?t"
  have lt: "?p < 256" "?q < 256" "?r < 256" "?t < 256"
    by (simp_all add: nat_of_char_less_256)
  then have n: "unat (word_of_nat ?n :: u32) = ?n"
    by (intro unat_of_nat_u32) linarith
  note d = base256_digit [OF lt(1), of "?q + 256 * (?r + 256 * ?t)"]
    base256_digit [OF lt(2), of "?r + 256 * ?t"] base256_digit [OF lt(3), of ?t]
  have nested: "?n = ?p + 256 * (?q + 256 * (?r + 256 * ?t))" by simp
  have divs: "?n div 65536 = ?n div 256 div 256" "?n div 16777216 = ?n div 256 div 256 div 256"
    by (simp_all only: div_mult2_eq [symmetric]) simp_all
  have "?n mod 256 = ?p" "?n div 256 mod 256 = ?q" "?n div 65536 mod 256 = ?r"
    "?n div 16777216 mod 256 = ?t"
    unfolding divs unfolding nested d using lt(4) by simp_all
  then have "char_of ?n = p" "char_of (?n div 256) = q" "char_of (?n div 65536) = r"
    "char_of (?n div 16777216) = t"
    by (metis char_of_mod_256 char_of_char)+
  with n b show ?thesis by (simp add: le32_def)
qed

lemma char_of_NUL: "(n :: nat) mod 256 = 0 \<Longrightarrow> char_of n = NUL"
proof -
  assume "n mod 256 = 0"
  then have "char_of n = (char_of (0 :: nat) :: char)" by (metis char_of_mod_256)
  then show ?thesis by (simp add: char_of_def)
qed

text \<open>
  No action number is made of four non-zero bytes, so the text of a string is never
  taken for an action.
\<close>

lemma actions_have_NUL:
  "receiveAction w c \<noteq> None \<or> w = INVOKER_MSG_END \<Longrightarrow> NUL \<in> set (le32 w)"
  by (auto simp: receiveAction_def action_defs le32_def char_of_NUL split: if_splits)

lemma text_is_no_action:
  assumes "length b = 4" "is_c_str b"
  shows "receiveAction (from_le32 b) c = None \<and> from_le32 b \<noteq> INVOKER_MSG_END"
  using actions_have_NUL [of "from_le32 b" c] assms(2)
  unfolding le32_from_le32 [OF assms(1)] is_c_str_def by blast

lemma small_is_no_action:
  "w < 0x10000 \<Longrightarrow> receiveAction w c = None \<and> w \<noteq> INVOKER_MSG_END"
  by (auto simp: receiveAction_def action_defs)

lemma receiveActions_no_action:
  assumes "live c" "receiveAction w (with_rx r c) = None" "w \<noteq> INVOKER_MSG_END"
  shows "receiveActions (with_rx (msg_wire w @ r) c) = (False, with_rx r c)"
  using recvMsg_wire [of "with_rx (msg_wire w @ r) c" w r 0] assms
  by (subst receiveActions.simps) simp

lemma receiveActions_refused:
  assumes "live c" "tag \<noteq> INVOKER_MSG_END"
    and "receiveAction tag (with_rx q c) = Some (with_rx (msg_wire w @ r) d)"
    and "live d" "receiveAction w (with_rx r d) = None" "w \<noteq> INVOKER_MSG_END"
  shows "receiveActions (with_rx (msg_wire tag @ q) c) = (False, with_rx r d)"
  using recvMsg_wire [of "with_rx (msg_wire tag @ q) c" tag q 0] assms
    receiveActions_no_action [OF assms(4-6)]
  by (subst receiveActions.simps) simp

lemma plain_as_msg:
  assumes "length b = 4"
  shows "plain b = msg_wire (from_le32 b)"
  using le32_from_le32 [OF assms] by (simp add: msg_wire_def)

lemma recvStr_too_long:
  assumes "live c" "rx (c_sock c) = str_wire s @ r" "4096 \<le> length s" "length s < 4294967295"
  shows "recvStr c = (NullPtr, with_rx (plain (s @ [NUL]) @ r) c)"
proof -
  let ?n = "word_of_nat (length s + 1) :: u32"
  have "unat ?n = length s + 1" using unat_of_nat_u32 [of "length s + 1"] assms(4) by simp
  then have n: "STR_LEN_MAX < ?n" using assms(3) by (simp add: STR_LEN_MAX_def word_less_nat_alt)
  have m: "recvMsg 0 c = (True, ?n, with_rx (plain (s @ [NUL]) @ r) c)"
    by (rule recvMsg_wire) (use assms in \<open>simp_all add: str_wire_def\<close>)
  show ?thesis
    using assms(1) n unfolding recvStr_def m Let_def prod.case by (simp add: live_def)
qed

lemma oversized_path_refused:
  assumes "live c" "4096 \<le> length s" "length s < 4294967295" "is_c_str s"
  shows "fst (receiveActions (with_rx (exec_msg.action s @ r) c)) = False"
proof -
  let ?b = "take 4 s" and ?t = "plain (drop 4 s @ [NUL]) @ r"
  have b: "length ?b = 4" "is_c_str ?b"
    using assms by (auto simp: is_c_str_def dest: in_set_takeD)
  have "plain s = plain ?b @ plain (drop 4 s)" by (metis append_take_drop_id plain_append)
  then have split: "plain (s @ [NUL]) @ r = msg_wire (from_le32 ?b) @ ?t"
    using plain_as_msg [OF b(1)] by simp
  have "recvStr (with_rx (str_wire s @ r) c) = (NullPtr, with_rx (plain (s @ [NUL]) @ r) c)"
    using recvStr_too_long [of "with_rx (str_wire s @ r) c" s r] assms by simp
  then have "receiveAction INVOKER_MSG_EXEC (with_rx (str_wire s @ r) c)
      = Some (with_rx (msg_wire (from_le32 ?b) @ ?t) c)"
    unfolding split by (simp add: receiveAction_def receiveExec_def)
  from receiveActions_refused [OF assms(1) _ this assms(1)] text_is_no_action [OF b]
  show ?thesis by (simp add: exec_msg.action_def)
qed

lemma with_rx_environ: "(with_rx q c)\<lparr>c_environ := e\<rparr> = with_rx q (c\<lparr>c_environ := e\<rparr>)"
  by simp

lemma oversized_vector_refused:
  assumes "live c" "1024 \<le> length ss" "length ss < 4294967296" "str_ok (hd ss)"
  shows "fst (receiveActions (with_rx (args_msg.action ss @ r) c)) = False \<and>
    fst (receiveActions (with_rx (env_msg.action ss @ r) c)) = False"
proof -
  from assms(2) obtain t ts where ss: "ss = t # ts" by (cases ss) auto
  let ?n = "word_of_nat (length ss) :: u32" and ?w = "word_of_nat (length t + 1) :: u32"
  let ?r = "plain (t @ [NUL]) @ concat (map str_wire ts) @ r"
  have n: "\<not> ?n < 1024" using assms by (simp add: word_less_nat_alt unat_of_nat_u32)
  have "unat ?w = length t + 1" "length t < 4096"
    using assms ss unat_of_nat_u32 [of "length t + 1"] by (simp_all add: str_ok_def)
  then have w: "?w < 0x10000" by (simp add: word_less_nat_alt)
  have wire: "args_wire ss @ r = msg_wire ?n @ msg_wire ?w @ ?r"
    by (simp add: args_wire_def ss str_wire_def)
  have m: "recvMsg v (with_rx (args_wire ss @ r) d) = (True, ?n, with_rx (msg_wire ?w @ ?r) d)"
    if "live d" for v d
    using recvMsg_wire [of "with_rx (args_wire ss @ r) d" ?n "msg_wire ?w @ ?r" v] that wire by simp
  have "receiveAction INVOKER_MSG_ARGS (with_rx (args_wire ss @ r) c)
      = Some (with_rx (msg_wire ?w @ ?r) (c\<lparr>c_argc := ?n\<rparr>))"
    using n m [OF assms(1)] by (simp add: receiveAction_def receiveArgs_def ARGC_MAX_def)
  from receiveActions_refused [OF assms(1) _ this] assms(1) small_is_no_action [OF w]
  have "fst (receiveActions (with_rx (args_msg.action ss @ r) c)) = False"
    by (simp add: args_msg.action_def)
  moreover have "receiveAction INVOKER_MSG_ENV (with_rx (args_wire ss @ r) c)
      = Some (with_rx (msg_wire ?w @ ?r) (c\<lparr>c_environ := []\<rparr>))"
    using n m [of "c\<lparr>c_environ := []\<rparr>" 0, folded with_rx_environ] assms(1)
    by (simp add: receiveAction_def receiveEnv_def MAX_VARS_def with_rx_environ)
  from receiveActions_refused [OF assms(1) _ this] assms(1) small_is_no_action [OF w]
  have "fst (receiveActions (with_rx (env_msg.action ss @ r) c)) = False"
    by (simp add: env_msg.action_def env_wire_def)
  ultimately show ?thesis by simp
qed

text \<open>
  C24. What an honest invoker sends beyond the limits is refused, not misread: a program
  path of 4096 bytes or more, or 1024 or more arguments, or as many environment
  variables, end the receive loop with failure. The results of the individual receive
  calls are ignored, but the unread rest of the oversized message is never a valid action.
\<close>

theorem oversized_request_refused:
  assumes "live c" "4096 \<le> length s" "length s < 4294967295" "is_c_str s"
    and "1024 \<le> length ss" "length ss < 4294967296" "str_ok (hd ss)"
  shows "fst (receiveActions (with_rx (exec_msg.action s @ r) c)) = False \<and>
    fst (receiveActions (with_rx (args_msg.action ss @ r) c)) = False \<and>
    fst (receiveActions (with_rx (env_msg.action ss @ r) c)) = False"
  using oversized_path_refused [OF assms(1-4)] oversized_vector_refused [OF assms(1,5-7)] by simp

theorem oversized_request_refused_witness:
  "fst (receiveActions (with_rx (exec_msg.action (replicate 4096 CHR ''A'') @ [])
     (example_connection []))) = False"
  using oversized_request_refused [of "example_connection []" "replicate 4096 CHR ''A''"
      "replicate 1024 ''A''" "[]"]
  by (simp add: live_def example_connection_def is_c_str_def str_ok_def)

end
