(* ===== verification/Booster_Safety.thy ===== *)
theory Booster_Safety
  imports Booster Connection_Safety
begin

text \<open>
  What a booster process guarantees on its way to the application: the command line it
  shows, the descriptors and the identity the application gets, its priority, what it
  tells the daemon and when, and where a request makes it crash.
\<close>

subsection \<open>The command line\<close>

definition joined :: "string list \<Rightarrow> byte list" where
  "joined ss = concat (map (\<lambda>s. s @ [NUL]) ss)"

fun arg_offsets :: "nat \<Rightarrow> string list \<Rightarrow> nat list" where
  "arg_offsets n [] = []"
| "arg_offsets n (s # ss) = n # arg_offsets (n + length s + 1) ss"

text \<open>What a block of \<open>space\<close> bytes shows of an argument vector: all of it, or as much as fits.\<close>

definition shown_args :: "nat \<Rightarrow> string list \<Rightarrow> byte list" where
  "shown_args space ss =
     (if length (joined ss) \<le> space
      then joined ss @ replicate (space - length (joined ss)) NUL
      else take (space - 1) (joined ss) @ [NUL])"

lemma length_arg_offsets [simp]: "length (arg_offsets n ss) = length ss"
  by (induction ss arbitrary: n) simp_all

lemma joined_simps [simp]: "joined [] = []" "joined (s # ss) = s @ NUL # joined ss"
  by (simp_all add: joined_def)

lemma joined_eq_Nil [simp]: "joined ss = [] \<longleftrightarrow> ss = []"
  by (cases ss) simp_all

lemma arg_space_joined:
  "\<forall>s \<in> set os. is_c_str s \<Longrightarrow>
     arg_space (pre @ joined os @ rest) (arg_offsets (length pre) os) = int (length (joined os))"
proof (induction os arbitrary: pre)
  case Nil
  then show ?case by (simp add: arg_space_def)
next
  case (Cons s os)
  have "arg_space ((pre @ s @ [NUL]) @ joined os @ rest) (arg_offsets (length (pre @ s @ [NUL])) os)
      = int (length (joined os))"
    using Cons by (intro Cons.IH) simp
  then show ?case using Cons.prems by (simp add: arg_space_def)
qed

lemma new_argv_strings: "new_argv (length ss) (map Str ss) = Returns (joined ss)"
  by (induction ss) simp_all

lemma last_joined: "ss \<noteq> [] \<Longrightarrow> (joined ss)[length (joined ss) - 1 := NUL] = joined ss"
proof (induction ss)
  case Nil
  then show ?case by simp
next
  case (Cons s ss)
  then show ?case
    by (cases "ss = []") (auto simp: list_update_append nth_append split: nat.splits)
qed

lemma write_args_joined:
  assumes "ss \<noteq> []" "0 < space" "space \<le> length mem"
  shows "write_args space (joined ss) mem = Returns (shown_args space ss @ drop space mem)"
proof (cases "length (joined ss) \<le> space")
  case True
  then show ?thesis
    using assms last_joined [OF assms(1)] by (simp add: write_args_def shown_args_def)
next
  case False
  then have "(take space (joined ss))[space - 1 := NUL] = take (space - 1) (joined ss) @ [NUL]"
    using assms(2) by (intro nth_equalityI) (auto simp: nth_append nth_list_update)
  then show ?thesis using False assms by (simp add: write_args_def shown_args_def Let_def)
qed

lemma length_shown_args: "0 < space \<Longrightarrow> length (shown_args space ss) = space"
  by (auto simp: shown_args_def)

lemma renameProcess_value:
  assumes "ss \<noteq> []" "0 < argc"
    and "space = (if m_spaceAvailable b = 0 then arg_space (p_args p) (take (nat argc) offs)
                  else m_spaceAvailable b)"
    and "0 < space" "nat space \<le> length (p_args p)"
  shows "renameProcess argc offs (int (length ss)) (Some (map Str ss)) b p =
     Returns (b\<lparr>m_spaceAvailable := space\<rparr>,
       p\<lparr>p_args := shown_args (nat space) ss @ drop (nat space) (p_args p),
         p_comm := take 15 (base_name (hd ss)),
         p_environ := sys_setenv ''_'' (hd ss) (p_environ p)\<rparr>)"
proof -
  obtain s t where ss: "ss = s # t" using assms(1) by (cases ss) auto
  have w: "write_args (nat space) (joined ss) (p_args p)
      = Returns (shown_args (nat space) ss @ drop (nat space) (p_args p))"
    using assms by (intro write_args_joined) auto
  have a: "new_argv (length ss) (map Str ss) = Returns (joined ss)" by (rule new_argv_strings)
  have "m_spaceAvailable b \<noteq> 0 \<Longrightarrow> b\<lparr>m_spaceAvailable := m_spaceAvailable b\<rparr> = b" by simp
  moreover have "nat (1 + int (length t)) = Suc (length t)" by simp
  ultimately show ?thesis
    using assms(2,3) w a unfolding renameProcess_def
    by (auto simp: Let_def ss sys_set_name_def simp del: new_argv.simps joined_simps)
qed

lemma sys_setenv_twice: "CHR ''='' \<notin> set name \<Longrightarrow>
    sys_setenv name v (sys_setenv name u es) = sys_setenv name v es"
  by (induction name u es rule: sys_setenv.induct) auto

text \<open>
  A booster renames itself twice, first to its temporary name and then to the
  application's command line. The second renaming sees the whole of the original argument
  space, and its result is that of a single renaming: the space holds the new arguments,
  cut (and still terminated) if they do not fit, and nothing behind it is touched; the
  process name is the file name of the first argument, cut to 15 bytes, and the
  environment variable \<open>_\<close> names the application.
\<close>

theorem application_command_line:
  assumes "p_args p = joined os @ rest" "os \<noteq> []" "\<forall>s \<in> set os. is_c_str s"
    and "m_spaceAvailable b = 0" "ss \<noteq> []" "ts \<noteq> []"
  shows "and_then (renameProcess (int (length os)) (arg_offsets 0 os) (int (length ss))
      (Some (map Str ss)) b p) (\<lambda>(b1, p1).
    renameProcess (int (length os)) (arg_offsets 0 os) (int (length ts)) (Some (map Str ts)) b1 p1)
    = Returns (b\<lparr>m_spaceAvailable := int (length (joined os))\<rparr>,
        p\<lparr>p_args := shown_args (length (joined os)) ts @ rest,
          p_comm := take 15 (base_name (hd ts)),
          p_environ := sys_setenv ''_'' (hd ts) (p_environ p)\<rparr>)"
proof -
  let ?n = "length (joined os)"
  have n: "0 < ?n" using assms(2) by simp
  have space: "arg_space (p_args p) (arg_offsets 0 os) = int ?n"
    using arg_space_joined [OF assms(3), of "[]" rest] assms(1) by simp
  let ?p = "p\<lparr>p_args := shown_args ?n ss @ rest, p_comm := take 15 (base_name (hd ss)),
    p_environ := sys_setenv ''_'' (hd ss) (p_environ p)\<rparr>"
  have "renameProcess (int (length os)) (arg_offsets 0 os) (int (length ss)) (Some (map Str ss)) b p
      = Returns (b\<lparr>m_spaceAvailable := int ?n\<rparr>, ?p)"
    using renameProcess_value [of ss "int (length os)" "int ?n" b p "arg_offsets 0 os"] assms n space
    by simp
  moreover have "renameProcess (int (length os)) (arg_offsets 0 os) (int (length ts))
      (Some (map Str ts)) (b\<lparr>m_spaceAvailable := int ?n\<rparr>) ?p
      = Returns (b\<lparr>m_spaceAvailable := int ?n\<rparr>,
          ?p\<lparr>p_args := shown_args ?n ts @ rest, p_comm := take 15 (base_name (hd ts)),
             p_environ := sys_setenv ''_'' (hd ts) (p_environ p)\<rparr>)"
    using renameProcess_value [of ts "int (length os)" "int ?n" "b\<lparr>m_spaceAvailable := int ?n\<rparr>" ?p
        "arg_offsets 0 os"] assms n
    by (simp add: length_shown_args sys_setenv_twice)
  ultimately show ?thesis by simp
qed

definition Booster_example :: "int \<Rightarrow> booster" where
  "Booster_example fd = \<lparr>b_appData = AppData_init, b_connection = None, m_oldPriority = 0,
     m_oldPriorityOk = False, m_pipeFd = (fd, fd + 1), m_spaceAvailable = 0, b_bootMode = False,
     m_boosted_gid = 126, m_extraCreds = []\<rparr>"

lemma example_args: "p_args example_proc = joined [''applauncherd'', ''--boot-mode''] @ []"
  by (simp add: example_proc_def)

theorem application_command_line_witness:
  "\<exists>b' p'. and_then (renameProcess 2 (arg_offsets 0 [''applauncherd'', ''--boot-mode'']) 1
      (Some [Str ''booster-q'']) (Booster_example 4) example_proc) (\<lambda>(b1, p1).
    renameProcess 2 (arg_offsets 0 [''applauncherd'', ''--boot-mode'']) 1
      (Some [Str ''/usr/bin/a-long-application-name'']) b1 p1) = Returns (b', p') \<and>
    p_args p' = ''/usr/bin/a-long-applicat'' @ [NUL]"
  using application_command_line [OF example_args, of "Booster_example 4" "[''booster-q'']"
      "[''/usr/bin/a-long-application-name'']"]
  by (simp add: Booster_example_def shown_args_def)

subsection \<open>Descriptors\<close>

lemma dup_descriptors_value:
  assumes "fds_ok p" "distinct [d0, d1, d2]" "2 < d0" "2 < d1" "2 < d2"
    and "fd_file p d0 = Some f0" "fd_file p d1 = Some f1" "fd_file p d2 = Some f2"
  shows "fd_file (dup_descriptors 0 [d0, d1, d2] p) k =
      (if k = 0 then Some f0 else if k = 1 then Some f1 else if k = 2 then Some f2
       else if k = d0 \<or> k = d1 \<or> k = d2 then None else fd_file p k)"
proof -
  let ?p0 = "close_fd d0 (snd (sys_dup2 d0 0 p))"
  have 0: "fds_ok ?p0" "fd_file ?p0 j = (if j = d0 then None else if j = 0 then Some f0 else fd_file p j)" for j
    using assms by (simp_all add: fd_file_close fd_file_dup2)
  let ?p1 = "close_fd d1 (snd (sys_dup2 d1 1 ?p0))"
  have f: "fd_file ?p0 d1 = Some f1" using assms 0 by simp
  have 1: "fds_ok ?p1" "fd_file ?p1 j = (if j = d1 then None else if j = 1 then Some f1 else fd_file ?p0 j)" for j
    using 0(1) f by (simp_all add: fd_file_close fd_file_dup2)
  have f: "fd_file ?p1 d2 = Some f2" using assms 0 1 by simp
  have 2: "fd_file (close_fd d2 (snd (sys_dup2 d2 2 ?p1))) j
      = (if j = d2 then None else if j = 2 then Some f2 else fd_file ?p1 j)" for j
    using 1(1) f by (simp add: fd_file_close fd_file_dup2)
  show ?thesis using assms 0(2) 1(2) 2 by simp
qed

text \<open>
  The application's standard descriptors are the invoker's: after the loop, 0, 1 and
  2 refer to the open files of the three received descriptors, the received numbers are
  closed again, every other descriptor is as before; and when no descriptors were received
  (the connection's default \<open>-1\<close>), nothing changes.
\<close>

theorem standard_descriptors:
  assumes "fds_ok p" "distinct [d0, d1, d2]" "2 < d0" "2 < d1" "2 < d2"
    and "fd_file p d0 = Some f0" "fd_file p d1 = Some f1" "fd_file p d2 = Some f2"
  shows "fd_file (dup_descriptors 0 [d0, d1, d2] p) k =
      (if k = 0 then Some f0 else if k = 1 then Some f1 else if k = 2 then Some f2
       else if k = d0 \<or> k = d1 \<or> k = d2 then None else fd_file p k) \<and>
    dup_descriptors 0 [-1, -1, -1] p = p"
  using dup_descriptors_value [OF assms] by simp

theorem standard_descriptors_witness:
  "fd_file (dup_descriptors 0 [7, 8, 9] (install_fds [(7, 70), (8, 80), (9, 90)] example_proc)) 1
     = Some 80"
  using standard_descriptors [of "install_fds [(7, 70), (8, 80), (9, 90)] example_proc" 7 8 9 70 80 90 1]
  by (simp add: install_fds_def example_proc_def fds_ok_def smap_ok_def)

subsection \<open>Identity\<close>

lemma switch_identity_value:
  assumes "p_ruid p = 0" "p_euid p = 0" "p_suid p = 0"
    and "p_egid p = p_rgid p" "p_sgid p = p_rgid p"
  shows "switch_identity b p =
    (if m_uid (b_appData b) = 0
     then p\<lparr>p_rgid := m_gid (b_appData b), p_egid := m_gid (b_appData b),
            p_sgid := m_gid (b_appData b)\<rparr>
     else p\<lparr>p_ruid := m_uid (b_appData b), p_euid := m_uid (b_appData b),
            p_suid := m_uid (b_appData b)\<rparr>)"
proof (cases p)
  case (fields pid nice gf ru eu su rg eg sg)
  with assms show ?thesis
    by (cases "m_uid (b_appData b) = 0"; cases "m_gid (b_appData b) = rg")
      (simp_all add: switch_identity_def sys_setuid_def sys_setgid_def sys_setegid_def Let_def)
qed

text \<open>
  C26. The identity the application runs with, for a launcher that runs as root. When the
  invoker is root, the invoker's group is taken over. For any other invoker, the user is
  the invoker's but every group identity stays the launcher's: after \<open>setuid\<close> the process
  may no longer call \<open>setgid\<close>, and the results are not checked. The flip to the boosted
  group leaves no trace in either case.
\<close>

theorem identity_of_application:
  assumes "p_ruid p = 0" "p_euid p = 0" "p_suid p = 0"
    and "p_egid p = p_rgid p" "p_sgid p = p_rgid p"
  shows "switch_identity b p =
    (if m_uid (b_appData b) = 0
     then p\<lparr>p_rgid := m_gid (b_appData b), p_egid := m_gid (b_appData b),
            p_sgid := m_gid (b_appData b)\<rparr>
     else p\<lparr>p_ruid := m_uid (b_appData b), p_euid := m_uid (b_appData b),
            p_suid := m_uid (b_appData b)\<rparr>)"
  using assms by (rule switch_identity_value)

theorem identity_of_application_witness:
  "p_rgid (switch_identity ((Booster_example 4)\<lparr>b_appData := setIDs 29999 500 AppData_init\<rparr>) example_proc) = 0 \<and>
   p_ruid (switch_identity ((Booster_example 4)\<lparr>b_appData := setIDs 29999 500 AppData_init\<rparr>) example_proc) = 29999"
  using identity_of_application [of example_proc
      "(Booster_example 4)\<lparr>b_appData := setIDs 29999 500 AppData_init\<rparr>"]
  by (simp add: example_proc_def setIDs_def)

subsection \<open>Priority\<close>

text \<open>
  A booster initialises at nice 10 and then returns to its old priority: exactly when
  the launcher is privileged or was no more favoured than that; an unprivileged launcher's
  boosters, and with them the applications, stay at nice 10.
\<close>

theorem priority_restored:
  assumes "\<not> p_getpriority_fails p" "-20 \<le> p_nice p" "p_nice p \<le> 19"
  shows "(case pushPriority 10 b p of (_, b1, p1) \<Rightarrow> snd (popPriority b1 p1)) =
    p\<lparr>p_nice := (if p_euid p = 0 then p_nice p else max 10 (p_nice p))\<rparr>"
proof (cases p)
  case (fields pid nice gf ru eu)
  with assms show ?thesis
    by (cases "eu = 0"; cases "nice \<le> 10")
      (auto simp: pushPriority_def popPriority_def sys_setpriority_def Let_def max_def min_def)
qed

theorem priority_restored_witness:
  "p_nice (case pushPriority 10 (Booster_example 4) (example_proc\<lparr>p_euid := 29999\<rparr>) of
     (_, b1, p1) \<Rightarrow> snd (popPriority b1 p1)) = 10"
  using priority_restored [of "example_proc\<lparr>p_euid := 29999\<rparr>" "Booster_example 4"]
  by (simp add: example_proc_def)

subsection \<open>Accepting in the event loop\<close>

lemma accept_connected:
  "\<not> c_testMode c \<Longrightarrow> accept cfg fd s a c = (ok, a', c') \<Longrightarrow> connected c' = ok"
  by (auto simp: accept_def connected_def close_conn_def sendMsg_def fd_write_def Let_def
      split: if_splits prod.splits)

text \<open>
  \<open>MBooster\<close>'s receiving member, which accepts in another thread while a Qt event loop
  runs and then looks at the connection instead of \<open>accept\<close>'s result, is the default
  implementation, unless a theme change or a hang-up ends the process first (possible only
  outside boot mode).
\<close>

theorem MBooster_receives_like_default:
  "MBooster_receiveDataFromInvoker pl socketFd inc b p =
    (if b_bootMode b then receiveDataFromInvoker pl socketFd inc b p
     else if in_event inc = InvokerConnected then receiveDataFromInvoker pl socketFd inc b p
     else and_then (Connection_new socketFd False (connection_memory inc p)) (\<lambda>_. Exits EXIT_SUCCESS))"
proof -
  let ?new = "Connection_new socketFd False (connection_memory inc p)"
  have "MBooster_receiveDataFromInvoker pl socketFd inc b p = receiveDataFromInvoker pl socketFd inc b p"
    if e: "\<not> b_bootMode b" "in_event inc = InvokerConnected"
  proof (cases ?new)
    case (Returns c)
    then have c: "\<not> c_testMode c" by (auto simp: Connection_new_def Let_def split: if_splits)
    obtain ok a c1 where acc: "accept (pl_creds pl) (in_fd inc) (in_sock inc) (b_appData b) c = (ok, a, c1)"
      by (cases "accept (pl_creds pl) (in_fd inc) (in_sock inc) (b_appData b) c") auto
    then show ?thesis
      using accept_connected [OF c acc] e Returns
      by (simp add: MBooster_receiveDataFromInvoker_def receiveDataFromInvoker_def)
  qed (simp_all add: e MBooster_receiveDataFromInvoker_def receiveDataFromInvoker_def)
  then show ?thesis by (simp add: MBooster_receiveDataFromInvoker_def)
qed

subsection \<open>Reporting to the daemon\<close>

text \<open>What the daemon reads is untouched by everything but \<open>sendDataToParent\<close>.\<close>

definition same_pipe :: "proc \<Rightarrow> proc \<Rightarrow> bool" where
  "same_pipe p q \<longleftrightarrow> p_sent q = p_sent p \<and> p_pipe_broken q = p_pipe_broken p"

lemma same_pipe_trans: "same_pipe p q \<Longrightarrow> same_pipe q r \<Longrightarrow> same_pipe p r"
  by (simp add: same_pipe_def)

lemma same_pipe_refl [simp]: "same_pipe p p"
  by (simp add: same_pipe_def)

lemma same_pipe_close [simp]: "same_pipe p (close_fd fd q) = same_pipe p q"
  by (simp add: same_pipe_def sys_close_def split: option.splits)

lemma same_pipe_push: "pushPriority n b p = (r, b', p') \<Longrightarrow> same_pipe p p'"
  by (auto simp: pushPriority_def same_pipe_def sys_setpriority_def Let_def split: if_splits)

lemma same_pipe_pop: "popPriority b p = (r, p') \<Longrightarrow> same_pipe p p'"
  by (auto simp: popPriority_def same_pipe_def sys_setpriority_def Let_def split: if_splits)

lemma renameProcess_frame:
  "renameProcess n offs m ps b p = Returns (b', p') \<Longrightarrow>
     same_pipe p p' \<and> p_fds p' = p_fds p \<and> b_connection b' = b_connection b \<and>
     b_appData b' = b_appData b \<and> m_pipeFd b' = m_pipeFd b"
proof (cases "\<exists>s qs. ps = Some (Str s # qs)")
  case True
  then show "renameProcess n offs m ps b p = Returns (b', p') \<Longrightarrow> ?thesis"
    by (auto simp: renameProcess_def same_pipe_def and_then_eq_Returns sys_set_name_def Let_def
        split: if_splits)
next
  case False
  then have no: "(case qs of Str name # _ \<Rightarrow> f name | _ \<Rightarrow> Undefined NullDereference)
      = Undefined NullDereference" if "ps = Some qs" for qs and f :: "string \<Rightarrow> (booster \<times> proc) outcome"
    using that by (cases qs rule: list.exhaust; cases "hd qs") auto
  show "renameProcess n offs m ps b p = Returns (b', p') \<Longrightarrow> ?thesis"
    by (auto simp: renameProcess_def and_then_eq_Returns no Let_def split: if_splits option.splits)
qed

lemma receive_accepted_frame:
  "receive_accepted inc a c b p = (ok, b', p') \<Longrightarrow>
     same_pipe p p' \<and> m_pipeFd b' = m_pipeFd b \<and> b_connection b' \<noteq> None"
  by (auto simp: receive_accepted_def close_connection_def install_fds_def same_pipe_def
      sys_close_def Let_def split: if_splits prod.splits option.splits)

lemma receiveDataFromInvoker_frame:
  "receiveDataFromInvoker pl fd inc b p = Returns (ok, b', p') \<Longrightarrow>
     same_pipe p p' \<and> m_pipeFd b' = m_pipeFd b \<and> b_connection b' \<noteq> None"
  by (auto simp: receiveDataFromInvoker_def and_then_eq_Returns Let_def split_def
      split: if_splits dest!: receive_accepted_frame)

lemma MBooster_receive_frame:
  "MBooster_receiveDataFromInvoker pl fd inc b p = Returns (ok, b', p') \<Longrightarrow>
     same_pipe p p' \<and> m_pipeFd b' = m_pipeFd b \<and> b_connection b' \<noteq> None"
  by (auto simp: MBooster_receiveDataFromInvoker_def and_then_eq_Returns Let_def split_def
      split: if_splits dest!: receive_accepted_frame receiveDataFromInvoker_frame)

lemma virtual_receive_frame:
  "virtual_receive k pl fd inc b p = Returns (ok, b', p') \<Longrightarrow>
     same_pipe p p' \<and> m_pipeFd b' = m_pipeFd b \<and> b_connection b' \<noteq> None"
  by (cases k) (auto simp: virtual_receive_def dest: MBooster_receive_frame receiveDataFromInvoker_frame)

lemma sendDataToParent_value:
  assumes "sendDataToParent k cr b p = Returns p'" "b_connection b = Some c" "\<not> p_pipe_broken p"
  shows "p' = p\<lparr>p_sent := p_sent p @ [[boosterType k],
      le32 (word_of_int (if c_sendPid c then peerPid cr else 0)),
      le32 (word_of_int (m_delay (b_appData b)))]\<rparr>"
  using assms
  by (auto simp: sendDataToParent_def sys_write_pipe_def invokersPid_def
      isReportAppExitStatusNeeded_def Let_def split: if_splits)

text \<open>
  C18. A booster tells the daemon exactly once, in three writes: its type, the pid of the
  invoker (0 unless the invoker waits for the exit status), the respawn delay of the
  request. Every way in which \<open>initialize\<close> does not return ends the process, so nothing
  is reported without a request; and afterwards the write end of the pipe is closed and
  the death of the daemon no longer matters. (The caches that a plugin's \<open>preload\<close> fills
  do not write to the pipe.)
\<close>

theorem booster_reports_once:
  assumes "initialize pl k argc offs fds socketFd si boot inc w b p = Returns (b', si', w', p')"
    and "\<And>j q. same_pipe q (populate pl j q)" "\<not> p_pipe_broken p"
  shows "\<exists>c. b_connection b' = Some c \<and>
    p_sent p' = p_sent p @ [[boosterType k],
      le32 (word_of_int (if c_sendPid c then peerPid (in_peer inc) else 0)),
      le32 (word_of_int (m_delay (b_appData b')))] \<and>
    p_pdeathsig p' = 0"
proof -
  let ?b0 = "b\<lparr>b_bootMode := boot, m_pipeFd := fds\<rparr>"
  obtain r1 b1 p1 where push: "pushPriority 10 ?b0 p = (r1, b1, p1)" by (metis prod.collapse)
  define p2 where "p2 = (if b_bootMode b1 then p1 else snd (preload pl k p1))"
  note init = assms(1) [unfolded initialize_def Let_def push prod.case, folded p2_def]
  obtain b3 p3 where rename1: "renameProcess argc offs 1
      (Some [Str (boosterTemporaryProcessName k)]) b1 p2 = Returns (b3, p3)"
    using init by (auto simp: and_then_eq_Returns)
  obtain r4 p4 where pop: "popPriority b3 p3 = (r4, p4)" by (metis prod.collapse)
  obtain ok b5 p5 where recv: "virtual_receive k pl socketFd inc b3 p4 = Returns (ok, b5, p5)"
    using init by (auto simp: rename1 pop and_then_eq_Returns)
  have ok: "ok" using init by (cases ok) (simp_all add: rename1 pop recv)
  obtain si1 w1 where claim: "claim_instance si (b_appData b5) w = Returns (si1, w1)"
    using init ok by (auto simp: rename1 pop recv and_then_eq_Returns)
  obtain b6 p6 where rename2: "renameProcess argc offs (m_argc (b_appData b5))
      (m_argv (b_appData b5)) b5 p5 = Returns (b6, p6)"
    using init ok by (auto simp: rename1 pop recv claim and_then_eq_Returns)
  obtain p7 where send: "sendDataToParent k (in_peer inc) b6 p6 = Returns p7"
    using init ok by (auto simp: rename1 pop recv claim rename2 and_then_eq_Returns)
  have result: "b' = b6" "p' = (close_fd (snd (m_pipeFd b6)) p7)\<lparr>p_pdeathsig := 0, p_dumpable := True\<rparr>"
    using init ok by (auto simp: rename1 pop recv claim rename2 send)
  have "same_pipe p1 p2"
    using assms(2) by (cases k) (auto simp: p2_def preload_def)
  then have same: "same_pipe p p6"
    using same_pipe_push [OF push] renameProcess_frame [OF rename1] same_pipe_pop [OF pop]
      virtual_receive_frame [OF recv] renameProcess_frame [OF rename2]
    by (blast intro: same_pipe_trans)
  obtain c where c: "b_connection b6 = Some c"
    using virtual_receive_frame [OF recv] renameProcess_frame [OF rename2] by auto
  have broken: "\<not> p_pipe_broken p6" "p_sent p6 = p_sent p"
    using same assms(3) by (auto simp: same_pipe_def)
  have "p_sent p' = p_sent p7"
    using result(2) by (simp add: sys_close_def split: option.splits)
  then show ?thesis
    using sendDataToParent_value [OF send c broken(1)] c result broken(2) by simp
qed

text \<open>A booster with an open pipe that is asked for a short argument vector.\<close>

definition example_platform :: platform where
  "example_platform = \<lparr>pl_creds = \<lparr>HAVE_CREDS = False, DISABLE_VERIFICATION = False,
       creds_getpeer = (\<lambda>_. 0), creds_have_p = (\<lambda>_. True)\<rparr>,
     creds_str2creds = (\<lambda>_. None), creds_sub = (\<lambda>c _. c), creds_confine2 = (\<lambda>_ _. 0),
     dl_open = (\<lambda>_ _. Some 1), dl_sym = (\<lambda>_ _. Some (Some 2)), getgrnam = (\<lambda>_. None),
     populate = (\<lambda>_ p. p), app_main = (\<lambda>_ _ _ p. (0, p)), is_dir = (\<lambda>_. True), oom_file = True\<rparr>"

definition example_request :: request where
  "example_request = \<lparr>rq_options = 1, rq_name = ''app'', rq_exec = ''/bin/app'',
     rq_args = [''app'', ''-x''], rq_prio = 5, rq_delay = 3, rq_uid = 29999, rq_gid = 500,
     rq_dummy = CHR ''x'', rq_fds = [10, 11, 12], rq_environ = [''A=1'']\<rparr>"

definition example_incoming :: incoming where
  "example_incoming = \<lparr>in_fd = 9, in_sock = \<lparr>rx = request_wire example_request, tx = [], rplan = [],
       wplan = []\<rparr>, in_installed = [(9, 90), (10, 70), (11, 71), (12, 72)], in_peer = Some 4242,
     in_memory = example_connection [], in_event = InvokerConnected\<rparr>"

lemma example_request_ok: "request_ok example_request"
  by (simp add: request_ok_def example_request_def option_defs str_ok_def args_ok_def)

lemma example_receive:
  "\<exists>c p'. receiveDataFromInvoker example_platform 4 example_incoming b p =
      Returns (True, b\<lparr>b_appData := app_of example_request (b_appData b), b_connection := Some c\<rparr>, p') \<and>
    c_sendPid c \<and> p_args p' = p_args p"
proof -
  let ?c = "(connection_memory example_incoming p)\<lparr>
      c_testMode := False, c_fd := 9, c_curSocket := 4, c_fileName := [], c_argc := 0,
      c_argv := None, c_priority := 0, c_delay := 0, c_sendPid := False,
      c_io := [-1, -1, -1], c_sock := in_sock example_incoming\<rparr>"
  have ready: "ready ?c" "rx (c_sock ?c) = request_wire example_request @ []"
    by (simp_all add: ready_def live_def example_incoming_def)
  have pid: "c_sendPid (after_request example_request [] ?c)"
    using after_request_fields(3) [OF ready(1)] by (simp add: sends_pid_def example_request_def option_defs)
  have "accept (pl_creds example_platform) (in_fd example_incoming) (in_sock example_incoming) (b_appData b)
      (?c\<lparr>c_fd := -1, c_sock := c_sock (connection_memory example_incoming p)\<rparr>) = (True, b_appData b, ?c)"
    by (simp add: accept_def example_platform_def example_incoming_def)
  moreover have "Connection_new 4 False (connection_memory example_incoming p)
      = Returns (?c\<lparr>c_fd := -1, c_sock := c_sock (connection_memory example_incoming p)\<rparr>)"
    by (simp add: Connection_new_def)
  ultimately show ?thesis
    using receiveApplicationData_request [OF ready(1) example_request_ok ready(2)] pid
    by (intro exI [of _ "after_request example_request [] ?c"])
      (simp add: receiveDataFromInvoker_def receive_accepted_def isReportAppExitStatusNeeded_def
        install_fds_def Let_def)
qed

lemma example_initialize:
  "\<exists>b' p'. initialize example_platform QtBooster 2 (arg_offsets 0 [''applauncherd'', ''--boot-mode''])
    (5, 6) 4 None False example_incoming () (Booster_example 0) example_proc = Returns (b', None, (), p')
    \<and> b_appData b' = app_of example_request AppData_init
    \<and> (\<exists>c. b_connection b' = Some c \<and> c_sendPid c)"
proof -
  define offs where "offs = arg_offsets 0 [''applauncherd'', ''--boot-mode'']"
  let ?b0 = "(Booster_example 0)\<lparr>b_bootMode := False, m_pipeFd := (5, 6)\<rparr>"
  have push: "pushPriority 10 ?b0 example_proc
      = (True, ?b0\<lparr>m_oldPriorityOk := True, m_oldPriority := 0\<rparr>, example_proc\<lparr>p_nice := 10\<rparr>)"
    "\<not> b_bootMode (?b0\<lparr>m_oldPriorityOk := True, m_oldPriority := 0\<rparr>)"
    by (simp_all add: pushPriority_def sys_setpriority_def example_proc_def Booster_example_def)
  let ?b1 = "?b0\<lparr>m_oldPriorityOk := True, m_oldPriority := 0\<rparr>"
    and ?p1 = "example_proc\<lparr>p_nice := 10\<rparr>"
  have space: "arg_space (p_args ?p1) (take 2 offs) = 25"
    using arg_space_joined [of "[''applauncherd'', ''--boot-mode'']" "[]" "[]"]
    by (simp add: example_proc_def offs_def)
  have len: "length (p_args example_proc) = 25" "m_spaceAvailable ?b1 = 0" "b_appData ?b1 = AppData_init"
    by (simp_all add: example_proc_def Booster_example_def)
  obtain b3 p3 where rename1: "renameProcess 2 offs 1 (Some [Str ''booster-q'']) ?b1 ?p1 = Returns (b3, p3)"
    and b3: "b3 = ?b1\<lparr>m_spaceAvailable := 25\<rparr>" and p3: "length (p_args p3) = 25"
    using renameProcess_value [of "[''booster-q'']" 2 25 ?b1 ?p1 offs] space len
    by (simp add: length_shown_args)
  obtain r4 p4 where pop: "popPriority b3 p3 = (r4, p4)" by (metis prod.collapse)
  then have p4: "p_args p4 = p_args p3"
    by (auto simp: popPriority_def sys_setpriority_def Let_def split: if_splits)
  obtain b5 p5 c where recv: "receiveDataFromInvoker example_platform 4 example_incoming b3 p4
      = Returns (True, b5, p5)" and b5: "b5 = b3\<lparr>b_appData := app_of example_request (b_appData b3), b_connection := Some c\<rparr>"
    and p5: "p_args p5 = p_args p3" and c: "c_sendPid c"
    using example_receive [of b3 p4] p4 by auto
  have args: "m_argc (b_appData b5) = 2" "m_argv (b_appData b5) = Some (map Str [''app'', ''-x''])"
    "\<not> singleInstance (b_appData b5)" "m_spaceAvailable b5 = 25" "b_appData b5 = app_of example_request AppData_init"
    "b_connection b5 = Some c"
    using len by (simp_all add: b5 b3 app_of_def example_request_def singleInstance_def option_defs)
  obtain b6 p6 where rename2: "renameProcess 2 offs 2 (Some (map Str [''app'', ''-x''])) b5 p5 = Returns (b6, p6)"
    and b6: "b6 = b5\<lparr>m_spaceAvailable := 25\<rparr>"
    using renameProcess_value [of "[''app'', ''-x'']" 2 25 b5 p5 offs] args(4) p3 p5 by auto
  obtain p7 where send: "sendDataToParent QtBooster (in_peer example_incoming) b6 p6 = Returns p7"
    using args(6) by (simp add: sendDataToParent_def invokersPid_def b6 Let_def split_def)
  show ?thesis
    using rename1 pop recv rename2 send args c
    unfolding offs_def [symmetric]
    by (simp add: initialize_def push preload_def virtual_receive_def claim_instance_def b6)
qed

theorem booster_reports_once_witness:
  "\<exists>b' p'. initialize example_platform QtBooster 2 (arg_offsets 0 [''applauncherd'', ''--boot-mode''])
      (5, 6) 4 None False example_incoming () (Booster_example 0) example_proc = Returns (b', None, (), p') \<and>
    p_sent p' = [[CHR ''q''], le32 4242, le32 3]"
proof -
  obtain b' p' c where i: "initialize example_platform QtBooster 2
      (arg_offsets 0 [''applauncherd'', ''--boot-mode'']) (5, 6) 4 None False example_incoming ()
      (Booster_example 0) example_proc = Returns (b', None, (), p')"
    and b: "b_appData b' = app_of example_request AppData_init" "b_connection b' = Some c" "c_sendPid c"
    using example_initialize by blast
  have "p_sent p' = [[CHR ''q''], le32 4242, le32 3]"
    using booster_reports_once [OF i] b
    by (simp add: example_platform_def example_proc_def example_incoming_def peerPid_def app_of_def
        example_request_def)
  with i show ?thesis by blast
qed

subsection \<open>What the receiver means to refuse and does not\<close>

text \<open>
  The first message is never refused: whatever number arrives, of any version and
  with any magic bits, \<open>receiveMagic\<close> answers its low byte as the options, and the test
  of \<open>receiveApplicationData\<close> for a failed magic never fires.
\<close>

theorem any_magic_accepted:
  "receiveMagic c = (let (_, magic, c1) = recvMsg 0 c in
     (magic AND INVOKER_MSG_MAGIC_OPTION_MASK,
      c1\<lparr>c_sendPid := (magic AND INVOKER_MSG_MAGIC_OPTION_WAIT \<noteq> 0)\<rparr>)) \<and>
   options (setOptions (fst (receiveMagic c)) a) \<noteq> -1"
  using options_masked
  by (cases "recvMsg 0 c") (auto simp: receiveMagic_value Let_def)

lemma receiveArgs_refused:
  assumes "live c" "n = 0 \<or> 1024 \<le> n"
  shows "receiveAction INVOKER_MSG_ARGS (with_rx (msg_wire n @ r) c) = Some (with_rx r (c\<lparr>c_argc := n\<rparr>))"
proof -
  have "recvMsg v (with_rx (msg_wire n @ r) c) = (True, n, with_rx r c)" for v
    using recvMsg_wire [of "with_rx (msg_wire n @ r) c" n r v] assms(1) by simp
  moreover have "\<not> (0 < n \<and> n < ARGC_MAX)" using assms(2) by (auto simp: ARGC_MAX_def)
  ultimately show ?thesis by (auto simp: receiveAction_def receiveArgs_def Let_def)
qed



text \<open>
  A string whose bytes fail to arrive: \<open>recvStr\<close> keeps \<open>read\<close>'s result in an unsigned
  variable, so a failed read passes for a complete one, and the string returned is
  whatever the fresh buffer held.
\<close>

theorem failed_read_taken_for_string:
  assumes "\<not> c_testMode c" "0 \<le> c_fd c" "rplan (c_sock c) = AtMost 4 # Fail # ps"
    and "rx (c_sock c) = msg_wire n @ r" "0 < n" "n \<le> STR_LEN_MAX"
  shows "fst (recvStr c) = Str (c_str ((map (c_junk c) [0 ..< unat n])[unat n - 1 := NUL]))"
proof -
  have "recvMsg 0 c = (True, n, c\<lparr>c_sock := (c_sock c)\<lparr>rx := r, rplan := Fail # ps\<rparr>\<rparr>)"
    using assms(1-4)
    by (simp add: recvMsg_def fd_read_def sys_read_def take_rx_def msg_wire_def Let_def)
  moreover have "fd_read (unat n) (c\<lparr>c_sock := (c_sock c)\<lparr>rx := r, rplan := Fail # ps\<rparr>\<rparr>)
      = (-1, [], c\<lparr>c_sock := (c_sock c)\<lparr>rx := r, rplan := ps\<rparr>\<rparr>)"
    using assms(2) by (simp add: fd_read_def sys_read_def)
  moreover have "n \<noteq> 0" "\<not> STR_LEN_MAX < n" using assms(5,6) by auto
  ultimately show ?thesis
    using assms(1) by (simp add: recvStr_def recv_buffer_def)
qed

theorem failed_read_taken_for_string_witness:
  "fst (recvStr ((example_connection [])\<lparr>c_sock := \<lparr>rx = msg_wire 3, tx = [],
     rplan = [AtMost 4, Fail], wplan = []\<rparr>\<rparr>)) = Str ''xx''"
  using failed_read_taken_for_string [of "(example_connection [])\<lparr>c_sock := \<lparr>rx = msg_wire 3, tx = [],
     rplan = [AtMost 4, Fail], wplan = []\<rparr>\<rparr>" "[]" 3 "[]"]
  by (simp add: example_connection_def STR_LEN_MAX_def upt_rec c_str_def)

end
