(* ===== verification/Daemon_Pipe.thy ===== *)
theory Daemon_Pipe
  imports Daemon_Safety Booster_Safety
begin

text \<open>
  The pipe between boosters and daemon: what a booster reports is what the daemon reads,
  and what happens when the three writes of one booster mix with those of another, or when
  a booster dies before its report is read.
\<close>

definition report_bytes :: "char \<Rightarrow> u32 \<Rightarrow> u32 \<Rightarrow> byte list" where
  "report_bytes type pid delay = type # le32 pid @ le32 delay"

text \<open>The daemon's note of an invoker, as the handler makes it.\<close>

definition note_invoker :: "char \<Rightarrow> int \<Rightarrow> daemon \<Rightarrow> daemon" where
  "note_invoker type invokerPid d =
     (if invokerPid \<noteq> 0 \<and> boosterPidForType type d \<noteq> 0
      then d\<lparr>m_boosterPidToInvokerPid :=
             smap_set (boosterPidForType type d) invokerPid (m_boosterPidToInvokerPid d)\<rparr>
      else d)"

lemma pipe_read_plain:
  "length bs = n \<Longrightarrow> rplan (d_pipe d) = [] \<Longrightarrow> rx (d_pipe d) = plain bs @ r \<Longrightarrow>
     pipe_read n d = (int n, bs, d\<lparr>d_pipe := (d_pipe d)\<lparr>rx := r\<rparr>\<rparr>)"
  by (simp add: pipe_read_def sys_read_plain)

lemma pipe_then_map: "d\<lparr>d_pipe := s, m_boosterPidToInvokerPid := m\<rparr>
    = d\<lparr>m_boosterPidToInvokerPid := m, d_pipe := s\<rparr>"
  by simp

lemma readFromBoosterPipe_report:
  assumes "rplan (d_pipe d) = []" "rx (d_pipe d) = plain (report_bytes type pid delay) @ r"
  shows "readFromBoosterPipe d = forkBooster type (sint delay)
    ((note_invoker type (sint pid) d)\<lparr>d_pipe := (d_pipe d)\<lparr>rx := r\<rparr>\<rparr>)"
proof -
  let ?d = "\<lambda>q. d\<lparr>d_pipe := (d_pipe d)\<lparr>rx := q\<rparr>\<rparr>"
  have 1: "pipe_read 1 d = (1, [type], ?d (plain (le32 pid) @ plain (le32 delay) @ r))"
    using pipe_read_plain [of "[type]" 1 d "plain (le32 pid) @ plain (le32 delay) @ r"] assms
    by (simp add: report_bytes_def plain_def)
  have 2: "pipe_read 4 (?d (plain (le32 pid) @ plain (le32 delay) @ r))
      = (4, le32 pid, ?d (plain (le32 delay) @ r))"
    using pipe_read_plain [of "le32 pid" 4 "?d (plain (le32 pid) @ plain (le32 delay) @ r)"
        "plain (le32 delay) @ r"] assms by simp
  have 3: "pipe_read 4 (e\<lparr>d_pipe := (d_pipe d)\<lparr>rx := plain (le32 delay) @ r\<rparr>\<rparr>)
      = (4, le32 delay, e\<lparr>d_pipe := (d_pipe d)\<lparr>rx := r\<rparr>\<rparr>)" for e
    using pipe_read_plain [of "le32 delay" 4
        "e\<lparr>d_pipe := (d_pipe d)\<lparr>rx := plain (le32 delay) @ r\<rparr>\<rparr>" r] assms by simp
  have type: "boosterPidForType type (?d q) = boosterPidForType type d" for q
    by (simp add: boosterPidForType_def)
  show ?thesis
    using 3 [of d] 3 [of "d\<lparr>m_boosterPidToInvokerPid := smap_set (boosterPidForType type d) (sint pid)
          (m_boosterPidToInvokerPid d)\<rparr>"]
    unfolding readFromBoosterPipe_def 1 Let_def prod.case
    by (simp add: 2 type note_invoker_def pipe_then_map)
qed

lemma sint_of_int32: "-2147483648 \<le> k \<Longrightarrow> k < 2147483648 \<Longrightarrow> sint (word_of_int k :: u32) = k"
  by (simp add: signed_of_int signed_take_bit_int_eq_self_iff)


text \<open>A booster of an invoker that waits, and a daemon that finds its report.\<close>

definition reporting_booster :: booster where
  "reporting_booster = (Booster_example 3)\<lparr>b_connection := Some ((example_connection [])\<lparr>c_sendPid := True\<rparr>),
     b_appData := setDelay 3 AppData_init\<rparr>"

definition with_pipe :: "byte list \<Rightarrow> daemon \<Rightarrow> daemon" where
  "with_pipe bs d = d\<lparr>d_pipe := \<lparr>rx = plain bs, tx = [], rplan = [], wplan = []\<rparr>\<rparr>"


subsection \<open>Reports that mix\<close>

lemma le32_bytes: obtains a b c e where "le32 w = [a, b, c, e]"
  by (simp add: le32_def)

lemma le32_top_byte: "unat w < 16777216 \<Longrightarrow> le32 w = [a, b, c, e] \<Longrightarrow> e = NUL"
  by (auto simp: le32_def char_of_NUL)

text \<open>
  C38. The three writes of a report are not one: when two boosters report at the same time,
  the daemon may read \<open>s t pid1 pid2 delay1 delay2\<close>. It then forks a booster of the first
  type and one of the type "zero byte", which no plugin has (its process fails), and leaves
  the second type without a new booster: its entry is still the process that has become
  the application.
\<close>

theorem mixed_reports_lose_a_booster:
  assumes "rplan (d_pipe d) = []" "smap_ok (m_boosterTypeToPid d)"
    and "rx (d_pipe d) = plain ([s] @ [t] @ le32 p1 @ le32 p2 @ le32 delay1 @ le32 delay2)"
    and "unat p2 < 16777216" "s \<noteq> t" "s \<noteq> NUL" "t \<noteq> NUL"
    and "d_forks d = a # b # pids" "a \<noteq> -1" "b \<noteq> -1"
  shows "\<exists>d'. and_then (readFromBoosterPipe d) readFromBoosterPipe = Returns d' \<and>
    rx (d_pipe d') = [] \<and> boosterPidForType s d' = a \<and> boosterPidForType NUL d' = b \<and>
    boosterPidForType t d' = boosterPidForType t d \<and>
    BoosterFactory_create NUL shipped_registry = None"
proof -
  obtain x0 x1 x2 x3 where p1: "le32 p1 = [x0, x1, x2, x3]" by (rule le32_bytes)
  obtain y0 y1 y2 y3 where p2: "le32 p2 = [y0, y1, y2, y3]" by (rule le32_bytes)
  have y3: "y3 = NUL" by (rule le32_top_byte [OF assms(4) p2])
  let ?pid = "from_le32 [t, x0, x1, x2]" and ?delay = "from_le32 [x3, y0, y1, y2]"
  have "rx (d_pipe d) = plain (report_bytes s ?pid ?delay) @ plain (report_bytes NUL delay1 delay2)"
    using assms(3) p1 p2 y3 le32_from_le32 [of "[t, x0, x1, x2]"] le32_from_le32 [of "[x3, y0, y1, y2]"]
    by (simp add: report_bytes_def plain_def del: from_le32.simps)
  note r1 = readFromBoosterPipe_report [OF assms(1) this]
  let ?d1 = "(note_invoker s (sint ?pid) d)\<lparr>d_pipe := (d_pipe d)\<lparr>rx := plain (report_bytes NUL delay1 delay2)\<rparr>\<rparr>"
  have d1: "d_forks ?d1 = a # b # pids" "m_boosterTypeToPid ?d1 = m_boosterTypeToPid d"
    using assms(8) by (simp_all add: note_invoker_def)
  have "\<exists>d2. forkBooster s (sint ?delay) ?d1 = Returns d2"
    using d1(1) assms(9) unfolding forkBooster_Returns by blast
  then obtain d2 where f2: "forkBooster s (sint ?delay) ?d1 = Returns d2" by blast
  have d2: "d_forks d2 = b # pids" "d_pipe d2 = d_pipe ?d1" "smap_ok (m_boosterTypeToPid d2)"
    "smap_find (m_boosterTypeToPid d2) k = (if k = s then Some a else smap_find (m_boosterTypeToPid d) k)" for k
    using f2 d1 assms(2) by (auto simp: forkBooster_Returns smap_simps)
  have "rplan (d_pipe d2) = []" "rx (d_pipe d2) = plain (report_bytes NUL delay1 delay2) @ []"
    using d2(2) assms(1) by simp_all
  note r2 = readFromBoosterPipe_report [OF this]
  let ?d3 = "(note_invoker NUL (sint delay1) d2)\<lparr>d_pipe := (d_pipe d2)\<lparr>rx := []\<rparr>\<rparr>"
  have d3: "d_forks ?d3 = b # pids" "m_boosterTypeToPid ?d3 = m_boosterTypeToPid d2"
    using d2(1) by (simp_all add: note_invoker_def)
  have "\<exists>d4. forkBooster NUL (sint delay2) ?d3 = Returns d4"
    using d3(1) assms(10) unfolding forkBooster_Returns by blast
  then obtain d4 where f4: "forkBooster NUL (sint delay2) ?d3 = Returns d4" by blast
  have d4: "rx (d_pipe d4) = []"
    "smap_find (m_boosterTypeToPid d4) k = (if k = NUL then Some b else smap_find (m_boosterTypeToPid d2) k)" for k
    using f4 d3 d2(3) by (auto simp: forkBooster_Returns smap_simps)
  have "BoosterFactory_create NUL shipped_registry = None"
    by (simp add: BoosterFactory_create_def shipped_registry_eq shipped_classes_def entry_of_def)
  then show ?thesis
    using r1 f2 r2 f4 d4 d2(4) assms(5-7) by (simp add: boosterPidForType_def)
qed

theorem mixed_reports_lose_a_booster_witness:
  "\<exists>d'. and_then (readFromBoosterPipe (with_pipe (''mq'' @ le32 4242 @ le32 4243 @ le32 3 @ le32 3) example_daemon))
      readFromBoosterPipe = Returns d' \<and> boosterPidForType (CHR ''q'') d' = 107"
  using mixed_reports_lose_a_booster [of "with_pipe (''mq'' @ le32 4242 @ le32 4243 @ le32 3 @ le32 3) example_daemon"
      "CHR ''m''" "CHR ''q''" 4242 4243 3 3 201 202 "[]"]
  by (auto simp: with_pipe_def example_daemon_def smap_ok_def boosterPidForType_def)

subsection \<open>Reports of the dead\<close>

text \<open>
  Two boosters have reported, \<open>m\<close> (106) first and \<open>q\<close> (107) second, and the application
  that 107 became has already crashed.
\<close>

definition race_daemon :: daemon where
  "race_daemon = (with_pipe (report_bytes (CHR ''m'') 0 1 @ report_bytes (CHR ''q'') 4242 1) example_daemon)
     \<lparr>m_children := [105, 106, 107], m_boosterPidToInvokerPid := [], d_kernel := [105, 106, 107],
      d_ended := [(107, Signaled 11)], d_forks := [201, 202, 203]\<rparr>"

definition select_all :: ready_fds where
  "select_all = \<lparr>booster_ready = True, sigChld_ready = True, sigTerm_ready = False, sigUsr1_ready = False\<rparr>"

definition select_pipe :: ready_fds where
  "select_pipe = \<lparr>booster_ready = True, sigChld_ready = False, sigTerm_ready = False, sigUsr1_ready = False\<rparr>"

lemma race_inv: "daemon_inv (race_daemon\<lparr>d_pipe := s\<rparr>)"
  by (auto simp: race_daemon_def with_pipe_def daemon_inv_def pids_ok_def maps_ok_def forks_fresh_def
      example_daemon_def smap_ok_def split: if_splits)


end
