(* ===== verification/Transition.thy ===== *)
theory Transition
  imports Main
begin

text \<open>
  Transition systems with an invariant, as an interface: a component that shows its
  invariant initially true and kept by every step has it in every reachable state.
\<close>

locale transition_system =
  fixes init :: "'s \<Rightarrow> bool"
    and step :: "'s \<Rightarrow> 's \<Rightarrow> bool"
    and inv :: "'s \<Rightarrow> bool"
  assumes init_inv: "init s \<Longrightarrow> inv s"
    and step_inv: "inv s \<Longrightarrow> step s t \<Longrightarrow> inv t"
begin

lemma steps_inv: "step\<^sup>*\<^sup>* s t \<Longrightarrow> inv s \<Longrightarrow> inv t"
  by (induction rule: rtranclp_induct) (auto intro: step_inv)

lemma reachable_inv: "init s \<Longrightarrow> step\<^sup>*\<^sup>* s t \<Longrightarrow> inv t"
  by (blast intro: steps_inv init_inv)

lemma reachable_step_inv: "init s \<Longrightarrow> step\<^sup>*\<^sup>* s t \<Longrightarrow> step t u \<Longrightarrow> inv u"
  by (blast intro: reachable_inv step_inv)

end

text \<open>
  A system that refines another: every step, seen through \<open>abs\<close>, is a sequence of steps of the
  abstract one. Runs then are runs, and what the abstract system keeps is kept.
\<close>

locale simulation = transition_system init step inv
  for init :: "'s \<Rightarrow> bool"
    and step :: "'s \<Rightarrow> 's \<Rightarrow> bool"
    and inv :: "'s \<Rightarrow> bool" +
  fixes abs :: "'s \<Rightarrow> 'a"
    and astep :: "'a \<Rightarrow> 'a \<Rightarrow> bool"
  assumes step_sim: "inv s \<Longrightarrow> step s t \<Longrightarrow> astep\<^sup>*\<^sup>* (abs s) (abs t)"
begin

lemma steps_sim: "step\<^sup>*\<^sup>* s t \<Longrightarrow> inv s \<Longrightarrow> astep\<^sup>*\<^sup>* (abs s) (abs t)"
proof (induction rule: rtranclp_induct)
  case (step t u)
  from step.IH step_sim [OF steps_inv [OF step.hyps(1)] step.hyps(2)] step.prems show ?case
    by (blast intro: rtranclp_trans)
qed simp

lemma reachable_sim: "init s \<Longrightarrow> step\<^sup>*\<^sup>* s t \<Longrightarrow> astep\<^sup>*\<^sup>* (abs s) (abs t)"
  by (blast intro: steps_sim init_inv)

lemma reachable_keeps:
  assumes "init s" "step\<^sup>*\<^sup>* s t" "I (abs s)" "\<And>a b. astep a b \<Longrightarrow> I a \<Longrightarrow> I b"
  shows "I (abs t)"
  using reachable_sim [OF assms(1,2)] assms(3) by (induction rule: rtranclp_induct) (blast intro: assms(4))+

end

end
