(* ===== verification/Daemon_System.thy ===== *)
theory Daemon_System
  imports Daemon_Pipe Transition
begin

text \<open>
  The daemon among its processes, as a transition system: children end, boosters report,
  the kernel has new pids, and the daemon goes through its loop, in any order. What holds
  in every reachable state is proved once in a locale of transition systems (Transition) and
  instantiated with the daemon's own invariant.
\<close>

subsection \<open>Steps\<close>

definition reports :: "(char \<times> u32 \<times> u32) list \<Rightarrow> item list" where
  "reports ms = concat (map (\<lambda>(type, pid, delay). plain (report_bytes type pid delay)) ms)"

lemma reports_simps [simp]:
  "reports [] = []"
  "reports ((type, pid, delay) # ms) = plain (report_bytes type pid delay) @ reports ms"
  "reports (ms @ ns) = reports ms @ reports ns"
  by (simp_all add: reports_def)

inductive daemon_step :: "daemon \<Rightarrow> daemon \<Rightarrow> bool" where
  child_ends: "c \<in> set (d_kernel d) \<Longrightarrow> smap_find (d_ended d) c = None \<Longrightarrow>
     daemon_step d (d\<lparr>d_ended := smap_set c st (d_ended d)\<rparr>)"
| booster_reports: "type \<noteq> NUL \<Longrightarrow>
     daemon_step d (d\<lparr>d_pipe := (d_pipe d)\<lparr>rx := rx (d_pipe d) @ reports [(type, pid, delay)]\<rparr>\<rparr>)"
| pids_free: "distinct ps \<Longrightarrow> \<forall>p \<in> set ps. 0 < p \<and> p \<notin> set (d_kernel d) \<Longrightarrow>
     daemon_step d (d\<lparr>d_forks := ps\<rparr>)"
| daemon_turns: "main_iteration sel d = Returns d' \<Longrightarrow> daemon_step d d'"

inductive_cases daemon_stepE: "daemon_step d d'"

text \<open>
  The pipe holds whole reports, and every registered plugin has an entry for its booster.
\<close>

definition pipe_ok :: "daemon \<Rightarrow> bool" where
  "pipe_ok d \<longleftrightarrow> rplan (d_pipe d) = [] \<and>
     (\<exists>ms. rx (d_pipe d) = reports ms \<and> (\<forall>m \<in> set ms. fst m \<noteq> NUL))"

definition served :: "daemon \<Rightarrow> bool" where
  "served d \<longleftrightarrow> (\<forall>e \<in> set (d_registry d). smap_find (m_boosterTypeToPid d) (pe_type e) \<noteq> None)"

definition system_inv :: "daemon \<Rightarrow> bool" where
  "system_inv d \<longleftrightarrow> daemon_inv d \<and> pipe_ok d \<and> served d"

lemma note_invoker_fields [simp]:
  "m_children (note_invoker t i d) = m_children d" "d_kernel (note_invoker t i d) = d_kernel d"
  "d_ended (note_invoker t i d) = d_ended d" "d_forks (note_invoker t i d) = d_forks d"
  "m_boosterTypeToPid (note_invoker t i d) = m_boosterTypeToPid d"
  "d_registry (note_invoker t i d) = d_registry d" "d_kills (note_invoker t i d) = d_kills d"
  "m_bootMode (note_invoker t i d) = m_bootMode d"
  by (simp_all add: note_invoker_def)

lemma note_invoker_maps:
  assumes "maps_ok d"
  shows "maps_ok (note_invoker t i d)"
proof (cases "i \<noteq> 0 \<and> boosterPidForType t d \<noteq> 0")
  case True
  then obtain p where p: "smap_find (m_boosterTypeToPid d) t = Some p"
    by (auto simp: boosterPidForType_def split: option.splits)
  note ok = maps_okD [OF assms]
  have "p \<in> set (m_children d)" using ok(3) [OF p] by simp
  then have "q \<in> set (m_children d)"
    if "smap_find (smap_set p i (m_boosterPidToInvokerPid d)) q \<noteq> None" for q
    using that ok(2) ok(5) [of q] by (auto simp: smap.find_set split: if_splits)
  moreover have "note_invoker t i d = d\<lparr>m_boosterPidToInvokerPid := smap_set p i (m_boosterPidToInvokerPid d)\<rparr>"
    using True p by (simp add: note_invoker_def boosterPidForType_def)
  ultimately show ?thesis
    using assms smap.ok_set [OF ok(2)] unfolding maps_ok_def by simp
next
  case False
  then have "note_invoker t i d = d" by (auto simp: note_invoker_def)
  with assms show ?thesis by simp
qed

lemma maps_ok_pipe [simp]: "maps_ok (d\<lparr>d_pipe := s\<rparr>) = maps_ok d"
  "pids_ok (d\<lparr>d_pipe := s\<rparr>) = pids_ok d" "forks_fresh (d\<lparr>d_pipe := s\<rparr>) = forks_fresh d"
  by (simp_all add: daemon_invs)

lemma forkBooster_served:
  assumes "forkBooster t s d = Returns d'" "smap_ok (m_boosterTypeToPid d)" "served d"
  shows "served d'"
proof -
  obtain pid where "d_registry d' = d_registry d"
    "\<And>k. smap_find (m_boosterTypeToPid d') k = (if k = t then Some pid else smap_find (m_boosterTypeToPid d) k)"
    using forkBooster_pid [OF assms(1,2)] by metis
  with assms(3) show ?thesis by (simp add: served_def)
qed

text \<open>One report is read, if there is one: what \<open>readFromBoosterPipe\<close> comes to.\<close>

lemma readFromBoosterPipe_value:
  assumes "pipe_ok d"
  obtains "readFromBoosterPipe d = Returns d" "rx (d_pipe d) = []"
  | t and p w :: u32 and ms where "t \<noteq> NUL" "\<forall>m \<in> set ms. fst m \<noteq> NUL" "readFromBoosterPipe d = forkBooster t (sint w)
      ((note_invoker t (sint p) d)\<lparr>d_pipe := (d_pipe d)\<lparr>rx := reports ms\<rparr>\<rparr>)"
    "rx (d_pipe d) = reports ((t, p, w) # ms)"
proof -
  obtain ms where ms: "rx (d_pipe d) = reports ms" "\<forall>m \<in> set ms. fst m \<noteq> NUL"
    and plan: "rplan (d_pipe d) = []"
    using assms by (auto simp: pipe_ok_def)
  show thesis
  proof (cases ms)
    case Nil
    then have "d\<lparr>d_pipe := (d_pipe d)\<lparr>rx := []\<rparr>\<rparr> = d" using ms(1) by simp
    moreover have "pipe_read 1 d = (0, [], d\<lparr>d_pipe := (d_pipe d)\<lparr>rx := []\<rparr>\<rparr>)"
      using Nil ms(1) plan by (simp add: pipe_read_def sys_read_def take_rx_def)
    ultimately show thesis using that(1) Nil ms(1) by (simp add: readFromBoosterPipe_def)
  next
    case (Cons m rest)
    obtain t p w where m: "m = (t, p, w)" by (cases m)
    then have "rx (d_pipe d) = plain (report_bytes t p w) @ reports rest" using ms(1) Cons by simp
    from that(2) [OF _ _ readFromBoosterPipe_report [OF plan this]] ms Cons m show thesis by simp
  qed
qed

lemma readFromBoosterPipe_inv:
  assumes inv: "system_inv d" and r: "readFromBoosterPipe d = Returns d'"
  shows "system_inv d'"
proof -
  have ok: "pids_ok d" "maps_ok d" "forks_fresh d" "pipe_ok d" "served d"
    using inv by (simp_all add: system_inv_def daemon_inv_def)
  from ok(4) show ?thesis
  proof (cases rule: readFromBoosterPipe_value)
    case 1
    with r inv show ?thesis by simp
  next
    case (2 t p w ms)
    let ?d = "(note_invoker t (sint p) d)\<lparr>d_pipe := (d_pipe d)\<lparr>rx := reports ms\<rparr>\<rparr>"
    have f: "forkBooster t (sint w) ?d = Returns d'" using r 2(3) by simp
    have pre: "pids_ok ?d" "maps_ok ?d" "forks_fresh ?d" "served ?d"
      using ok note_invoker_maps [OF ok(2)] by (simp_all add: daemon_invs served_def)
    note invs = forkBooster_invs [OF f 2(1) pre(1) maps_ok_but [OF pre(2)] pre(3)]
    have "d_pipe d' = (d_pipe d)\<lparr>rx := reports ms\<rparr>"
      using f by (auto simp: forkBooster_Returns)
    then have "pipe_ok d'" using ok(4) 2(2) by (auto simp: pipe_ok_def)
    moreover have "served d'" by (rule forkBooster_served [OF f maps_okD(1) [OF pre(2)] pre(4)])
    ultimately show ?thesis using invs by (simp add: system_inv_def daemon_inv_def)
  qed
qed

lemma reapZombies_system_inv:
  "system_inv d \<Longrightarrow> reapZombies d = Returns d' \<Longrightarrow> system_inv d'"
  using reapZombies_inv [of d d'] by (simp add: system_inv_def pipe_ok_def served_def)

lemma killBoosters_kills:
  "killBoosters d = d\<lparr>d_kills := d_kills d @
     map (\<lambda>(_, pid). (pid, SIGTERM)) (filter (\<lambda>(_, pid). pid \<noteq> 0) (m_boosterTypeToPid d))\<rparr>"
proof -
  have "fold (\<lambda>(_, pid). killProcess pid SIGTERM) m d = d\<lparr>d_kills := d_kills d @
      map (\<lambda>(_, pid). (pid, SIGTERM)) (filter (\<lambda>(_, pid). pid \<noteq> 0) m)\<rparr>"
    for m :: "(char, int) smap" and d
    by (induction m arbitrary: d) (auto simp: killProcess_def sys_kill_def)
  then show ?thesis by (simp add: killBoosters_def)
qed

lemma killBoosters_frame: "\<exists>ks. killBoosters d = d\<lparr>d_kills := ks\<rparr>"
  unfolding killBoosters_kills by blast

lemma enterNormalMode_frame:
  "\<exists>ks. enterNormalMode d = d\<lparr>m_bootMode := False, d_kills := ks\<rparr>"
proof (cases "m_bootMode d")
  case True
  then show ?thesis using killBoosters_frame [of "d\<lparr>m_bootMode := False\<rparr>"]
    by (simp add: enterNormalMode_def)
next
  case False
  then have "d = d\<lparr>m_bootMode := False, d_kills := d_kills d\<rparr>" by simp
  with False show ?thesis by (metis enterNormalMode_def)
qed

lemma system_inv_kills: "system_inv (d\<lparr>m_bootMode := m, d_kills := ks\<rparr>) = system_inv d"
  by (simp add: system_inv_def daemon_inv_def daemon_invs pipe_ok_def served_def)

lemma enterNormalMode_inv: "system_inv d \<Longrightarrow> system_inv (enterNormalMode d)"
  using enterNormalMode_frame [of d] system_inv_kills by auto

lemma main_iteration_stages:
  assumes "main_iteration (Some r) d = Returns d'"
  obtains d1 d2 where "(if booster_ready r then readFromBoosterPipe d else Returns d) = Returns d1"
    "(if sigChld_ready r then reapZombies d1 else Returns d1) = Returns d2"
    "d' = (if sigUsr1_ready r then enterNormalMode d2 else d2)"
proof -
  from assms obtain d1 d2 where
    "(if booster_ready r then readFromBoosterPipe d else Returns d) = Returns d1"
    "(if sigChld_ready r then reapZombies d1 else Returns d1) = Returns d2"
    "(if sigTerm_ready r then Exits EXIT_SUCCESS
      else Returns (if sigUsr1_ready r then enterNormalMode d2 else d2)) = Returns d'"
    unfolding main_iteration_def option.case and_then_eq_Returns by blast
  then show thesis using that by (cases "sigTerm_ready r") simp_all
qed

lemma main_iteration_inv:
  assumes "system_inv d" "main_iteration sel d = Returns d'"
  shows "system_inv d'"
proof (cases sel)
  case None
  with assms show ?thesis by (simp add: main_iteration_def)
next
  case (Some r)
  from assms(2) obtain d1 d2 where
    1: "(if booster_ready r then readFromBoosterPipe d else Returns d) = Returns d1"
    and 2: "(if sigChld_ready r then reapZombies d1 else Returns d1) = Returns d2"
    and 3: "d' = (if sigUsr1_ready r then enterNormalMode d2 else d2)"
    unfolding Some by (rule main_iteration_stages)
  from 1 assms(1) have "system_inv d1" by (auto split: if_splits intro: readFromBoosterPipe_inv)
  with 2 have "system_inv d2" by (auto split: if_splits intro: reapZombies_system_inv)
  with 3 show ?thesis by (auto intro: enterNormalMode_inv)
qed

lemma daemon_step_inv: "daemon_step d d' \<Longrightarrow> system_inv d \<Longrightarrow> system_inv d'"
proof (induction rule: daemon_step.induct)
  case (child_ends c d st)
  then show ?case
    by (auto simp: system_inv_def daemon_inv_def daemon_invs pipe_ok_def served_def smap_simps)
next
  case (booster_reports type d pid delay)
  then obtain ms where "rx (d_pipe d) = reports ms" "\<forall>m \<in> set ms. fst m \<noteq> NUL"
    by (auto simp: system_inv_def pipe_ok_def)
  with booster_reports show ?case
    by (auto simp: system_inv_def daemon_inv_def pipe_ok_def served_def
        intro!: exI [of _ "ms @ [(type, pid, delay)]"])
next
  case (pids_free ps d)
  then show ?case by (auto simp: system_inv_def daemon_inv_def daemon_invs pipe_ok_def served_def)
next
  case (daemon_turns sel d d')
  then show ?case by (blast intro: main_iteration_inv)
qed

subsection \<open>The start\<close>

text \<open>A daemon as it is before \<open>run\<close>: no children, no boosters, nothing in the pipe.\<close>

definition unstarted :: "daemon \<Rightarrow> bool" where
  "unstarted d \<longleftrightarrow> m_children d = [] \<and> m_boosterPidToInvokerPid d = [] \<and> m_boosterTypeToPid d = [] \<and>
     d_kernel d = [] \<and> d_ended d = [] \<and> forks_fresh d \<and>
     d_pipe d = \<lparr>rx = [], tx = [], rplan = [], wplan = []\<rparr>"

definition started :: "daemon \<Rightarrow> bool" where
  "started d \<longleftrightarrow> (\<exists>dir found d0. unstarted d0 \<and> daemon_start dir found d0 = Returns d \<and>
     (\<forall>e \<in> set (d_registry d). pe_type e \<noteq> NUL))"

lemma forkBoosters_from_inv:
  assumes "forkBoosters_from es d = Returns d'" "daemon_inv d" "\<forall>e \<in> set es. pe_type e \<noteq> NUL"
  shows "daemon_inv d' \<and> d_pipe d' = d_pipe d \<and> d_registry d' = d_registry d \<and>
    (\<forall>t. t \<in> pe_type ` set es \<or> smap_find (m_boosterTypeToPid d) t \<noteq> None \<longrightarrow>
       smap_find (m_boosterTypeToPid d') t \<noteq> None)"
  using assms
proof (induction es arbitrary: d)
  case Nil
  then show ?case by simp
next
  case (Cons e es)
  from Cons.prems(1) obtain d1 where f: "forkBooster (pe_type e) 0 d = Returns d1"
    "forkBoosters_from es d1 = Returns d'" by (auto simp: and_then_eq_Returns)
  have ok: "pids_ok d" "maps_ok d" "forks_fresh d" using Cons.prems(2) by (simp_all add: daemon_inv_def)
  have t: "pe_type e \<noteq> NUL" using Cons.prems(3) by simp
  note invs = forkBooster_invs [OF f(1) t ok(1) maps_ok_but [OF ok(2)] ok(3)]
  obtain pid where d1: "d_registry d1 = d_registry d" "d_pipe d1 = d_pipe d"
    "\<And>k. smap_find (m_boosterTypeToPid d1) k = (if k = pe_type e then Some pid else smap_find (m_boosterTypeToPid d) k)"
    using forkBooster_pid [OF f(1) maps_okD(1) [OF ok(2)]] by metis
  have "daemon_inv d1" using invs by (simp add: daemon_inv_def)
  from Cons.IH [OF f(2) this] Cons.prems(3) d1 show ?case by auto
qed

text \<open>The start comes down to its forks, on a daemon without children.\<close>

lemma started_forks:
  assumes "started d"
  obtains d1 where "forkBoosters_from (d_registry d) d1 = Returns d" "daemon_inv d1" "m_children d1 = []"
    "m_boosterPidToInvokerPid d1 = []" "d_pipe d1 = \<lparr>rx = [], tx = [], rplan = [], wplan = []\<rparr>"
    "\<forall>e \<in> set (d_registry d). pe_type e \<noteq> NUL"
proof -
  obtain dir found d0 where d0: "unstarted d0" "daemon_start dir found d0 = Returns d"
    and types: "\<forall>e \<in> set (d_registry d). pe_type e \<noteq> NUL" using assms by (auto simp: started_def)
  from d0(2) obtain m w p where "forkBoosters_from (loadBoosterPlugins dir found (d_registry d0))
      (d0\<lparr>d_registry := loadBoosterPlugins dir found (d_registry d0), d_sockets := m, d_files := w,
        d_proc := p\<rparr>) = Returns d"
    by (auto simp: daemon_start_def forkBoosters_def and_then_eq_Returns Let_def)
  moreover define d1 where "d1 = d0\<lparr>d_registry := loadBoosterPlugins dir found (d_registry d0),
    d_sockets := m, d_files := w, d_proc := p\<rparr>"
  ultimately have f: "forkBoosters_from (d_registry d1) d1 = Returns d" by simp
  have same: "m_children d1 = m_children d0" "m_boosterPidToInvokerPid d1 = m_boosterPidToInvokerPid d0"
    "m_boosterTypeToPid d1 = m_boosterTypeToPid d0" "d_kernel d1 = d_kernel d0"
    "d_ended d1 = d_ended d0" "d_forks d1 = d_forks d0" "d_pipe d1 = d_pipe d0"
    by (simp_all add: d1_def)
  have inv: "daemon_inv d1"
    using d0(1) same by (simp add: unstarted_def daemon_inv_def daemon_invs smap_ok_def)
  have "forkBoosters_from es e = Returns d \<Longrightarrow> d_registry d = d_registry e" for es e
    by (induction es arbitrary: e) (auto simp: and_then_eq_Returns forkBooster_Returns)
  with f have "d_registry d = d_registry d1" by blast
  with that f inv types d0(1) same show thesis by (simp add: unstarted_def)
qed

lemma started_inv: "started d \<Longrightarrow> system_inv d"
proof -
  assume "started d"
  then obtain d1 where d1: "forkBoosters_from (d_registry d) d1 = Returns d" "daemon_inv d1"
    "d_pipe d1 = \<lparr>rx = [], tx = [], rplan = [], wplan = []\<rparr>" "\<forall>e \<in> set (d_registry d). pe_type e \<noteq> NUL"
    by (rule started_forks)
  from forkBoosters_from_inv [OF d1(1,2,4)] d1(3) show "system_inv d"
    by (auto simp: system_inv_def pipe_ok_def served_def intro!: exI [of _ "[]"])
qed

lemma started_pipe: "started d \<Longrightarrow> rx (d_pipe d) = []"
proof -
  assume "started d"
  then obtain d1 where d1: "forkBoosters_from (d_registry d) d1 = Returns d" "daemon_inv d1"
    "d_pipe d1 = \<lparr>rx = [], tx = [], rplan = [], wplan = []\<rparr>" "\<forall>e \<in> set (d_registry d). pe_type e \<noteq> NUL"
    by (rule started_forks)
  from forkBoosters_from_inv [OF d1(1,2,4)] d1(3) show "rx (d_pipe d) = []" by simp
qed

interpretation daemon_system: transition_system started daemon_step system_inv
  by unfold_locales (blast intro: started_inv daemon_step_inv)+

text \<open>A daemon that is about to run, and one that has started its three boosters.\<close>

definition fresh_daemon :: daemon where
  "fresh_daemon = (with_pipe [] example_daemon)\<lparr>m_children := [], m_boosterPidToInvokerPid := [],
     m_boosterTypeToPid := [], d_kernel := [], d_ended := [], d_forks := [101, 102, 103],
     d_registry := []\<rparr>"

lemma fresh_unstarted: "unstarted fresh_daemon"
  by (simp add: unstarted_def fresh_daemon_def with_pipe_def forks_fresh_def)

lemma fresh_starts:
  "\<exists>d. daemon_start ''/usr/lib/applauncherd'' (Some (map (Some \<circ> pluginfactory) shipped_classes)) fresh_daemon
     = Returns d \<and> started d \<and> d_registry d = shipped_registry \<and> d_ended d = [] \<and> m_bootMode d \<and>
     fst ` set (m_boosterTypeToPid d) = range boosterType"
proof -
  have reg: "loadBoosterPlugins ''/usr/lib/applauncherd'' (Some (map (Some \<circ> pluginfactory) shipped_classes))
      (d_registry fresh_daemon) = shipped_registry"
    by (simp add: shipped_registry_def fresh_daemon_def)
  let ?p = "(d_proc fresh_daemon)\<lparr>p_environ := sys_unsetenv ''LD_BIND_NOW'' (p_environ (d_proc fresh_daemon))\<rparr>"
  have socks: "sockets_ok (d_sockets fresh_daemon) (d_files fresh_daemon) ?p"
    using example_ok by (simp add: fresh_daemon_def with_pipe_def example_daemon_def sockets_ok_def fds_ok_def)
  have fit: "\<forall>e \<in> set shipped_registry. length (socketNameFunc e) \<le> 13"
    using registered.sockets_fit by blast
  obtain m w p where i: "initBoosterSockets shipped_registry (d_sockets fresh_daemon) (d_files fresh_daemon) ?p
      = Returns (m, w, p)"
    using initBoosterSockets_ok [OF socks _ fit]
    by (auto simp: fits_def smap_keys_def fresh_daemon_def with_pipe_def example_daemon_def example_files_def)
  let ?d = "fresh_daemon\<lparr>d_proc := ?p, d_registry := shipped_registry\<rparr>"
  have "\<exists>d. forkBoosters (?d\<lparr>d_sockets := m, d_files := w, d_proc := p\<rparr>) = Returns d \<and>
      d_registry d = shipped_registry \<and> d_ended d = [] \<and> m_bootMode d \<and>
      fst ` set (m_boosterTypeToPid d) = range boosterType"
    by (simp add: UNIV_booster_class entry_of_def insert_commute with_pipe_def example_daemon_def forkBoosters_def shipped_registry_eq shipped_classes_def forkBooster_def sys_fork_def
        setPidToBooster_def fresh_daemon_def Let_def)
  then obtain d where "forkBoosters (?d\<lparr>d_sockets := m, d_files := w, d_proc := p\<rparr>) = Returns d"
    "d_registry d = shipped_registry" "d_ended d = []" "m_bootMode d"
    "fst ` set (m_boosterTypeToPid d) = range boosterType" by blast
  then have s: "daemon_start ''/usr/lib/applauncherd'' (Some (map (Some \<circ> pluginfactory) shipped_classes))
      fresh_daemon = Returns d" "d_registry d = shipped_registry" "d_ended d = []" "m_bootMode d"
    "fst ` set (m_boosterTypeToPid d) = range boosterType"
    by (simp_all add: daemon_start_def reg i)
  have "\<forall>e \<in> set (d_registry d). pe_type e \<noteq> NUL" using registered.types_nonzero s(2) by simp
  with s fresh_unstarted show ?thesis unfolding started_def by blast
qed

subsection \<open>What holds in every reachable state\<close>

lemma served_pid:
  assumes "system_inv d" "e \<in> set (d_registry d)"
  shows "boosterPidForType (pe_type e) d \<in> set (m_children d)" "0 < boosterPidForType (pe_type e) d"
proof -
  from assms obtain p where p: "smap_find (m_boosterTypeToPid d) (pe_type e) = Some p"
    by (auto simp: system_inv_def served_def)
  have ok: "maps_ok d" "pids_ok d" using assms(1) by (simp_all add: system_inv_def daemon_inv_def)
  have "p \<in> set (m_children d)" using maps_okD(3) [OF ok(1) p] by simp
  moreover from this have "0 < p" using pids_okD(2,5) [OF ok(2)] by auto
  ultimately show "boosterPidForType (pe_type e) d \<in> set (m_children d)" "0 < boosterPidForType (pe_type e) d"
    using p by (simp_all add: boosterPidForType_def)
qed



text \<open>
  C27. \<open>SIGUSR1\<close> ends the boot mode once. In any reachable state with boosters of the three
  shipped classes, each class's current booster gets one \<open>SIGTERM\<close>, the QtDeclarative booster
  first and the Qt booster last, and nothing else changes, in particular not the boosters'
  entries, so that their deaths make the daemon start new ones; when the signal comes again,
  nothing happens.
\<close>

theorem boot_mode_left_once:
  assumes "started d0" "daemon_step\<^sup>*\<^sup>* d0 d" "m_bootMode d"
    and "fst ` set (m_boosterTypeToPid d) = range boosterType"
  shows "enterNormalMode d = d\<lparr>m_bootMode := False, d_kills := d_kills d @
      map (\<lambda>k. (boosterPidForType (boosterType k) d, SIGTERM)) [QDeclarativeBooster, MBooster, QtBooster]\<rparr> \<and>
    enterNormalMode (enterNormalMode d) = enterNormalMode d"
proof -
  let ?m = "m_boosterTypeToPid d"
  have ok: "maps_ok d" "pids_ok d"
    using daemon_system.reachable_inv [OF assms(1,2)] by (simp_all add: system_inv_def daemon_inv_def)
  note m = maps_okD(1) [OF ok(1)]
  have find: "smap_find ?m t = Some p" if "(t, p) \<in> set ?m" for t p
    using smap.entries_find [OF m] that by simp
  have "0 < p" if "(t, p) \<in> set ?m" for t p
    using maps_okD(3) [OF ok(1) find [OF that]] pids_okD(2,5) [OF ok(2)] by auto
  then have "filter (\<lambda>(_, pid). pid \<noteq> 0) ?m = ?m" by (force intro: filter_True)
  moreover have "map (\<lambda>(_, pid). (pid, SIGTERM)) ?m = map (\<lambda>t. (boosterPidForType t d, SIGTERM)) (map fst ?m)"
    using find by (auto simp: boosterPidForType_def)
  moreover note type_keys_order [OF m assms(4)]
  ultimately show ?thesis
    using assms(3) by (simp add: enterNormalMode_def killBoosters_kills sorted_classes)
qed

theorem boot_mode_left_once_witness:
  "\<exists>d. started d \<and> m_bootMode d \<and> length (d_kills (enterNormalMode d)) = length (d_kills d) + 3"
proof -
  obtain d where d: "started d" "m_bootMode d" "fst ` set (m_boosterTypeToPid d) = range boosterType"
    using fresh_starts by blast
  from boot_mode_left_once [OF d(1) rtranclp.rtrancl_refl d(2,3)] d(1,2) show ?thesis by auto
qed

end
