(* ===== verification/Signal_Pipes.thy ===== *)
theory Signal_Pipes
  imports Daemon_System
begin

text \<open>
  How signals reach the daemon's loop: the handlers of \<open>src/launcherlib/main.cpp\<close> write a byte
  to a pipe each, \<open>select\<close> finds the pipes readable, and the loop of \<open>Daemon::run\<close> reads a byte
  and reacts. Signals arrive between the calls of the loop, also between the read of the
  byte and \<open>reapZombies\<close>: a turn of the loop is two steps here.
\<close>

subsection \<open>Signals, pipes and the loop\<close>

text \<open>
  The daemon; the signals the kernel keeps for it (each at most once); the contents of the three
  pipes; between the two halves of a turn, what \<open>select\<close> had found.
\<close>

record signal_world =
  sw_daemon :: daemon
  sw_pending :: "int set"
  sw_chld :: "byte list"
  sw_term :: "byte list"
  sw_usr1 :: "byte list"
  sw_turn :: "ready_fds option"

definition g_dummyPipeData :: byte where "g_dummyPipeData = NUL"

definition sigChldHandler :: "signal_world \<Rightarrow> signal_world" where
  "sigChldHandler w = w\<lparr>sw_chld := sw_chld w @ [g_dummyPipeData]\<rparr>"

definition sigTermHandler :: "signal_world \<Rightarrow> signal_world" where
  "sigTermHandler w = w\<lparr>sw_term := sw_term w @ [g_dummyPipeData]\<rparr>"

definition sigUsr1Handler :: "signal_world \<Rightarrow> signal_world" where
  "sigUsr1Handler w = w\<lparr>sw_usr1 := sw_usr1 w @ [g_dummyPipeData]\<rparr>"

text \<open>The handlers that \<open>main\<close> installs, and the kernel running one for a pending signal.\<close>

definition installed_handler :: "int \<Rightarrow> signal_world \<Rightarrow> signal_world" where
  "installed_handler sig w =
     (if sig = SIGCHLD then sigChldHandler w
      else if sig = SIGTERM then sigTermHandler w
      else if sig = SIGUSR1 then sigUsr1Handler w
      else w)"

definition deliver_signal :: "int \<Rightarrow> signal_world \<Rightarrow> signal_world" where
  "deliver_signal sig w = (if sig \<in> sw_pending w
     then installed_handler sig (w\<lparr>sw_pending := sw_pending w - {sig}\<rparr>) else w)"

definition select_ready :: "signal_world \<Rightarrow> ready_fds" where
  "select_ready w = \<lparr>booster_ready = (rx (d_pipe (sw_daemon w)) \<noteq> []), sigChld_ready = (sw_chld w \<noteq> []),
     sigTerm_ready = (sw_term w \<noteq> []), sigUsr1_ready = (sw_usr1 w \<noteq> [])\<rparr>"

text \<open>
  A turn up to the read of \<open>SIGCHLD\<close>'s byte, and from \<open>reapZombies\<close> to the end. Without anything
  ready \<open>select\<close> blocks; a turn then does nothing.
\<close>

definition turn_begin :: "signal_world \<Rightarrow> signal_world outcome" where
  "turn_begin w = (let r = select_ready w in
     and_then (if booster_ready r then readFromBoosterPipe (sw_daemon w) else Returns (sw_daemon w)) (\<lambda>d.
     Returns (w\<lparr>sw_daemon := d, sw_chld := (if sigChld_ready r then tl (sw_chld w) else sw_chld w),
       sw_turn := Some r\<rparr>)))"

definition turn_end :: "signal_world \<Rightarrow> signal_world outcome" where
  "turn_end w = (case sw_turn w of
       None \<Rightarrow> Returns w
     | Some r \<Rightarrow>
         and_then (if sigChld_ready r then reapZombies (sw_daemon w) else Returns (sw_daemon w)) (\<lambda>d.
         if sigTerm_ready r then Exits EXIT_SUCCESS
         else if sigUsr1_ready r
              then Returns (w\<lparr>sw_daemon := enterNormalMode d, sw_usr1 := tl (sw_usr1 w), sw_turn := None\<rparr>)
              else Returns (w\<lparr>sw_daemon := d, sw_turn := None\<rparr>)))"

text \<open>Undisturbed, the two halves are \<open>main_iteration\<close> on what \<open>select\<close> finds.\<close>

lemma turn_is_main_iteration:
  "and_then (turn_begin w) (\<lambda>w1. and_then (turn_end w1) (\<lambda>w2. Returns (sw_daemon w2)))
    = main_iteration (Some (select_ready w)) (sw_daemon w)"
  by (cases "sigChld_ready (select_ready w)"; cases "sigTerm_ready (select_ready w)";
      cases "sigUsr1_ready (select_ready w)")
    (simp_all add: turn_begin_def turn_end_def main_iteration_def and_then_assoc Let_def)

inductive signal_step :: "signal_world \<Rightarrow> signal_world \<Rightarrow> bool" where
  dies: "c \<in> set (d_kernel (sw_daemon w)) \<Longrightarrow> smap_find (d_ended (sw_daemon w)) c = None \<Longrightarrow>
     signal_step w (w\<lparr>sw_daemon := (sw_daemon w)\<lparr>d_ended := smap_set c st (d_ended (sw_daemon w))\<rparr>,
       sw_pending := insert SIGCHLD (sw_pending w)\<rparr>)"
| signalled: "signal_step w (w\<lparr>sw_pending := insert sig (sw_pending w)\<rparr>)"
| delivered: "signal_step w (deliver_signal sig w)"
| reported: "type \<noteq> NUL \<Longrightarrow> signal_step w (w\<lparr>sw_daemon := (sw_daemon w)
     \<lparr>d_pipe := (d_pipe (sw_daemon w))\<lparr>rx := rx (d_pipe (sw_daemon w)) @ reports [(type, pid, delay)]\<rparr>\<rparr>\<rparr>)"
| pids: "distinct ps \<Longrightarrow> \<forall>p \<in> set ps. 0 < p \<and> p \<notin> set (d_kernel (sw_daemon w)) \<Longrightarrow>
     signal_step w (w\<lparr>sw_daemon := (sw_daemon w)\<lparr>d_forks := ps\<rparr>\<rparr>)"
| begins: "sw_turn w = None \<Longrightarrow> turn_begin w = Returns w' \<Longrightarrow> signal_step w w'"
| ends: "turn_end w = Returns w' \<Longrightarrow> signal_step w w'"

lemma deliver_signal_fields [simp]:
  "sw_daemon (deliver_signal sig w) = sw_daemon w" "sw_turn (deliver_signal sig w) = sw_turn w"
  by (simp_all add: deliver_signal_def installed_handler_def sigChldHandler_def sigTermHandler_def
      sigUsr1Handler_def)

subsection \<open>The loop refines the daemon's steps\<close>

lemma readFromBoosterPipe_daemon_step: "readFromBoosterPipe d = Returns d' \<Longrightarrow> daemon_step d d'"
  by (rule daemon_turns [where sel = "Some \<lparr>booster_ready = True, sigChld_ready = False,
      sigTerm_ready = False, sigUsr1_ready = False\<rparr>"]) (simp add: main_iteration_def)

lemma turn_end_daemon_step:
  assumes "turn_end w = Returns w'"
  shows "daemon_step\<^sup>*\<^sup>* (sw_daemon w) (sw_daemon w')"
proof (cases "sw_turn w")
  case None
  with assms show ?thesis by (simp add: turn_end_def)
next
  case (Some r)
  have "main_iteration (Some (r\<lparr>booster_ready := False\<rparr>)) (sw_daemon w) = Returns (sw_daemon w')"
    using assms Some by (auto simp: turn_end_def main_iteration_def and_then_eq_Returns split: if_splits)
  then show ?thesis by (blast intro: daemon_turns)
qed

lemma signal_step_refines: "signal_step w w' \<Longrightarrow> daemon_step\<^sup>*\<^sup>* (sw_daemon w) (sw_daemon w')"
proof (induction rule: signal_step.induct)
  case (dies c w st)
  then show ?case by (simp add: r_into_rtranclp child_ends)
next
  case (begins w w')
  then show ?case
    by (auto simp: turn_begin_def and_then_eq_Returns Let_def split: if_splits
        intro: r_into_rtranclp [of daemon_step, OF readFromBoosterPipe_daemon_step])
next
  case (ends w w')
  then show ?case by (rule turn_end_daemon_step)
next
  case (reported type w pid delay)
  then show ?case using r_into_rtranclp [of daemon_step, OF booster_reports] by simp
qed (simp_all add: r_into_rtranclp pids_free)

subsection \<open>No death goes unnoticed\<close>

definition dead_child :: "daemon \<Rightarrow> bool" where
  "dead_child d \<longleftrightarrow> (\<exists>c \<in> set (m_children d). smap_find (d_ended d) c \<noteq> None)"

definition noticed :: "signal_world \<Rightarrow> bool" where
  "noticed w \<longleftrightarrow> SIGCHLD \<in> sw_pending w \<or> sw_chld w \<noteq> [] \<or>
     (\<exists>r. sw_turn w = Some r \<and> sigChld_ready r)"

definition signal_inv :: "signal_world \<Rightarrow> bool" where
  "signal_inv w \<longleftrightarrow> system_inv (sw_daemon w) \<and> (dead_child (sw_daemon w) \<longrightarrow> noticed w)"

text \<open>A daemon that enters its loop with the handlers installed and no child dead.\<close>

definition signals_started :: "signal_world \<Rightarrow> bool" where
  "signals_started w \<longleftrightarrow> started (sw_daemon w) \<and> d_ended (sw_daemon w) = [] \<and> sw_turn w = None"

lemma readFromBoosterPipe_dead:
  assumes "system_inv d" "readFromBoosterPipe d = Returns d'" "dead_child d'"
  shows "dead_child d"
proof -
  have ok: "pipe_ok d" "pids_ok d" "forks_fresh d"
    using assms(1) by (simp_all add: system_inv_def daemon_inv_def)
  from ok(1) show ?thesis
  proof (cases rule: readFromBoosterPipe_value)
    case 1
    with assms(2,3) show ?thesis by simp
  next
    case (2 t p w ms)
    from assms(2) [unfolded 2(3) forkBooster_Returns] obtain pid pids where
      f: "d_forks d = pid # pids" "m_children d' = m_children d @ [pid]" "d_ended d' = d_ended d"
      by auto
    have "pid \<notin> set (d_kernel d)" using ok(3) f(1) by (simp add: forks_fresh_def)
    then have "smap_find (d_ended d) pid = None" using pids_okD(6) [OF ok(2)] by blast
    with assms(3) f show ?thesis by (auto simp: dead_child_def)
  qed
qed

lemma reapZombies_dead: "system_inv d \<Longrightarrow> reapZombies d = Returns d' \<Longrightarrow> \<not> dead_child d'"
  using reapZombies_inv [of d d'] by (auto simp: system_inv_def dead_child_def)

lemma enterNormalMode_dead [simp]: "dead_child (enterNormalMode d) = dead_child d"
proof -
  obtain ks where "enterNormalMode d = d\<lparr>m_bootMode := False, d_kills := ks\<rparr>"
    using enterNormalMode_frame by blast
  then show ?thesis by (simp add: dead_child_def)
qed

lemma signals_distinct [simp]: "SIGCHLD \<noteq> SIGTERM" "SIGTERM \<noteq> SIGCHLD" "SIGCHLD \<noteq> SIGUSR1"
  "SIGUSR1 \<noteq> SIGCHLD" "SIGTERM \<noteq> SIGUSR1" "SIGUSR1 \<noteq> SIGTERM"
  by (simp_all add: SIGCHLD_def SIGTERM_def SIGUSR1_def)

lemma noticed_deliver: "noticed w \<Longrightarrow> noticed (deliver_signal sig w)"
  by (auto simp: noticed_def deliver_signal_def installed_handler_def sigChldHandler_def
      sigTermHandler_def sigUsr1Handler_def)

lemma signal_step_noticed:
  assumes "signal_step w w'" "system_inv (sw_daemon w)" "dead_child (sw_daemon w) \<longrightarrow> noticed w"
  shows "dead_child (sw_daemon w') \<longrightarrow> noticed w'"
  using assms
proof (induction rule: signal_step.induct)
  case (begins w w')
  from begins(2) obtain d where
    d: "(if booster_ready (select_ready w) then readFromBoosterPipe (sw_daemon w) else Returns (sw_daemon w)) = Returns d"
    and w': "w' = w\<lparr>sw_daemon := d, sw_chld := (if sigChld_ready (select_ready w) then tl (sw_chld w) else sw_chld w),
       sw_turn := Some (select_ready w)\<rparr>"
    by (auto simp: turn_begin_def and_then_eq_Returns Let_def)
  have "dead_child d \<Longrightarrow> dead_child (sw_daemon w)"
    using d readFromBoosterPipe_dead [OF begins(3)] by (auto split: if_splits)
  then show ?case using begins(1,4) by (auto simp: w' noticed_def select_ready_def)
next
  case (ends w w')
  show ?case
  proof (cases "sw_turn w")
    case None
    then show ?thesis using ends by (simp add: turn_end_def)
  next
    case (Some r)
    show ?thesis
    proof (cases "sigChld_ready r")
      case True
      with ends(1) Some obtain d where d: "reapZombies (sw_daemon w) = Returns d"
        and w': "sw_daemon w' = d \<or> sw_daemon w' = enterNormalMode d"
        by (auto simp: turn_end_def and_then_eq_Returns split: if_splits)
      then show ?thesis using reapZombies_dead [OF ends(2) d] by auto
    next
      case False
      with ends(1,3) Some show ?thesis
        by (auto simp: turn_end_def noticed_def split: if_splits)
    qed
  qed
qed (auto simp: noticed_deliver, auto simp: noticed_def dead_child_def)

lemma signal_step_inv: "signal_inv w \<Longrightarrow> signal_step w w' \<Longrightarrow> signal_inv w'"
  using signal_step_noticed [of w w'] daemon_system.steps_inv [OF signal_step_refines, of w w']
  by (simp add: signal_inv_def)

lemma signals_started_inv: "signals_started w \<Longrightarrow> signal_inv w"
  by (simp add: signals_started_def signal_inv_def started_inv dead_child_def)

interpretation signals: simulation signals_started signal_step signal_inv sw_daemon daemon_step
  by unfold_locales (blast intro: signals_started_inv signal_step_inv signal_step_refines)+

subsection \<open>A turn returns\<close>

lemma forkBooster_returns:
  "forks_fresh d \<Longrightarrow> d_forks d \<noteq> [] \<Longrightarrow> \<exists>d'. forkBooster t s d = Returns d' \<and>
     length (d_forks d) = Suc (length (d_forks d')) \<and> length (m_children d') = Suc (length (m_children d))"
  by (cases "d_forks d") (auto simp: forkBooster_Returns forks_fresh_def)

lemma reap_child_returns:
  assumes "daemon_inv d" "c \<in> set (m_children d)" "d_forks d \<noteq> []"
  shows "\<exists>d'. reap_child c d = Returns d' \<and> length (d_forks d) \<le> Suc (length (d_forks d'))"
proof -
  have ok: "pids_ok d" "forks_fresh d" using assms(1) by (simp_all add: daemon_inv_def)
  have k: "c \<in> set (d_kernel d)" "0 < c" using pids_okD(2,5) [OF ok(1)] assms(2) by auto
  show ?thesis
  proof (cases "smap_find (d_ended d) c")
    case None
    then show ?thesis using reap_child_alive [OF k(1)] by simp
  next
    case (Some st)
    have b: "forks_fresh (bury c st d)" "d_forks (bury c st d) \<noteq> []"
      using bury_pids_ok [OF ok] assms(3) by simp_all
    show ?thesis
      using forkBooster_returns [OF b, of "boosterTypeForPid c (bury c st d)" m_boosterSleepTime]
      by (auto simp: reap_child_dead [OF k(1) Some k(2)] restart_booster_def Let_def)
  qed
qed

lemma reap_pass_returns:
  assumes "daemon_inv d" "distinct cs" "set cs \<subseteq> set (m_children d)" "length cs \<le> length (d_forks d)"
  shows "\<exists>d'. reap_pass cs d = Returns d'"
  using assms
proof (induction cs arbitrary: d)
  case Nil
  then show ?case by simp
next
  case (Cons c cs)
  then have c: "c \<in> set (m_children d)" "d_forks d \<noteq> []" by auto
  obtain d1 where d1: "reap_child c d = Returns d1" "length (d_forks d) \<le> Suc (length (d_forks d1))"
    using reap_child_returns [OF Cons.prems(1) c] by blast
  note step = reap_child_step [OF Cons.prems(1) c(1) d1(1)]
  have "set cs \<subseteq> set (m_children d1)" using Cons.prems(2,3) step(2) by auto
  then show ?case using Cons.IH [OF step(1)] Cons.prems(2,4) d1 by simp
qed

lemma reapZombies_returns:
  assumes "daemon_inv d" "length (m_children d) \<le> length (d_forks d)"
  shows "\<exists>d'. reapZombies d = Returns d'"
  using reap_pass_returns [OF assms(1) _ _ assms(2)] assms(1)
  by (simp add: reapZombies_pass daemon_inv_def pids_ok_def)

lemma readFromBoosterPipe_returns:
  assumes "system_inv d" "d_forks d \<noteq> []"
  shows "\<exists>d'. readFromBoosterPipe d = Returns d' \<and> length (d_forks d) \<le> Suc (length (d_forks d')) \<and>
    length (m_children d') \<le> Suc (length (m_children d))"
proof -
  have ok: "pipe_ok d" "forks_fresh d" using assms(1) by (simp_all add: system_inv_def daemon_inv_def)
  from ok(1) show ?thesis
  proof (cases rule: readFromBoosterPipe_value)
    case 1
    then show ?thesis by simp
  next
    case (2 t p w ms)
    then show ?thesis
      using forkBooster_returns [of "(note_invoker t (sint p) d)\<lparr>d_pipe := (d_pipe d)\<lparr>rx := reports ms\<rparr>\<rparr>"
          t "sint w"] ok(2) assms(2) by (auto simp: forks_fresh_def)
  qed
qed

subsection \<open>Within one turn\<close>


lemma new_pids: "\<exists>ps. distinct ps \<and> length ps = n \<and> (\<forall>p \<in> set ps. 0 < p \<and> p \<notin> set ks)" for ks :: "int list"
proof -
  let ?s = "sum_list (map abs ks)"
  let ?ps = "map (\<lambda>i. 1 + ?s + int i) [0 ..< n]"
  have "abs k \<le> ?s" if "k \<in> set ks" for k
    using that by (intro member_le_sum_list) auto
  moreover have "0 \<le> ?s" by (intro sum_list_nonneg) auto
  ultimately have "0 < p \<and> p \<notin> set ks" if "p \<in> set ?ps" for p using that by fastforce
  moreover have "distinct ?ps" by (simp add: distinct_map inj_on_def)
  ultimately show ?thesis by (intro exI [of _ ?ps]) simp
qed

text \<open>Three boosters are started, the kernel has pids, and the second booster dies.\<close>

lemma example_death:
  "\<exists>w0 w. signals_started w0 \<and> signal_step\<^sup>*\<^sup>* w0 w \<and> sw_turn w = None \<and> sw_term w = [] \<and>
     length (m_children (sw_daemon w)) + 1 < length (d_forks (sw_daemon w)) \<and>
     d_registry (sw_daemon w) = shipped_registry \<and> dead_child (sw_daemon w) \<and>
     rx (d_pipe (sw_daemon w)) = [] \<and> sw_pending w = {SIGCHLD} \<and> sw_usr1 w = []"
proof -
  obtain d where d: "started d" "d_registry d = shipped_registry" "d_ended d = []"
    using fresh_starts by blast
  let ?w0 = "\<lparr>sw_daemon = d, sw_pending = {}, sw_chld = [], sw_term = [], sw_usr1 = [], sw_turn = None\<rparr>"
  obtain ps where ps: "distinct ps" "length ps = length (m_children d) + 2"
    "\<forall>p \<in> set ps. 0 < p \<and> p \<notin> set (d_kernel d)" using new_pids by blast
  let ?w1 = "?w0\<lparr>sw_daemon := d\<lparr>d_forks := ps\<rparr>\<rparr>"
  have 1: "signal_step ?w0 ?w1" using pids [of ps ?w0] ps by simp
  have inv: "system_inv d" by (rule started_inv [OF d(1)])
  let ?c = "boosterPidForType (pe_type (entry_of QtBooster)) d"
  have "entry_of QtBooster \<in> set (d_registry d)" by (simp add: d(2) shipped_registry_eq)
  from served_pid(1) [OF inv this] have c: "?c \<in> set (m_children d)" .
  then have k: "?c \<in> set (d_kernel d)" using inv by (auto simp: system_inv_def daemon_inv_def pids_ok_def)
  let ?w2 = "?w1\<lparr>sw_daemon := d\<lparr>d_forks := ps, d_ended := smap_set ?c (Exited 0) []\<rparr>, sw_pending := {SIGCHLD}\<rparr>"
  have "signal_step ?w1 ?w2" using dies [of ?c ?w1 "Exited 0"] k d(3) by simp
  with 1 have "signal_step\<^sup>*\<^sup>* ?w0 ?w2" by (meson converse_rtranclp_into_rtranclp r_into_rtranclp)
  moreover have "dead_child (sw_daemon ?w2)" using c by (auto simp: dead_child_def)
  moreover have "signals_started ?w0" using d by (simp add: signals_started_def)
  ultimately show ?thesis
    using ps(2) d(2) started_pipe [OF d(1)] by (intro exI [of _ ?w0] exI [of _ ?w2]) simp
qed


text \<open>
  C9. The wake-ups are never lost, and the interleaved loop adds nothing: in any reachable state,
  also in the middle of a turn, the daemon's state is one that the atomic steps of the daemon
  among its processes reach; and as long as a child is dead and not yet reaped, a \<open>SIGCHLD\<close>
  is pending, a byte is in its pipe, or the running turn is about to reap. (Reading the byte before
  reaping is what this rests on.)
\<close>

theorem no_death_unnoticed:
  assumes "signals_started w0" "signal_step\<^sup>*\<^sup>* w0 w"
  shows "daemon_step\<^sup>*\<^sup>* (sw_daemon w0) (sw_daemon w) \<and> (dead_child (sw_daemon w) \<longrightarrow> noticed w)"
proof
  show "daemon_step\<^sup>*\<^sup>* (sw_daemon w0) (sw_daemon w)"
    by (rule signals.reachable_sim [OF assms])
  show "dead_child (sw_daemon w) \<longrightarrow> noticed w"
    using signals.reachable_inv [OF assms] by (simp add: signal_inv_def)
qed

theorem no_death_unnoticed_witness:
  "\<exists>w0 w. signals_started w0 \<and> dead_child (sw_daemon w) \<and> noticed w"
proof -
  obtain w0 w where w: "signals_started w0" "signal_step\<^sup>*\<^sup>* w0 w" "dead_child (sw_daemon w)"
    using example_death by blast
  from no_death_unnoticed [OF w(1,2)] w(1,3) show ?thesis by blast
qed

end
