(* ===== verification/Launcher_Lock.thy ===== *)
theory Launcher_Lock
  imports Daemon_Safety
begin

text \<open>
  Who holds \<open>/tmp/applauncherd.lock\<close>: the launcher takes the record lock in \<open>Daemon::lock\<close>
  and, started with \<open>-d\<close>, forks twice afterwards (\<open>daemonize\<close>). A record lock belongs to the
  process that took it: it is not inherited by a forked child, and it is gone when its owner ends.
\<close>

type_synonym lock_owner = "int option"

text \<open>\<open>fcntl(F_SETLK)\<close> by a process: whether it succeeds. The end of a process.\<close>

definition setlk :: "int \<Rightarrow> lock_owner \<Rightarrow> bool \<times> lock_owner" where
  "setlk pid owner = (if owner = None \<or> owner = Some pid then (True, Some pid) else (False, owner))"

definition process_ends :: "int \<Rightarrow> lock_owner \<Rightarrow> lock_owner" where
  "process_ends pid owner = (if owner = Some pid then None else owner)"

text \<open>
  \<open>main\<close> of the launcher library up to the main loop, seen from outside: \<open>pid\<close> is the process
  that was started, \<open>pid1\<close> and \<open>pid2\<close> the children of the two forks, if there are any. The
  result is the process that becomes the daemon, if one does.
\<close>

definition launcher_starts :: "nat \<Rightarrow> string list \<Rightarrow> daemon \<Rightarrow> int \<Rightarrow> int \<Rightarrow> int \<Rightarrow> lock_owner
    \<Rightarrow> int option \<times> lock_owner" where
  "launcher_starts lf args d pid pid1 pid2 owner =
     (let (free, owner1) = setlk pid owner;
          (locked, d1) = lock (Some lf) (\<not> free) d
      in if \<not> locked then (None, process_ends pid owner1)
         else (case parseArgs args d1 of
             Returns d2 \<Rightarrow> if m_daemon d2 then (Some pid2, process_ends pid1 (process_ends pid owner1))
                          else (Some pid, owner1)
           | _ \<Rightarrow> (None, process_ends pid owner1)))"

lemma lock_taken: "fst (lock (Some f) taken d) = (\<not> taken)"
  by (simp add: lock_def Let_def split: prod.splits)

definition given :: "string list \<Rightarrow> string list \<Rightarrow> bool" where
  "given names args \<longleftrightarrow> (\<exists>a \<in> set args. a \<in> set names)"

lemma given_simps [simp]:
  "given names [] = False" "given names (a # args) = (a \<in> set names \<or> given names args)"
  by (auto simp: given_def)

abbreviation BOOT_MODE :: "string list" where "BOOT_MODE \<equiv> [''--boot-mode'', ''-b'']"
abbreviation DAEMON :: "string list" where "DAEMON \<equiv> [''--daemon'', ''-d'']"
abbreviation DEBUG :: "string list" where "DEBUG \<equiv> [''--debug'']"
abbreviation HELP :: "string list" where "HELP \<equiv> [''--help'', ''-h'']"
abbreviation QUIET :: "string list" where "QUIET \<equiv> [''--quiet'', ''-q'']"

lemma parseArgs_value:
  "parseArgs args d = (if given HELP args then Exits EXIT_SUCCESS
     else Returns (d\<lparr>m_bootMode := m_bootMode d \<or> given BOOT_MODE args, m_daemon := m_daemon d \<or> given DAEMON args,
       m_debugMode := m_debugMode d \<or> given DEBUG args, m_quiet := m_quiet d \<or> given QUIET args\<rparr>))"
proof (induction args arbitrary: d)
  case Nil
  then show ?case by simp
next
  case (Cons a args)
  consider "a = ''--boot-mode''" | "a = ''-b''" | "a = ''--daemon''" | "a = ''-d''" | "a = ''--debug''"
    | "a = ''--help''" | "a = ''-h''" | "a = ''--quiet''" | "a = ''-q''"
    | "a \<notin> set (BOOT_MODE @ DAEMON @ DEBUG @ HELP @ QUIET)" by fastforce
  then show ?case by cases (simp_all add: Cons.IH)
qed

lemma parseArgs_Returns:
  assumes "list_all (\<lambda>a. a \<notin> {''--help'', ''-h''}) args"
  shows "\<exists>d2. parseArgs args d = Returns d2 \<and>
    m_daemon d2 = (m_daemon d \<or> (\<exists>a \<in> set args. a \<in> {''--daemon'', ''-d''}))"
proof -
  have "\<not> given HELP args" using assms by (auto simp: given_def list_all_iff)
  then show ?thesis by (simp add: parseArgs_value given_def)
qed



end
