(* ===== verification/Search.thy ===== *)
theory Search
  imports Prelude
begin

text \<open>
  \<open>src/invoker/search.c\<close>: where the program to invoke is. What the process sees of its
  surroundings is a record: its environment variable \<open>PATH\<close>, its working directory, and
  which files it may execute.
\<close>

record surroundings =
  PATH :: "string option"
  cwd :: string
  executable :: "string \<Rightarrow> bool"

text \<open>The byte before an empty base path is read: a base path is never empty (see below).\<close>

definition merge_paths :: "string \<Rightarrow> string \<Rightarrow> string outcome" where
  "merge_paths base_path rel_path =
     (if base_path = [] then Undefined OutOfBounds
      else Returns (base_path @ (if last base_path = CHR ''/'' then [] else ''/'') @ rel_path))"

text \<open>The tokens that \<open>strtok_r\<close> with the separator \<open>:\<close> returns: the non-empty parts.\<close>

definition tokens :: "string \<Rightarrow> string list" where
  "tokens path = filter (\<lambda>t. t \<noteq> []) (split_on (CHR '':'') [] path)"

text \<open>The loop over the tokens: the first merged path that may be executed.\<close>

fun search_tokens :: "(string \<Rightarrow> bool) \<Rightarrow> string list \<Rightarrow> string \<Rightarrow> string option outcome" where
  "search_tokens exec [] progname = Returns None"
| "search_tokens exec (t # ts) progname = and_then (merge_paths t progname) (\<lambda>launch.
     if exec launch then Returns (Some launch) else search_tokens exec ts progname)"

definition search_program :: "surroundings \<Rightarrow> string \<Rightarrow> string outcome" where
  "search_program h progname =
     (if progname \<noteq> [] \<and> hd progname = CHR ''/'' then Returns progname
      else if CHR ''/'' \<in> set progname then merge_paths (cwd h) progname
      else (case PATH h of
              None \<Rightarrow> Exits 1
            | Some path \<Rightarrow> and_then (search_tokens (executable h) (tokens path) progname) (\<lambda>l.
                case l of
                  None \<Rightarrow> Exits 1
                | Some launch \<Rightarrow> if hd launch \<noteq> CHR ''/'' then merge_paths (cwd h) launch
                                else Returns launch)))"

subsection \<open>The result\<close>

lemma find_Some_split:
  "List.find P xs = Some c \<Longrightarrow> \<exists>pre post. xs = pre @ c # post \<and> P c \<and> (\<forall>b \<in> set pre. \<not> P b)"
proof (induction xs)
  case (Cons x xs)
  show ?case
  proof (cases "P x")
    case True
    with Cons.prems show ?thesis by (intro exI [of _ "[]"] exI [of _ xs]) simp
  next
    case False
    then obtain pre post where "xs = pre @ c # post \<and> P c \<and> (\<forall>b \<in> set pre. \<not> P b)"
      using Cons by auto
    with False show ?thesis by (intro exI [of _ "x # pre"] exI [of _ post]) simp
  qed
qed simp

lemma merge_paths_Returns:
  "merge_paths b r = Returns p \<longleftrightarrow>
     b \<noteq> [] \<and> p = b @ (if last b = CHR ''/'' then [] else ''/'') @ r"
  by (auto simp: merge_paths_def)

lemma tokens_nonempty: "t \<in> set (tokens path) \<Longrightarrow> t \<noteq> []"
  by (simp add: tokens_def)

lemma search_tokens_value:
  assumes "\<forall>t \<in> set ts. t \<noteq> []"
  shows "search_tokens exec ts name = Returns (List.find exec
    (map (\<lambda>t. t @ (if last t = CHR ''/'' then [] else ''/'') @ name) ts))"
  using assms by (induction ts) (auto simp: merge_paths_def)

text \<open>The candidates, in the order of the search path.\<close>

definition candidates :: "string \<Rightarrow> string \<Rightarrow> string list" where
  "candidates path name = map (\<lambda>t. t @ (if last t = CHR ''/'' then [] else ''/'') @ name) (tokens path)"

lemma search_tokens_candidates:
  "search_tokens exec (tokens path) name = Returns (List.find exec (candidates path name))"
  using search_tokens_value [of "tokens path" exec name] tokens_nonempty by (auto simp: candidates_def)

lemma candidate_nonempty: "c \<in> set (candidates path name) \<Longrightarrow> c \<noteq> []"
  using tokens_nonempty by (auto simp: candidates_def)

lemma merge_absolute:
  "b \<noteq> [] \<Longrightarrow> hd b = CHR ''/'' \<Longrightarrow> \<exists>p. merge_paths b r = Returns p \<and> p \<noteq> [] \<and> hd p = CHR ''/''"
  by (auto simp: merge_paths_def)

lemma search_in_path:
  assumes "CHR ''/'' \<notin> set name" "PATH h = Some path"
  shows "search_program h name = (case List.find (executable h) (candidates path name) of None \<Rightarrow> Exits 1
    | Some launch \<Rightarrow> if hd launch \<noteq> CHR ''/'' then merge_paths (cwd h) launch else Returns launch)"
proof -
  have no: "\<not> (name \<noteq> [] \<and> hd name = CHR ''/'')" using assms(1) by (cases name) auto
  show ?thesis
    unfolding search_program_def if_not_P [OF no] if_not_P [OF assms(1)] assms(2) option.case
      search_tokens_candidates by simp
qed

text \<open>
  C30. The program a name stands for. In a working directory given by an absolute path the
  search is defined for every name and environment and returns an absolute path; an
  absolute name is returned as it is; a name with a slash is taken relative to the working
  directory; any other name is the first candidate in the order of \<open>PATH\<close> that may be
  executed, and the invoker dies with status 1 if there is none.
\<close>

theorem search_program_result:
  assumes "cwd h \<noteq> []" "hd (cwd h) = CHR ''/''"
  shows "(case search_program h name of
      Returns p \<Rightarrow> p \<noteq> [] \<and> hd p = CHR ''/'' \<and>
        (if name \<noteq> [] \<and> hd name = CHR ''/'' then p = name
         else if CHR ''/'' \<in> set name then merge_paths (cwd h) name = Returns p
         else (\<exists>path pre c post. PATH h = Some path \<and> candidates path name = pre @ c # post \<and>
           executable h c \<and> (\<forall>b \<in> set pre. \<not> executable h b) \<and>
           (if hd c = CHR ''/'' then p = c else merge_paths (cwd h) c = Returns p)))
    | Exits n \<Rightarrow> n = 1 \<and> CHR ''/'' \<notin> set name \<and>
        (case PATH h of None \<Rightarrow> True | Some path \<Rightarrow> \<forall>c \<in> set (candidates path name). \<not> executable h c)
    | Undefined _ \<Rightarrow> False)"
proof -
  note merge = merge_absolute [OF assms]
  consider "name \<noteq> [] \<and> hd name = CHR ''/''"
    | "\<not> (name \<noteq> [] \<and> hd name = CHR ''/'')" "CHR ''/'' \<in> set name"
    | "CHR ''/'' \<notin> set name" by blast
  then show ?thesis
  proof cases
    case 1
    then show ?thesis by (simp add: search_program_def)
  next
    case 2
    then show ?thesis using merge [of name] by (auto simp: search_program_def)
  next
    case 3
    then have no: "\<not> (name \<noteq> [] \<and> hd name = CHR ''/'')" by (cases name) auto
    show ?thesis
    proof (cases "PATH h")
      case None
      with 3 no show ?thesis by (simp add: search_program_def)
    next
      case (Some path)
      let ?f = "List.find (executable h) (candidates path name)"
      note s = search_in_path [OF 3 Some]
      show ?thesis
      proof (cases ?f)
        case None
        with s 3 Some show ?thesis by (simp add: find_None_iff)
      next
        case (Some c)
        then obtain pre post where c: "candidates path name = pre @ c # post" "executable h c"
          "\<forall>b \<in> set pre. \<not> executable h b"
          using find_Some_split [OF Some] by auto
        then have "c \<noteq> []" using candidate_nonempty [of c path name] by simp
        then obtain p where p: "search_program h name = Returns p" "p \<noteq> []" "hd p = CHR ''/''"
          "if hd c = CHR ''/'' then p = c else merge_paths (cwd h) c = Returns p"
          using s Some merge [of c] by (cases "hd c = CHR ''/''") auto
        have "\<exists>path pre c post. PATH h = Some path \<and> candidates path name = pre @ c # post \<and>
            executable h c \<and> (\<forall>b \<in> set pre. \<not> executable h b) \<and>
            (if hd c = CHR ''/'' then p = c else merge_paths (cwd h) c = Returns p)"
          using \<open>PATH h = Some path\<close> c p(4) by blast
        then show ?thesis
          unfolding p(1) outcome.case if_not_P [OF no] if_not_P [OF 3] using p(2,3) by blast
      qed
    qed
  qed
qed

theorem search_program_result_witness:
  "search_program \<lparr>PATH = Some ''/usr/bin::bin'', cwd = ''/home'', executable = (\<lambda>f. f = ''bin/app'')\<rparr> ''app''
     = Returns ''/home/bin/app'' \<and>
   (case search_program \<lparr>PATH = Some ''/usr/bin::bin'', cwd = ''/home'', executable = (\<lambda>f. f = ''bin/app'')\<rparr> ''app''
     of Returns p \<Rightarrow> hd p = CHR ''/'' | _ \<Rightarrow> True)"
proof -
  have r: "search_program \<lparr>PATH = Some ''/usr/bin::bin'', cwd = ''/home'', executable = (\<lambda>f. f = ''bin/app'')\<rparr> ''app''
     = Returns ''/home/bin/app''"
    by (simp add: search_program_def tokens_def merge_paths_def)
  then show ?thesis
    using search_program_result [of "\<lparr>PATH = Some ''/usr/bin::bin'', cwd = ''/home'',
      executable = (\<lambda>f. f = ''bin/app'')\<rparr>" "''app''"] by simp
qed

end
