(* ===== verification/Getopt.thy ===== *)
theory Getopt
  imports Prelude
begin

text \<open>
  The option scan of \<open>main\<close> in \<open>src/invoker/invoker.c\<close>: \<open>getopt_long\<close> on the tables of
  the source, in the mode that \<open>POSIXLY_CORRECT\<close> selects, where the scan stops at the
  first argument that is no option. The scan is a function from the arguments to the
  sequence of values the calls return, each with its \<open>optarg\<close>, and the arguments from
  \<open>optind\<close> on.
\<close>

datatype has_arg = no_argument | required_argument

definition longopts :: "(string \<times> has_arg \<times> char) list" where
  "longopts = [
     (''help'', no_argument, CHR ''h''),
     (''creds'', no_argument, CHR ''c''),
     (''wait-term'', no_argument, CHR ''w''),
     (''no-wait'', no_argument, CHR ''n''),
     (''global-syms'', no_argument, CHR ''G''),
     (''deep-syms'', no_argument, CHR ''D''),
     (''single-instance'', no_argument, CHR ''s''),
     (''type'', required_argument, CHR ''t''),
     (''delay'', required_argument, CHR ''d''),
     (''respawn'', required_argument, CHR ''r'')]"

definition optstring :: string where
  "optstring = ''hcwnGDsd:t:r:''"

type_synonym opt = "char \<times> string option"

definition bad_option :: opt where
  "bad_option = (CHR ''?'', None)"

subsection \<open>Short options\<close>

fun short_spec :: "string \<Rightarrow> char \<Rightarrow> has_arg option" where
  "short_spec [] c = None"
| "short_spec [x] c = (if x = c then Some no_argument else None)"
| "short_spec (x # y # xs) c =
     (if x = c then Some (if y = CHR '':'' then required_argument else no_argument)
      else short_spec (y # xs) c)"

text \<open>
  A cluster of short options: \<open>rest\<close> are the arguments behind it, of which an option with
  a required argument may take the first.
\<close>

fun short_options :: "string \<Rightarrow> string list \<Rightarrow> opt list \<times> string list" where
  "short_options [] rest = ([], rest)"
| "short_options (c # cs) rest =
     (case (if c = CHR '':'' \<or> c = CHR '';'' then None else short_spec optstring c) of
        None \<Rightarrow> (case short_options cs rest of (os, r) \<Rightarrow> (bad_option # os, r))
      | Some no_argument \<Rightarrow> (case short_options cs rest of (os, r) \<Rightarrow> ((c, None) # os, r))
      | Some required_argument \<Rightarrow>
          if cs \<noteq> [] then ([(c, Some cs)], rest)
          else (case rest of [] \<Rightarrow> ([bad_option], []) | a # as \<Rightarrow> ([(c, Some a)], as)))"

subsection \<open>Long options\<close>

text \<open>
  An exact name wins; otherwise a name may be abbreviated as long as all entries it
  abbreviates agree.
\<close>

definition long_spec :: "string \<Rightarrow> (has_arg \<times> char) option" where
  "long_spec name = (case map_of longopts name of
       Some s \<Rightarrow> Some s
     | None \<Rightarrow> (case filter (\<lambda>(n, s). take (length name) n = name) longopts of
         [] \<Rightarrow> None
       | (n, s) # more \<Rightarrow> if list_all (\<lambda>(n', s'). s' = s) more then Some s else None))"

definition long_option :: "string \<Rightarrow> string list \<Rightarrow> opt \<times> string list" where
  "long_option arg rest =
     (let name = takeWhile (\<lambda>c. c \<noteq> CHR ''='') arg;
          value = (case dropWhile (\<lambda>c. c \<noteq> CHR ''='') arg of [] \<Rightarrow> None | _ # v \<Rightarrow> Some v)
      in case long_spec name of
           None \<Rightarrow> (bad_option, rest)
         | Some (no_argument, c) \<Rightarrow> (if value = None then (c, None) else bad_option, rest)
         | Some (required_argument, c) \<Rightarrow>
             (case value of
                Some v \<Rightarrow> ((c, Some v), rest)
              | None \<Rightarrow> (case rest of [] \<Rightarrow> (bad_option, []) | a # as \<Rightarrow> ((c, Some a), as))))"

subsection \<open>The scan\<close>

definition is_option :: "string \<Rightarrow> bool" where
  "is_option a \<longleftrightarrow> 1 < length a \<and> hd a = CHR ''-''"

lemma short_options_shrink: "short_options cs rest = (os, r) \<Longrightarrow> length r \<le> length rest"
  by (induction cs rest arbitrary: os r rule: short_options.induct)
    (auto split: option.splits has_arg.splits prod.splits list.splits if_splits)

lemma long_option_shrink: "long_option a rest = (oo, r) \<Longrightarrow> length r \<le> length rest"
  by (auto simp: long_option_def Let_def split: option.splits has_arg.splits prod.splits
      list.splits if_splits)

function getopt_long :: "string list \<Rightarrow> opt list \<times> string list" where
  "getopt_long [] = ([], [])"
| "getopt_long (a # as) =
     (if \<not> is_option a then ([], a # as)
      else if a = ''--'' then ([], as)
      else if take 2 a = ''--'' then
        (case long_option (drop 2 a) as of (oo, rest) \<Rightarrow>
           (case getopt_long rest of (os, r) \<Rightarrow> (oo # os, r)))
      else
        (case short_options (tl a) as of (os1, rest) \<Rightarrow>
           (case getopt_long rest of (os, r) \<Rightarrow> (os1 @ os, r))))"
  by pat_completeness auto
termination
  by (relation "measure length")
    (auto dest!: short_options_shrink long_option_shrink simp: less_Suc_eq_le
      dest: sym)

subsection \<open>Spellings of an option\<close>

text \<open>The ways to write one option on the command line.\<close>

inductive spells :: "string list \<Rightarrow> opt \<Rightarrow> bool" where
  short_flag: "short_spec optstring c = Some no_argument \<Longrightarrow> c \<noteq> CHR '':'' \<Longrightarrow> c \<noteq> CHR ''-'' \<Longrightarrow>
    spells [[CHR ''-'', c]] (c, None)"
| short_joined: "short_spec optstring c = Some required_argument \<Longrightarrow> v \<noteq> [] \<Longrightarrow>
    spells [CHR ''-'' # c # v] (c, Some v)"
| short_separate: "short_spec optstring c = Some required_argument \<Longrightarrow>
    spells [[CHR ''-'', c], v] (c, Some v)"
| long_flag: "long_spec n = Some (no_argument, c) \<Longrightarrow> n \<noteq> [] \<Longrightarrow> CHR ''='' \<notin> set n \<Longrightarrow>
    spells [''--'' @ n] (c, None)"
| long_joined: "long_spec n = Some (required_argument, c) \<Longrightarrow> CHR ''='' \<notin> set n \<Longrightarrow>
    spells [''--'' @ n @ CHR ''='' # v] (c, Some v)"
| long_separate: "long_spec n = Some (required_argument, c) \<Longrightarrow> n \<noteq> [] \<Longrightarrow> CHR ''='' \<notin> set n \<Longrightarrow>
    spells [''--'' @ n, v] (c, Some v)"

lemma required_chars:
  "short_spec optstring c = Some required_argument \<Longrightarrow> c \<in> {CHR ''d'', CHR ''t'', CHR ''r''}"
  by (auto simp: optstring_def split: if_splits)

lemma takeWhile_dropWhile_eq_sign:
  "CHR ''='' \<notin> set n \<Longrightarrow> takeWhile (\<lambda>c. c \<noteq> CHR ''='') n = n"
  "CHR ''='' \<notin> set n \<Longrightarrow> dropWhile (\<lambda>c. c \<noteq> CHR ''='') n = []"
  "CHR ''='' \<notin> set n \<Longrightarrow> takeWhile (\<lambda>c. c \<noteq> CHR ''='') (n @ CHR ''='' # v) = n"
  "CHR ''='' \<notin> set n \<Longrightarrow> dropWhile (\<lambda>c. c \<noteq> CHR ''='') (n @ CHR ''='' # v) = CHR ''='' # v"
  by (auto simp: takeWhile_eq_all_conv takeWhile_tail dropWhile_append3)

lemma getopt_long_spelled:
  "spells chunk oo \<Longrightarrow>
     getopt_long (chunk @ rest) = (case getopt_long rest of (os, r) \<Rightarrow> (oo # os, r))"
proof (induction rule: spells.induct)
  case (short_flag c)
  then have "c \<noteq> CHR '';''" by (auto simp: optstring_def)
  with short_flag show ?case by (simp add: is_option_def split: prod.splits)
next
  case (short_joined c v)
  then show ?case
    using required_chars [of c] by (auto simp: is_option_def neq_Nil_conv split: prod.splits)
next
  case (short_separate c v)
  then show ?case using required_chars [of c] by (auto simp: is_option_def split: prod.splits)
next
  case (long_flag n c)
  then show ?case
    by (simp add: is_option_def long_option_def takeWhile_dropWhile_eq_sign split: prod.splits)
next
  case (long_joined n c v)
  then show ?case
    by (simp add: is_option_def long_option_def takeWhile_dropWhile_eq_sign split: prod.splits)
next
  case (long_separate n c v)
  then show ?case
    by (simp add: is_option_def long_option_def takeWhile_dropWhile_eq_sign split: prod.splits)
qed

lemma getopt_long_stops: "\<not> is_option a \<Longrightarrow> getopt_long (a # as) = ([], a # as)"
  by simp

lemma getopt_long_spelled_list:
  "list_all2 spells chunks os \<Longrightarrow>
     getopt_long (concat chunks @ rest) = (case getopt_long rest of (os', r) \<Rightarrow> (os @ os', r))"
proof (induction rule: list_all2_induct)
  case Nil
  then show ?case by (simp split: prod.splits)
next
  case (Cons chunk chunks oo os)
  then show ?case
    using getopt_long_spelled [OF Cons(1), of "concat chunks @ rest"] by (auto split: prod.splits)
qed



end
