(* ===== verification/Invoker_Main.thy ===== *)
theory Invoker_Main
  imports Handshake Search Getopt Registry
begin

text \<open>
  The program \<open>invoker\<close> as a whole: \<open>main\<close> of \<open>src/invoker/invoker.c\<close> and what it calls
  before the conversation starts. The record \<open>world\<close> is what the calls to the system
  answer: where files are, what kind they are, and which socket paths have a listening
  booster. \<open>ULONG_MAX\<close> is an argument, since the code is built for 32 and 64 bit.
\<close>

datatype app_type = M_APP | QT_APP | QDECL_APP | UNKNOWN_APP

datatype file_kind = Regular | Symbolic | Other_file

record world =
  w_place :: surroundings
  w_stat :: "string \<Rightarrow> file_kind option"
  w_socket_fails :: bool
  w_listening :: "string \<Rightarrow> sock option"

definition DEFAULT_DELAY :: u32 where "DEFAULT_DELAY = 0"
definition RESPAWN_DELAY :: u32 where "RESPAWN_DELAY = 3"
definition MAX_RESPAWN_DELAY :: u32 where "MAX_RESPAWN_DELAY = 10"

definition INVOKER_M_SOCK :: string where "INVOKER_M_SOCK = ''/tmp/boostm''"
definition INVOKER_QT_SOCK :: string where "INVOKER_QT_SOCK = ''/tmp/boostq''"
definition INVOKER_QDECL_SOCK :: string where "INVOKER_QDECL_SOCK = ''/tmp/boostd''"

definition usage :: "int \<Rightarrow> 'a outcome" where
  "usage status = Exits status"

definition show_credentials :: "'a outcome" where
  "show_credentials = Exits 0"

subsection \<open>Delays\<close>

definition isdigit :: "char \<Rightarrow> bool" where
  "isdigit c \<longleftrightarrow> 48 \<le> (of_char c :: nat) \<and> (of_char c :: nat) \<le> 57"

definition decimal :: "string \<Rightarrow> nat" where
  "decimal ds = foldl (\<lambda>n c. 10 * n + (of_char c - 48)) 0 ds"

text \<open>\<open>strtoul\<close> in base 10: the value, and whether \<open>errno\<close> is \<open>ERANGE\<close>.\<close>

definition strtoul :: "nat \<Rightarrow> string \<Rightarrow> nat \<times> bool" where
  "strtoul ulong_max s =
     (let s1 = dropWhile isspace s;
          neg = (s1 \<noteq> [] \<and> hd s1 = CHR ''-'');
          s2 = (if s1 \<noteq> [] \<and> hd s1 \<in> {CHR ''-'', CHR ''+''} then tl s1 else s1);
          n = decimal (takeWhile isdigit s2)
      in if n > ulong_max then (ulong_max, True)
         else (if neg \<and> n \<noteq> 0 then ulong_max + 1 - n else n, False))"

definition get_delay :: "nat \<Rightarrow> string option \<Rightarrow> u32 outcome" where
  "get_delay ulong_max delay_arg = (case delay_arg of
       None \<Rightarrow> Returns DEFAULT_DELAY
     | Some arg \<Rightarrow> (let (value, erange) = strtoul ulong_max arg;
                        delay = word_of_nat value :: u32
                    in if erange \<and> unat delay = ulong_max \<or> delay = 0 then usage 1
                       else Returns delay))"

subsection \<open>The options\<close>

record settings =
  s_app_type :: app_type
  s_magic_options :: u32
  s_wait_term :: bool
  s_delay :: u32
  s_respawn_delay :: u32

definition settings_init :: settings where
  "settings_init = \<lparr>s_app_type = UNKNOWN_APP, s_magic_options = 0 OR INVOKER_MSG_MAGIC_OPTION_WAIT,
     s_wait_term = True, s_delay = DEFAULT_DELAY, s_respawn_delay = RESPAWN_DELAY\<rparr>"

text \<open>The body of the option loop: one value of \<open>getopt_long\<close> and its \<open>optarg\<close>.\<close>

definition handle_option :: "nat \<Rightarrow> opt \<Rightarrow> settings \<Rightarrow> settings outcome" where
  "handle_option ulong_max oo s = (case oo of (opt, optarg) \<Rightarrow>
     if opt = CHR ''h'' then usage 0
     else if opt = CHR ''c'' then show_credentials
     else if opt = CHR ''w'' then Returns s
     else if opt = CHR ''n'' then
       Returns (s\<lparr>s_wait_term := False,
                  s_magic_options := s_magic_options s AND NOT INVOKER_MSG_MAGIC_OPTION_WAIT\<rparr>)
     else if opt = CHR ''G'' then
       Returns (s\<lparr>s_magic_options := s_magic_options s OR INVOKER_MSG_MAGIC_OPTION_DLOPEN_GLOBAL\<rparr>)
     else if opt = CHR ''D'' then
       Returns (s\<lparr>s_magic_options := s_magic_options s OR INVOKER_MSG_MAGIC_OPTION_DLOPEN_DEEP\<rparr>)
     else if opt = CHR ''t'' then (case optarg of
         None \<Rightarrow> Undefined NullDereference
       | Some arg \<Rightarrow>
           if arg = ''m'' then Returns (s\<lparr>s_app_type := M_APP\<rparr>)
           else if arg = ''q'' \<or> arg = ''qt'' then Returns (s\<lparr>s_app_type := QT_APP\<rparr>)
           else if arg = ''d'' then Returns (s\<lparr>s_app_type := QDECL_APP\<rparr>)
           else usage 1)
     else if opt = CHR ''d'' then
       and_then (get_delay ulong_max optarg) (\<lambda>d. Returns (s\<lparr>s_delay := d\<rparr>))
     else if opt = CHR ''r'' then
       and_then (get_delay ulong_max optarg) (\<lambda>d.
         if d > MAX_RESPAWN_DELAY then usage 1 else Returns (s\<lparr>s_respawn_delay := d\<rparr>))
     else if opt = CHR ''s'' then
       Returns (s\<lparr>s_magic_options := s_magic_options s OR INVOKER_MSG_MAGIC_OPTION_SINGLE_INSTANCE\<rparr>)
     else if opt = CHR ''?'' then usage 1
     else Returns s)"

fun handle_options :: "nat \<Rightarrow> opt list \<Rightarrow> settings \<Rightarrow> settings outcome" where
  "handle_options ulong_max [] s = Returns s"
| "handle_options ulong_max (oo # os) s =
     and_then (handle_option ulong_max oo s) (handle_options ulong_max os)"

subsection \<open>Connecting\<close>

text \<open>\<open>invoker_init\<close>: the connected socket, or None for the return value -1.\<close>

definition invoker_init :: "world \<Rightarrow> app_type \<Rightarrow> sock option outcome" where
  "invoker_init w t =
     (if w_socket_fails w then Returns None
      else case t of
          M_APP \<Rightarrow> Returns (w_listening w (take 107 INVOKER_M_SOCK))
        | QT_APP \<Rightarrow> Returns (w_listening w (take 107 INVOKER_QT_SOCK))
        | QDECL_APP \<Rightarrow> Returns (w_listening w (take 107 INVOKER_QDECL_SOCK))
        | UNKNOWN_APP \<Rightarrow> Exits 1)"

definition invoke :: "world \<Rightarrow> string list option \<Rightarrow> string option \<Rightarrow> app_type \<Rightarrow> u32 \<Rightarrow> bool
    \<Rightarrow> u32 \<Rightarrow> invoker \<Rightarrow> (int \<times> invoker) outcome" where
  "invoke w prog_argv prog_name t magic_options wait_term respawn_delay i =
     (case (prog_name, prog_argv) of
        (Some p, Some argv) \<Rightarrow> and_then (invoker_init w t) (\<lambda>fd.
          case fd of
            None \<Rightarrow> Exits EXIT_FAILURE
          | Some s \<Rightarrow> invoke_remote argv (Some p) magic_options wait_term (sint respawn_delay)
                        (i\<lparr>i_sock := s\<rparr>))
      | _ \<Rightarrow> Returns (0, i))"

text \<open>
  \<open>invoke_fallback\<close>: it returns to its caller, or the process (the forked one without
  waiting) becomes the program. \<open>fork_ret\<close> is what \<open>fork\<close> returns, \<open>can_exec\<close> whether
  \<open>execve\<close> succeeds.
\<close>

datatype fallback_end = Back | Becomes string "string list" "string list"

definition invoke_fallback :: "int \<Rightarrow> (string \<Rightarrow> bool) \<Rightarrow> string list \<Rightarrow> string \<Rightarrow> bool \<Rightarrow> invoker
    \<Rightarrow> fallback_end outcome" where
  "invoke_fallback fork_ret can_exec prog_argv prog_name wait_term i =
     (let exec = (if can_exec prog_name then Returns (Becomes prog_name prog_argv (i_environ i))
                  else Exits EXIT_FAILURE)
      in if \<not> wait_term
         then if fork_ret = -1 then Exits EXIT_FAILURE
              else if fork_ret \<noteq> 0 then Returns Back
              else exec
         else exec)"

subsection \<open>main\<close>

definition delay_exit :: "u32 \<Rightarrow> int \<times> invoker \<Rightarrow> int \<times> invoker" where
  "delay_exit delay r = (if delay \<noteq> 0
     then (fst r, (snd r)\<lparr>i_slept := i_slept (snd r) @ [unat delay]\<rparr>) else r)"

definition invoker_main :: "nat \<Rightarrow> world \<Rightarrow> string list \<Rightarrow> invoker \<Rightarrow> (int \<times> invoker) outcome" where
  "invoker_main ulong_max w argv i = (case argv of
       [] \<Rightarrow> Undefined NullDereference
     | argv0 # args \<Rightarrow>
         if strstr argv0 ''invoker'' = None then Exits 1
         else
           let i1 = i\<lparr>i_environ := env_put ''POSIXLY_CORRECT=1'' (i_environ i)\<rparr>;
               (opts, operands) = getopt_long args
           in and_then (handle_options ulong_max opts settings_init) (\<lambda>s.
              case operands of
                [] \<Rightarrow> usage 1
              | prog # _ \<Rightarrow>
                  and_then (search_program ((w_place w)\<lparr>PATH := sys_getenv ''PATH'' (i_environ i1)\<rparr>) prog)
                  (\<lambda>prog_name.
                    case w_stat w prog_name of
                      None \<Rightarrow> Returns (EXIT_STATUS_APPLICATION_NOT_FOUND, i1)
                    | Some kind \<Rightarrow>
                        if kind \<noteq> Regular \<and> kind \<noteq> Symbolic
                        then Returns (EXIT_STATUS_APPLICATION_NOT_FOUND, i1)
                        else if s_app_type s = UNKNOWN_APP then usage 1
                        else and_then (invoke w (Some operands) (Some prog_name) (s_app_type s)
                               (s_magic_options s) (s_wait_term s) (s_respawn_delay s) i1)
                             (\<lambda>r. Returns (delay_exit (s_delay s) r)))))"

end
