(* ===== verification/Invoker_Safety.thy ===== *)
theory Invoker_Safety
  imports Invoker_Main
begin

text \<open>
  Properties of the program \<open>invoker\<close>: what the options come to, how delays are read, how
  an invocation can end, and that a command line arrives at the booster.
\<close>

subsection \<open>What the options mean\<close>

definition magic_bits :: "bool \<Rightarrow> bool \<Rightarrow> bool \<Rightarrow> bool \<Rightarrow> u32" where
  "magic_bits wait glob deep single =
     (if wait then INVOKER_MSG_MAGIC_OPTION_WAIT else 0) OR
     (if glob then INVOKER_MSG_MAGIC_OPTION_DLOPEN_GLOBAL else 0) OR
     (if deep then INVOKER_MSG_MAGIC_OPTION_DLOPEN_DEEP else 0) OR
     (if single then INVOKER_MSG_MAGIC_OPTION_SINGLE_INSTANCE else 0)"

lemma magic_bits_steps:
  "0 OR INVOKER_MSG_MAGIC_OPTION_WAIT = magic_bits True False False False"
  "magic_bits w g d s AND NOT INVOKER_MSG_MAGIC_OPTION_WAIT = magic_bits False g d s"
  "magic_bits w g d s OR INVOKER_MSG_MAGIC_OPTION_DLOPEN_GLOBAL = magic_bits w True d s"
  "magic_bits w g d s OR INVOKER_MSG_MAGIC_OPTION_DLOPEN_DEEP = magic_bits w g True s"
  "magic_bits w g d s OR INVOKER_MSG_MAGIC_OPTION_SINGLE_INSTANCE = magic_bits w g d True"
  "magic_bits w g d s AND INVOKER_MSG_MAGIC_OPTION_MASK = magic_bits w g d s"
  "magic_bits w g d s AND INVOKER_MSG_MAGIC_OPTION_WAIT \<noteq> 0 \<longleftrightarrow> w"
  by (cases w; cases g; cases d; cases s; simp add: magic_bits_def option_defs)+

definition app_type_word :: "string \<Rightarrow> app_type" where
  "app_type_word v = (if v = ''m'' then M_APP else if v \<in> {''q'', ''qt''} then QT_APP
     else if v = ''d'' then QDECL_APP else UNKNOWN_APP)"

text \<open>The type is the last one given.\<close>

fun last_type :: "opt list \<Rightarrow> app_type \<Rightarrow> app_type" where
  "last_type [] t = t"
| "last_type ((c, a) # os) t = last_type os
     (if c = CHR ''t'' then (case a of None \<Rightarrow> t | Some v \<Rightarrow> app_type_word v) else t)"

definition opt_wf :: "opt \<Rightarrow> bool" where
  "opt_wf oo \<longleftrightarrow> fst oo \<in> {CHR ''d'', CHR ''t'', CHR ''r''} \<longrightarrow> snd oo \<noteq> None"

lemma get_delay_positive: "get_delay um (Some a) = Returns dl \<Longrightarrow> 1 \<le> dl"
  by (auto simp: get_delay_def usage_def Let_def word_le_nat_alt Suc_le_eq unat_gt_0 split: prod.splits if_splits)

lemma handle_option_effect:
  assumes "handle_option um oo s = Returns s'" "s_magic_options s = magic_bits w g d e"
    "s_wait_term s = w" "s_respawn_delay s \<in> {1..10}" "opt_wf oo"
  shows "s_magic_options s' = magic_bits (w \<and> fst oo \<noteq> CHR ''n'') (g \<or> fst oo = CHR ''G'')
      (d \<or> fst oo = CHR ''D'') (e \<or> fst oo = CHR ''s'')"
    "s_wait_term s' = (w \<and> fst oo \<noteq> CHR ''n'')" "s_respawn_delay s' \<in> {1..10}"
    "s_app_type s' = last_type [oo] (s_app_type s)"
    "fst oo \<noteq> CHR ''t'' \<or> (\<exists>v. snd oo = Some v \<and> app_type_word v \<noteq> UNKNOWN_APP)"
proof -
  obtain c a where oo: "oo = (c, a)" by (cases oo)
  show "s_magic_options s' = magic_bits (w \<and> fst oo \<noteq> CHR ''n'') (g \<or> fst oo = CHR ''G'')
      (d \<or> fst oo = CHR ''D'') (e \<or> fst oo = CHR ''s'')"
    "s_wait_term s' = (w \<and> fst oo \<noteq> CHR ''n'')"
    using assms by (auto simp: oo handle_option_def usage_def show_credentials_def magic_bits_steps
      and_then_eq_Returns split: if_splits option.splits)
  show "s_respawn_delay s' \<in> {1..10}"
    using assms by (auto simp: oo handle_option_def usage_def show_credentials_def MAX_RESPAWN_DELAY_def
      and_then_eq_Returns opt_wf_def dest: get_delay_positive split: if_splits option.splits)
  show "s_app_type s' = last_type [oo] (s_app_type s)"
    "fst oo \<noteq> CHR ''t'' \<or> (\<exists>v. snd oo = Some v \<and> app_type_word v \<noteq> UNKNOWN_APP)"
    using assms(1,5)
    by (cases "c = CHR ''t''"; cases a;
      auto simp: oo handle_option_def usage_def show_credentials_def opt_wf_def
        app_type_word_def and_then_eq_Returns split: if_splits)+
qed

lemma handle_options_effect:
  assumes "handle_options um os s = Returns s'" "s_magic_options s = magic_bits w g d e"
    "s_wait_term s = w" "s_respawn_delay s \<in> {1..10}" "list_all opt_wf os"
  shows "s_magic_options s' = magic_bits (w \<and> CHR ''n'' \<notin> fst ` set os)
      (g \<or> CHR ''G'' \<in> fst ` set os) (d \<or> CHR ''D'' \<in> fst ` set os) (e \<or> CHR ''s'' \<in> fst ` set os)
    \<and> s_wait_term s' = (w \<and> CHR ''n'' \<notin> fst ` set os) \<and> s_respawn_delay s' \<in> {1..10}
    \<and> s_app_type s' = last_type os (s_app_type s)"
  using assms
proof (induction os arbitrary: s w g d e)
  case Nil
  then show ?case by simp
next
  case (Cons oo os)
  obtain s1 where s1: "handle_option um oo s = Returns s1" "handle_options um os s1 = Returns s'"
    using Cons.prems(1) by (auto simp: and_then_eq_Returns)
  have wf: "opt_wf oo" "list_all opt_wf os" using Cons.prems(5) by simp_all
  note e = handle_option_effect [OF s1(1) Cons.prems(2-4) wf(1)]
  from Cons.IH [OF s1(2) e(1-3) wf(2)] show ?case
    by (cases oo) (simp add: e(4) conj_ac disj_ac eq_commute)
qed

lemma short_options_wf: "short_options cs rest = (os, r) \<Longrightarrow> list_all opt_wf os"
proof (induction cs rest arbitrary: os r rule: short_options.induct)
  case (1 rest)
  then show ?case by simp
next
  case (2 c cs rest)
  have req: "short_spec optstring c = Some no_argument \<Longrightarrow> c \<notin> {CHR ''d'', CHR ''t'', CHR ''r''}"
    by (auto simp: optstring_def)
  show ?case
    using 2 req by (auto simp: opt_wf_def bad_option_def split: option.splits has_arg.splits
        prod.splits list.splits if_splits)
qed

lemma long_spec_entry: "long_spec name = Some sp \<Longrightarrow> sp \<in> snd ` set longopts"
proof -
  assume a: "long_spec name = Some sp"
  show ?thesis
  proof (cases "map_of longopts name")
    case None
    obtain n more where "filter (\<lambda>(n, s). take (length name) n = name) longopts = (n, sp) # more"
      using a None by (auto simp: long_spec_def split: list.splits if_splits)
    then have "(n, sp) \<in> set (filter (\<lambda>(n, s). take (length name) n = name) longopts)"
      by simp
    then have "(n, sp) \<in> set longopts" by (simp only: set_filter mem_Collect_eq)
    then show ?thesis by force
  next
    case (Some s)
    then show ?thesis using a map_of_SomeD [OF Some] by (force simp: long_spec_def)
  qed
qed

lemma long_spec_flag: "long_spec name = Some (no_argument, c) \<Longrightarrow> c \<notin> {CHR ''d'', CHR ''t'', CHR ''r''}"
  using long_spec_entry [of name "(no_argument, c)"] by (auto simp: longopts_def)

lemma long_value_wf:
  "(case val of
      Some v \<Rightarrow> ((c, Some v), rest)
    | None \<Rightarrow> (case rest of [] \<Rightarrow> (bad_option, []) | a # as \<Rightarrow> ((c, Some a), as))) = (oo, r) \<Longrightarrow> opt_wf oo"
  by (cases val; cases rest) (auto simp: opt_wf_def bad_option_def)

lemma long_option_wf:
  assumes "long_option a rest = (oo, r)"
  shows "opt_wf oo"
proof (cases "long_spec (takeWhile (\<lambda>c. c \<noteq> CHR ''='') a)")
  case None
  with assms show ?thesis by (auto simp: long_option_def opt_wf_def bad_option_def)
next
  case (Some sp)
  then obtain k c where sp: "long_spec (takeWhile (\<lambda>c. c \<noteq> CHR ''='') a) = Some (k, c)" by (cases sp) auto
  show ?thesis
  proof (cases k)
    case no_argument
    with sp long_spec_flag have "c \<notin> {CHR ''d'', CHR ''t'', CHR ''r''}" by blast
    with assms sp no_argument show ?thesis
      by (auto simp: long_option_def Let_def opt_wf_def bad_option_def split: if_splits)
  next
    case required_argument
    show ?thesis
      using assms unfolding long_option_def Let_def sp option.case prod.case required_argument has_arg.case
      by (rule long_value_wf)
  qed
qed

lemma getopt_long_wf: "getopt_long args = (os, r) \<Longrightarrow> list_all opt_wf os"
proof (induction args arbitrary: os r rule: getopt_long.induct)
  case 1
  then show ?case by simp
next
  case (2 a as)
  consider "\<not> is_option a \<or> a = ''--''"
    | "is_option a" "a \<noteq> ''--''" "take 2 a = ''--''"
    | "is_option a" "a \<noteq> ''--''" "take 2 a \<noteq> ''--''" by blast
  then show ?case
  proof cases
    case 1
    then show ?thesis using "2.prems" by (auto split: if_splits)
  next
    case c: 2
    obtain oo rest where l: "long_option (drop 2 a) as = (oo, rest)" by (cases "long_option (drop 2 a) as")
    obtain os' r' where g: "getopt_long rest = (os', r')" by (cases "getopt_long rest")
    from "2.IH"(1) [of oo rest] c l g "2.prems" long_option_wf [OF l] show ?thesis by auto
  next
    case c: 3
    obtain os1 rest where l: "short_options (tl a) as = (os1, rest)" by (cases "short_options (tl a) as")
    obtain os' r' where g: "getopt_long rest = (os', r')" by (cases "getopt_long rest")
    from "2.IH"(2) [of os1 rest] c l g "2.prems" short_options_wf [OF l] show ?thesis by auto
  qed
qed
text \<open>
  The options of an invocation are coherent. Whatever the command line, if the option
  loop gets through: the wait flag of the invoker and the wait bit of the request agree and
  are off exactly if \<open>-n\<close> was given; the other bits are exactly the options given and no
  bit outside the option mask is set; the respawn delay is between 1 and 10 seconds; and
  the type is the last one given.
\<close>

theorem options_coherent:
  assumes "getopt_long args = (os, operands)" and "handle_options um os settings_init = Returns s"
  shows "s_wait_term s = (CHR ''n'' \<notin> fst ` set os) \<and>
    s_magic_options s = magic_bits (CHR ''n'' \<notin> fst ` set os) (CHR ''G'' \<in> fst ` set os)
       (CHR ''D'' \<in> fst ` set os) (CHR ''s'' \<in> fst ` set os) \<and>
    (s_magic_options s AND INVOKER_MSG_MAGIC_OPTION_WAIT \<noteq> 0 \<longleftrightarrow> s_wait_term s) \<and>
    s_magic_options s AND INVOKER_MSG_MAGIC_OPTION_MASK = s_magic_options s \<and>
    1 \<le> s_respawn_delay s \<and> s_respawn_delay s \<le> 10 \<and>
    s_app_type s = last_type os UNKNOWN_APP"
  using handle_options_effect [OF assms(2), of True False False False] getopt_long_wf [OF assms(1)]
  by (simp add: settings_init_def magic_bits_steps RESPAWN_DELAY_def del: or.left_neutral)

subsection \<open>Delays\<close>

lemma digit_no_space: "isdigit c \<Longrightarrow> \<not> isspace c" "isdigit c \<Longrightarrow> c \<noteq> CHR ''-''" "isdigit c \<Longrightarrow> c \<noteq> CHR ''+''"
  by (auto simp: isdigit_def isspace_def)

lemma strtoul_digits:
  assumes "ds \<noteq> []" "list_all isdigit ds"
  shows "strtoul um ds = (if decimal ds > um then (um, True) else (decimal ds, False))"
proof -
  have "isdigit (hd ds)" using assms by (cases ds) auto
  note h = digit_no_space [OF this]
  have d: "dropWhile isspace ds = ds" using assms(1) h(1) by (cases ds) auto
  have t: "takeWhile isdigit ds = ds"
    using assms(2) by (simp add: takeWhile_eq_all_conv list_all_iff)
  show ?thesis using h by (simp add: strtoul_def Let_def d t)
qed

text \<open>
  What a delay argument is taken for. For a decimal number on a 64-bit target, a number
  that does not fit an \<open>unsigned long\<close> is accepted as 4294967295 seconds (the range check
  compares the truncated value), and any other number is taken modulo \<open>2 ^ 32\<close>, an
  argument is refused only if that is 0. On a 32-bit target every number out of range is refused.
\<close>

theorem get_delay_decimal:
  assumes "ds \<noteq> []" "list_all isdigit ds"
  shows "get_delay 18446744073709551615 (Some ds) =
      (if decimal ds > 18446744073709551615 then Returns 4294967295
       else if decimal ds mod 4294967296 = 0 then Exits 1
       else Returns (word_of_nat (decimal ds))) \<and>
    get_delay 4294967295 (Some ds) =
      (if decimal ds > 4294967295 \<or> decimal ds = 0 then Exits 1
       else Returns (word_of_nat (decimal ds)))"
proof -
  have u: "unat (x :: u32) \<noteq> 18446744073709551615" for x
  proof -
    have "unat x < 4294967296" using unsigned_less [of x] by simp
    then show ?thesis by simp
  qed
  have z: "(word_of_nat n = (0 :: u32)) = (n mod 4294967296 = 0)" for n
    by (simp add: word_of_nat_eq_0_iff dvd_eq_mod_eq_0)
  have "get_delay 18446744073709551615 (Some ds) =
      (if decimal ds > 18446744073709551615 then Returns 4294967295
       else if decimal ds mod 4294967296 = 0 then Exits 1
       else Returns (word_of_nat (decimal ds)))"
    by (simp add: get_delay_def strtoul_digits [OF assms] usage_def z u)
  then show ?thesis
    by (auto simp: get_delay_def strtoul_digits [OF assms] usage_def z)
qed

theorem get_delay_decimal_witness:
  "get_delay 18446744073709551615 (Some ''99999999999999999999'') = Returns 4294967295 \<and>
   get_delay 18446744073709551615 (Some ''4294967296'') = Exits 1 \<and>
   get_delay 4294967295 (Some ''99999999999999999999'') = Exits 1"
proof -
  have d: "list_all isdigit ''99999999999999999999''" "list_all isdigit ''4294967296''"
    by (simp_all add: isdigit_def)
  show ?thesis
    using get_delay_decimal [OF _ d(1)] get_delay_decimal [OF _ d(2)] by (simp add: decimal_def)
qed

theorem options_coherent_witness:
  "handle_options 4294967295 [(CHR ''t'', Some ''m''), (CHR ''n'', None), (CHR ''r'', Some ''5''), (CHR ''s'', None)]
     settings_init = Returns \<lparr>s_app_type = M_APP, s_magic_options = 8, s_wait_term = False,
       s_delay = 0, s_respawn_delay = 5\<rparr> \<and> magic_bits False False False True = 8"
proof -
  let ?os = "[(CHR ''t'', Some ''m''), (CHR ''n'', None), (CHR ''r'', Some ''5''), (CHR ''s'', None)]"
  have g: "getopt_long [''--type=m'', ''-nr'', ''5'', ''-s'', ''app''] = (?os, [''app''])"
    by (simp add: is_option_def long_option_def long_spec_def longopts_def optstring_def)
  have r: "handle_options 4294967295 ?os settings_init = Returns \<lparr>s_app_type = M_APP, s_magic_options = 8,
      s_wait_term = False, s_delay = 0, s_respawn_delay = 5\<rparr>"
    by (simp add: handle_option_def settings_init_def option_defs get_delay_def strtoul_def isspace_def
        isdigit_def decimal_def MAX_RESPAWN_DELAY_def DEFAULT_DELAY_def)
  show ?thesis using r options_coherent [OF g r] by simp
qed
subsection \<open>The whole program\<close>

text \<open>A computation that is defined and, if it ends the process, does so with a status in \<open>N\<close>.\<close>

fun ends_in :: "int set \<Rightarrow> 'a outcome \<Rightarrow> bool" where
  "ends_in N (Returns x) = True"
| "ends_in N (Exits n) = (n \<in> N)"
| "ends_in N (Undefined u) = False"

lemma ends_in_and_then [intro]:
  "ends_in N m \<Longrightarrow> (\<And>x. m = Returns x \<Longrightarrow> ends_in N (f x)) \<Longrightarrow> ends_in N (and_then m f)"
  by (cases m) auto

lemma invoke_remote_ends: "1 \<in> N \<Longrightarrow> ends_in N (invoke_remote argv prog opts w respawn i)"
  by (auto simp: invoke_remote_def Let_def invoker_send_end_def invoke_recv_ack_def
      invoker_recv_pid_def split: prod.splits)

lemma get_delay_ends: "1 \<in> N \<Longrightarrow> ends_in N (get_delay um a)"
  by (auto simp: get_delay_def usage_def Let_def split: option.splits prod.splits)

lemma ends_in_if: "ends_in N a \<Longrightarrow> ends_in N b \<Longrightarrow> ends_in N (if P then a else b)"
  by simp

lemma handle_option_ends: "opt_wf oo \<Longrightarrow> ends_in {0, 1} (handle_option um oo s)"
proof -
  assume wf: "opt_wf oo"
  obtain c a where oo: "oo = (c, a)" by (cases oo)
  note d = get_delay_ends [of "{0, 1}" um a]
  show ?thesis
  proof (cases a)
    case None
    with wf oo have c: "c \<noteq> CHR ''t''" "c \<noteq> CHR ''d''" "c \<noteq> CHR ''r''" by (auto simp: opt_wf_def)
    show ?thesis
      unfolding handle_option_def oo prod.case if_not_P [OF c(1)] if_not_P [OF c(2)] if_not_P [OF c(3)]
      by (intro ends_in_if) (simp_all add: usage_def show_credentials_def)
  next
    case (Some v)
    then show ?thesis
      unfolding handle_option_def oo prod.case
      by (intro ends_in_if) (use d in \<open>auto simp: usage_def show_credentials_def\<close>)
  qed
qed

lemma handle_options_ends: "list_all opt_wf os \<Longrightarrow> ends_in {0, 1} (handle_options um os s)"
  by (induction os arbitrary: s) (auto simp: handle_option_ends)

lemma merge_paths_ends: "b \<noteq> [] \<Longrightarrow> ends_in N (merge_paths b r)"
  by (simp add: merge_paths_def)

lemma search_program_ends: "cwd h \<noteq> [] \<Longrightarrow> ends_in {0, 1} (search_program h name)"
  by (auto simp: search_program_def search_tokens_candidates merge_paths_ends split: option.splits)

lemma invoke_ends: "t \<noteq> UNKNOWN_APP \<Longrightarrow> ends_in {0, 1} (invoke w argv prog t opts wt respawn i)"
  by (cases t) (auto simp: invoke_def invoker_init_def EXIT_FAILURE_def invoke_remote_ends
      split: option.splits)

definition with_posix :: "invoker \<Rightarrow> invoker" where
  "with_posix i = i\<lparr>i_environ := env_put ''POSIXLY_CORRECT=1'' (i_environ i)\<rparr>"

lemma invoker_main_unfold: "invoker_main um w (argv0 # args) i =
    (if strstr argv0 ''invoker'' = None then Exits 1
     else and_then (handle_options um (fst (getopt_long args)) settings_init) (\<lambda>s.
       case snd (getopt_long args) of
         [] \<Rightarrow> Exits 1
       | prog # rest \<Rightarrow> and_then (search_program ((w_place w)\<lparr>PATH :=
             sys_getenv ''PATH'' (i_environ (with_posix i))\<rparr>) prog) (\<lambda>path.
           if w_stat w path \<notin> {Some Regular, Some Symbolic} then Returns (127, with_posix i)
           else if s_app_type s = UNKNOWN_APP then Exits 1
           else and_then (invoke w (Some (prog # rest)) (Some path) (s_app_type s) (s_magic_options s)
                  (s_wait_term s) (s_respawn_delay s) (with_posix i))
                (\<lambda>r. Returns (delay_exit (s_delay s) r)))))"
proof (cases "getopt_long args")
  case (Pair os operands)
  have kinds: "(case w_stat w path of None \<Rightarrow> a | Some kind \<Rightarrow> if kind \<noteq> Regular \<and> kind \<noteq> Symbolic then a else b)
    = (if w_stat w path \<notin> {Some Regular, Some Symbolic} then a else b)" for path and a b :: "(int \<times> invoker) outcome"
    by (cases "w_stat w path") auto
  show ?thesis
    unfolding invoker_main_def list.case Let_def with_posix_def [symmetric] Pair prod.case fst_conv snd_conv
      usage_def EXIT_STATUS_APPLICATION_NOT_FOUND_def kinds
    by (cases operands; hypsubst) (simp_all only: list.case)
qed

lemma invoker_main_Returns:
  assumes "invoker_main um w (argv0 # args) i = Returns (st, i')" "\<not> (st = 127 \<and> i' = with_posix i)"
  shows "(\<exists>os operands s path sk r. getopt_long args = (os, operands) \<and> operands \<noteq> [] \<and>
      handle_options um os settings_init = Returns s \<and> s_app_type s \<noteq> UNKNOWN_APP \<and>
      w_stat w path \<in> {Some Regular, Some Symbolic} \<and>
      invoke_remote operands (Some path) (s_magic_options s) (s_wait_term s)
        (sint (s_respawn_delay s)) ((with_posix i)\<lparr>i_sock := sk\<rparr>) = Returns r \<and>
      (st, i') = delay_exit (s_delay s) r)"
proof -
  obtain os operands where g: "getopt_long args = (os, operands)" by (cases "getopt_long args")
  let ?h = "(w_place w)\<lparr>PATH := sys_getenv ''PATH'' (i_environ (with_posix i))\<rparr>"
  have "strstr argv0 ''invoker'' \<noteq> None"
    using assms(1) unfolding invoker_main_unfold by (auto split: if_splits)
  with assms(1) obtain s where s: "handle_options um os settings_init = Returns s"
    and c: "(case operands of [] \<Rightarrow> Exits 1
      | prog # rest \<Rightarrow> and_then (search_program ?h prog) (\<lambda>path.
         if w_stat w path \<notin> {Some Regular, Some Symbolic} then Returns (127, with_posix i)
         else if s_app_type s = UNKNOWN_APP then Exits 1
         else and_then (invoke w (Some (prog # rest)) (Some path) (s_app_type s) (s_magic_options s)
                (s_wait_term s) (s_respawn_delay s) (with_posix i))
              (\<lambda>r. Returns (delay_exit (s_delay s) r)))) = Returns (st, i')"
    unfolding invoker_main_unfold g fst_conv snd_conv
    by (simp only: if_False and_then_eq_Returns) blast
  from c obtain prog rest where o: "operands = prog # rest" by (cases operands) auto
  from c obtain path where "search_program ?h prog = Returns path"
    and p: "(if w_stat w path \<notin> {Some Regular, Some Symbolic} then Returns (127, with_posix i)
         else if s_app_type s = UNKNOWN_APP then Exits 1
         else and_then (invoke w (Some operands) (Some path) (s_app_type s) (s_magic_options s)
                (s_wait_term s) (s_respawn_delay s) (with_posix i))
              (\<lambda>r. Returns (delay_exit (s_delay s) r))) = Returns (st, i')"
    unfolding o list.case and_then_eq_Returns by blast
  have k: "w_stat w path \<in> {Some Regular, Some Symbolic}" "s_app_type s \<noteq> UNKNOWN_APP"
    using p assms(2) by (auto split: if_splits)
  with p obtain r where "invoke w (Some operands) (Some path) (s_app_type s) (s_magic_options s)
              (s_wait_term s) (s_respawn_delay s) (with_posix i) = Returns r"
    "(st, i') = delay_exit (s_delay s) r"
    by (auto simp: and_then_eq_Returns)
  note r = this
  then obtain sk where "invoke_remote operands (Some path) (s_magic_options s) (s_wait_term s)
         (sint (s_respawn_delay s)) ((with_posix i)\<lparr>i_sock := sk\<rparr>) = Returns r"
    by (auto simp: invoke_def and_then_eq_Returns split: option.splits)
  moreover have "operands \<noteq> []" using o by simp
  ultimately show ?thesis using g s k r(2) by blast
qed

text \<open>
  C28. How an invocation ends. For every command line, environment and file system the
  program is defined; it dies with status 0 or 1, or returns 127 without having contacted a
  booster, or returns what the conversation with a booster returned: then the
  program file exists, a type was given, and the request carries the operands of the command line.
\<close>

theorem invoker_main_outcome:
  assumes "argv \<noteq> []" "cwd (w_place w) \<noteq> []"
  shows "(case invoker_main um w argv i of
      Undefined _ \<Rightarrow> False
    | Exits n \<Rightarrow> n = 0 \<or> n = 1
    | Returns (st, i') \<Rightarrow> st = 127 \<and> i' = with_posix i \<or>
        (\<exists>os operands s path sk r. getopt_long (tl argv) = (os, operands) \<and> operands \<noteq> [] \<and>
           handle_options um os settings_init = Returns s \<and> s_app_type s \<noteq> UNKNOWN_APP \<and>
           w_stat w path \<in> {Some Regular, Some Symbolic} \<and>
           invoke_remote operands (Some path) (s_magic_options s) (s_wait_term s)
             (sint (s_respawn_delay s)) ((with_posix i)\<lparr>i_sock := sk\<rparr>) = Returns r \<and>
           (st, i') = delay_exit (s_delay s) r))"
proof -
  obtain argv0 args where argv: "argv = argv0 # args" using assms(1) by (cases argv) auto
  obtain os operands where g: "getopt_long args = (os, operands)" by (cases "getopt_long args")
  have "ends_in {0, 1} (invoker_main um w argv i)"
    unfolding argv invoker_main_unfold g fst_conv snd_conv
    by (intro ends_in_if ends_in_and_then handle_options_ends getopt_long_wf [OF g])
      (auto split: list.splits intro!: ends_in_and_then search_program_ends invoke_ends simp: assms(2))
  note ends = this [unfolded argv]
  show ?thesis
  proof (cases "invoker_main um w (argv0 # args) i")
    case (Returns x)
    obtain st i' where x: "x = (st, i')" by (cases x)
    show ?thesis
      unfolding argv Returns unfolding x list.sel outcome.case prod.case
      using invoker_main_Returns [OF Returns [unfolded x]] by blast
  qed (use ends in \<open>auto simp: argv\<close>)
qed

subsection \<open>From the command line to the booster\<close>

text \<open>The booster that an application type stands for.\<close>

fun booster_for :: "app_type \<Rightarrow> booster_class option" where
  "booster_for M_APP = Some MBooster"
| "booster_for QT_APP = Some QtBooster"
| "booster_for QDECL_APP = Some QDeclarativeBooster"
| "booster_for UNKNOWN_APP = None"

lemma invoker_init_socket:
  "booster_for t = Some k \<Longrightarrow> \<not> w_socket_fails w \<Longrightarrow>
     invoker_init w t = Returns (w_listening w (socketId k))"
  by (cases t) (auto simp: invoker_init_def INVOKER_M_SOCK_def INVOKER_QT_SOCK_def INVOKER_QDECL_SOCK_def)

text \<open>A command line as a user writes it, and surroundings in which the invocation gets through.\<close>

definition invocation :: "nat \<Rightarrow> world \<Rightarrow> invoker \<Rightarrow> opt list \<Rightarrow> string \<Rightarrow> settings \<Rightarrow> string \<Rightarrow> sock \<Rightarrow> bool" where
  "invocation um w i os prog s path sk \<longleftrightarrow>
     handle_options um os settings_init = Returns s \<and>
     search_program ((w_place w)\<lparr>PATH := sys_getenv ''PATH'' (i_environ (with_posix i))\<rparr>) prog = Returns path \<and>
     w_stat w path = Some Regular \<and> \<not> w_socket_fails w \<and>
     (\<exists>k. booster_for (s_app_type s) = Some k \<and> w_listening w (socketId k) = Some sk)"

lemma invoker_main_invokes:
  assumes "invocation um w i os prog s path sk" "strstr argv0 ''invoker'' \<noteq> None"
    "getopt_long args = (os, prog # rest)"
  shows "invoker_main um w (argv0 # args) i =
    and_then (invoke_remote (prog # rest) (Some path) (s_magic_options s) (s_wait_term s)
        (sint (s_respawn_delay s)) ((with_posix i)\<lparr>i_sock := sk\<rparr>))
      (\<lambda>r. Returns (delay_exit (s_delay s) r))"
proof -
  obtain k where k: "booster_for (s_app_type s) = Some k" "w_listening w (socketId k) = Some sk"
    "\<not> w_socket_fails w"
    using assms(1) by (auto simp: invocation_def)
  have "s_app_type s \<noteq> UNKNOWN_APP" using k(1) by auto
  then show ?thesis
    unfolding invoker_main_unfold if_not_P [OF assms(2)]
    using assms(1,3) invoker_init_socket [OF k(1,3)] k(2) by (simp add: invocation_def invoke_def)
qed

lemma respawn_sint:
  assumes "1 \<le> (d :: u32)" "d \<le> 10"
  shows "sint d = uint d"
proof -
  have "uint d \<le> 10" using assms(2) by (simp add: word_le_def)
  then have "uint d < 2147483648" "- 2147483648 \<le> uint d" using uint_ge_0 [of d] by linarith+
  then show ?thesis by (simp add: sint_uint signed_take_bit_int_eq_self_iff)
qed

text \<open>
  C2. From the command line to the booster: options spelled in any way, then a program and
  its arguments. If the invocation gets through and returns, then a booster of the type's own
  socket that reads what the invoker wrote obtains exactly the options given, the program's
  path, the program's own arguments (name first, options of the program untouched), the
  respawn delay, and the invoker's environment, to which \<open>POSIXLY_CORRECT=1\<close> has been added.
\<close>

theorem command_line_reaches_booster:
  assumes "list_all2 spells chunks os" "\<not> is_option prog" "strstr argv0 ''invoker'' \<noteq> None"
    and "invocation um w i os prog s path sk" "wplan sk = []" "tx sk = []"
    and "sendable c (prog # args) path (with_posix i)"
    and "invoker_main um w (argv0 # concat chunks @ prog # args) i = Returns (st, i')"
    and "ready c" "tx (c_sock c) = []" "rx (c_sock c) = deliver install (tx (i_sock i'))"
  shows "\<exists>a c'. receiveApplicationData AppData_init c = (True, a, c') \<and> rx (c_sock c') = [] \<and>
     m_options a = magic_bits (CHR ''n'' \<notin> fst ` set os) (CHR ''G'' \<in> fst ` set os)
       (CHR ''D'' \<in> fst ` set os) (CHR ''s'' \<in> fst ` set os) \<and>
     m_appName a = prog \<and> m_fileName a = path \<and> m_argv a = Some (map Str (prog # args)) \<and>
     m_delay a = uint (s_respawn_delay s) \<and> m_ioDescriptors a = map install [0, 1, 2] \<and>
     c_environ c' = env_put ''POSIXLY_CORRECT=1'' (i_environ i)"
proof -
  let ?i = "(with_posix i)\<lparr>i_sock := sk\<rparr>"
  have g: "getopt_long (concat chunks @ prog # args) = (os, prog # args)"
    using getopt_long_spelled_list [OF assms(1)] getopt_long_stops [OF assms(2)] by simp
  have e: "s_magic_options s = magic_bits (CHR ''n'' \<notin> fst ` set os) (CHR ''G'' \<in> fst ` set os)
       (CHR ''D'' \<in> fst ` set os) (CHR ''s'' \<in> fst ` set os)" "s_respawn_delay s \<in> {1..10}"
    using handle_options_effect [of um os settings_init s True False False False] getopt_long_wf [OF g]
      assms(4) by (simp_all add: invocation_def settings_init_def magic_bits_steps RESPAWN_DELAY_def
      del: or.left_neutral)
  have d: "sint (s_respawn_delay s) = uint (s_respawn_delay s)" "uint (s_respawn_delay s) \<le> 10"
    using e(2) respawn_sint [of "s_respawn_delay s"] by (simp_all add: word_le_def)
  obtain i2 where r: "invoke_remote (prog # args) (Some path) (s_magic_options s) (s_wait_term s)
      (sint (s_respawn_delay s)) ?i = Returns (st, i2)" "tx (i_sock i') = tx (i_sock i2)"
    using assms(8) invoker_main_invokes [OF assms(4,3) g]
    by (auto simp: and_then_eq_Returns delay_exit_def split: if_splits)
  have snd: "can_send ?i" "tx (i_sock ?i) = []" "sendable c (prog # args) path ?i"
    using assms(5-7) by (simp_all add: can_send_def sendable_def)
  have m: "s_magic_options s AND INVOKER_MSG_MAGIC_OPTION_MASK = s_magic_options s"
    by (simp add: e(1) magic_bits_steps)
  have b: "- 2147483648 \<le> sint (s_respawn_delay s)" "sint (s_respawn_delay s) < 2147483648"
    using d uint_ge_0 [of "s_respawn_delay s"] by linarith+
  have "\<exists>c'. receiveApplicationData AppData_init c =
      (True, delivered install (prog # args) path (s_magic_options s) (sint (s_respawn_delay s)) ?i, c')
    \<and> c_environ c' = i_environ ?i \<and> rx (c_sock c') = []"
    using request_delivered [OF snd(1,2) r(1) m snd(3) b assms(9,10)] assms(11) r(2) by auto
  then show ?thesis by (auto simp: delivered_def e(1) d(1) with_posix_def)
qed

text \<open>Surroundings with one program and one listening booster.\<close>

definition example_world :: "item list \<Rightarrow> world" where
  "example_world reply = \<lparr>w_place = \<lparr>PATH = None, cwd = ''/home'', executable = (\<lambda>f. f = ''/bin/app'')\<rparr>,
     w_stat = (\<lambda>f. if f = ''/bin/app'' then Some Regular else None), w_socket_fails = False,
     w_listening = (\<lambda>p. if p = ''/tmp/boostm'' then Some \<lparr>rx = reply, tx = [], rplan = [], wplan = []\<rparr>
        else None)\<rparr>"

theorem invoker_main_outcome_witness:
  "invoker_main 4294967295 (example_world []) [''/usr/bin/invoker'', ''--type=m'', ''none''] (example_invoker [])
     = Exits 1 \<and>
   (case invoker_main 4294967295 (example_world []) [''/usr/bin/invoker'', ''--type=m'', ''none''] (example_invoker [])
      of Exits n \<Rightarrow> n = 0 \<or> n = 1 | _ \<Rightarrow> False)"
proof -
  have r: "invoker_main 4294967295 (example_world []) [''/usr/bin/invoker'', ''--type=m'', ''none''] (example_invoker [])
     = Exits 1"
    by (simp add: invoker_main_def is_option_def long_option_def long_spec_def longopts_def
        handle_option_def settings_init_def example_world_def example_invoker_def search_program_def tokens_def
        merge_paths_def env_key_def env_name_def putenv_sanitize_def)
  then show ?thesis
    using invoker_main_outcome [where argv = "[''/usr/bin/invoker'', ''--type=m'', ''none'']"
        and w = "example_world []" and um = 4294967295 and i = "example_invoker []"]
    by (simp add: example_world_def)
qed

theorem command_line_reaches_booster_witness:
  "\<exists>i' a c'. invoker_main 4294967295 (example_world example_reply)
      [''invoker'', ''--type=m'', ''-s'', ''app'', ''-n''] (example_invoker []) = Returns (7, i') \<and>
     receiveApplicationData AppData_init (example_connection (deliver (\<lambda>n. n + 10) (tx (i_sock i'))))
       = (True, a, c') \<and> m_argv a = Some [Str ''app'', Str ''-n''] \<and> m_options a = 9 \<and>
     m_fileName a = ''/bin/app'' \<and> c_environ c' = [''A=1'', ''PATH=/bin'', ''POSIXLY_CORRECT=1'']"
proof -
  let ?w = "example_world example_reply" and ?i = "example_invoker []"
  let ?sk = "\<lparr>rx = example_reply, tx = [], rplan = [], wplan = []\<rparr>"
  let ?os = "[(CHR ''t'', Some ''m''), (CHR ''s'', None)]"
  let ?s = "\<lparr>s_app_type = M_APP, s_magic_options = 9, s_wait_term = True, s_delay = 0, s_respawn_delay = 3\<rparr>"
  have sp: "list_all2 spells [[''--'' @ ''type'' @ CHR ''='' # ''m''], [[CHR ''-'', CHR ''s'']]] ?os"
    using long_joined [of "''type''" "CHR ''t''" "''m''"] short_flag [of "CHR ''s''"]
    by (simp add: long_spec_def longopts_def optstring_def)
  have env: "i_environ (with_posix ?i) = [''A=1'', ''PATH=/bin'', ''POSIXLY_CORRECT=1'']"
    by (simp add: with_posix_def example_invoker_def env_name_def putenv_sanitize_def)
  have inv: "invocation 4294967295 ?w ?i ?os ''app'' ?s ''/bin/app'' ?sk"
    by (simp add: invocation_def handle_option_def settings_init_def option_defs RESPAWN_DELAY_def
        DEFAULT_DELAY_def example_world_def search_program_def tokens_def merge_paths_def env env_key_def)
  have ok: "sendable c [''app'', ''-n''] ''/bin/app'' (with_posix ?i)" if "c_nomem c = (\<lambda>_. False)" for c
    using that by (simp add: sendable_def args_ok_def str_ok_def env env_ok_def env_name_def putenv_sanitize_def)
      (simp add: with_posix_def example_invoker_def)
  have g: "getopt_long [''--type=m'', ''-s'', ''app'', ''-n''] = (?os, [''app'', ''-n''])"
    by (simp add: is_option_def long_option_def long_spec_def longopts_def optstring_def)
  obtain i2 where "invoke_remote [''app'', ''-n''] (Some ''/bin/app'') 9 True (sint (3 :: u32))
      ((with_posix ?i)\<lparr>i_sock := ?sk\<rparr>) = Returns (7, i2)"
    using invoke_remote_reply [of "(with_posix ?i)\<lparr>i_sock := ?sk\<rparr>" "[''app'', ''-n'']" True 321 7
        "''/bin/app''" 9 "sint (3 :: u32)"] by (auto simp: example_reply_def can_send_def)
  then have r: "invoker_main 4294967295 ?w [''invoker'', ''--type=m'', ''-s'', ''app'', ''-n''] ?i = Returns (7, i2)"
    using invoker_main_invokes [OF inv _ g, of "''invoker''"] by (simp add: delay_exit_def)
  then show ?thesis
    using command_line_reaches_booster [OF sp _ _ inv _ _ ok, where ?argv0.0 = "''invoker''"
        and st = 7 and i' = i2 and c = "example_connection (deliver (\<lambda>n. n + 10) (tx (i_sock i2)))"
        and install = "\<lambda>n. n + 10"]
    by (auto simp: is_option_def magic_bits_def option_defs env_name_def putenv_sanitize_def)
qed

end
