(* ===== verification/Signals.thy ===== *)
theory Signals
  imports Handshake
begin

text \<open>
  Signals that reach the invoker while it waits for the application (\<open>sigs_set\<close>,
  \<open>sigs_init\<close>, \<open>sigs_restore\<close> and \<open>sig_forwarder\<close> of \<open>src/invoker/invoker.c\<close>): which are
  forwarded, and what becomes of the invoker. Signal numbers and default actions are those
  of signal(7) on ARM and x86. The invoker runs, is stopped, or is dead.
\<close>

text \<open>The list of \<open>sigs_set\<close>, in its order (SIGABRT to SIGXFSZ).\<close>

definition sigs_set :: "int list" where
  "sigs_set = [6, 14, 7, 17, 18, 1, 2, 29, 6, 13, 27, 30, 3, 11, 31, 15, 5, 20, 21, 22, 10, 12, 26, 28, 24, 25]"

datatype fate = Runs | Stopped | Dead

definition default_fate :: "int \<Rightarrow> fate" where
  "default_fate sig = (if sig \<in> {17, 18, 23, 28} then Runs
     else if sig \<in> {19, 20, 21, 22} then Stopped else Dead)"

text \<open>
  One signal: the signals sent to the application, the invoker, and its fate. The handler
  raises the signal again with the default actions restored.
\<close>

definition signal_arrives :: "int \<Rightarrow> invoker \<Rightarrow> (int \<times> int) list \<times> invoker \<times> fate" where
  "signal_arrives sig i =
     (if i_forwarding i \<and> sig \<in> set sigs_set
      then (case sig_forwarder sig i of (calls, i1) \<Rightarrow>
        (concat (map (\<lambda>c. case c of Kill pid s \<Rightarrow> [(pid, s)] | Raise s \<Rightarrow> []) calls), i1,
         if Raise sig \<in> set calls then default_fate sig else Runs))
      else ([], i, default_fate sig))"

text \<open>A sequence of signals; one that comes after the invoker has died or stopped is not delivered.\<close>

fun signals_arrive :: "int list \<Rightarrow> invoker \<Rightarrow> (int \<times> int) list \<times> invoker \<times> fate" where
  "signals_arrive [] i = ([], i, Runs)"
| "signals_arrive (sig # sigs) i = (case signal_arrives sig i of (sent, i1, fate) \<Rightarrow>
     if fate = Runs then (case signals_arrive sigs i1 of (sent', i2, fate') \<Rightarrow> (sent @ sent', i2, fate'))
     else (sent, i1, fate))"

lemma not_forwarding:
  assumes "\<not> i_forwarding i" "signals_arrive sigs i = (sent, i', fate)"
  shows "sent = []"
  using assms
proof (induction sigs arbitrary: sent i' fate)
  case (Cons s sigs)
  then show ?case by (auto simp: signal_arrives_def split: if_splits prod.splits)
qed simp

lemma forwarded_once:
  "i_forwarding i \<Longrightarrow> 0 \<le> g_invoked_pid i \<Longrightarrow> s \<in> set sigs_set \<Longrightarrow>
     signal_arrives s i = ([(g_invoked_pid i, s)], sigs_restore i, default_fate s)"
  by (simp add: signal_arrives_def sig_forwarder_def)

text \<open>
  C37. At most one signal is ever forwarded. Of the signals that reach a waiting invoker, the
  first (apart from SIGURG, 23, which is neither forwarded nor ends anything) goes to the
  application if it is on the list, and no other: handling it switches forwarding off. So after
  a signal that does not end the invoker by default (17, a child's end; 18, a continuation; 28, a
  change of the terminal's size) a SIGTERM (15) kills the invoker, and the application never hears of it.
\<close>

theorem only_first_signal_forwarded:
  assumes "i_forwarding i" "0 \<le> g_invoked_pid i"
  shows "fst (signals_arrive sigs i) = (case dropWhile (\<lambda>s. s = 23) sigs of
      [] \<Rightarrow> [] | s # _ \<Rightarrow> if s \<in> set sigs_set then [(g_invoked_pid i, s)] else []) \<and>
    list_all (\<lambda>s. signals_arrive [s, 15] i = ([(g_invoked_pid i, s)], sigs_restore i, Dead)) [17, 18, 28]"
proof -
  have first: "fst (signals_arrive (s # sigs) i) = [(g_invoked_pid i, s)]" if "s \<in> set sigs_set" for s sigs
  proof -
    obtain sent i' fate where r: "signals_arrive sigs (sigs_restore i) = (sent, i', fate)"
      by (cases "signals_arrive sigs (sigs_restore i)")
    have "sent = []" using not_forwarding [OF _ r] by (simp add: sigs_restore_def)
    with r show ?thesis using forwarded_once [OF assms that] by simp
  qed
  have other: "fst (signals_arrive (s # sigs) i) = (if s = 23 then fst (signals_arrive sigs i) else [])"
    if "s \<notin> set sigs_set" for s sigs
    using that by (auto simp: signal_arrives_def default_fate_def sigs_set_def split: prod.splits)
  have "fst (signals_arrive sigs i) = (case dropWhile (\<lambda>s. s = 23) sigs of
      [] \<Rightarrow> [] | s # _ \<Rightarrow> if s \<in> set sigs_set then [(g_invoked_pid i, s)] else [])"
  proof (induction sigs)
    case (Cons s sigs)
    show ?case
    proof (cases "s \<in> set sigs_set")
      case True
      then have "s \<noteq> 23" by (auto simp: sigs_set_def)
      with True show ?thesis using first [OF True] by simp
    next
      case False
      then show ?thesis using other [OF False] Cons by (simp del: signals_arrive.simps)
    qed
  qed simp
  moreover have "signals_arrive [s, 15] i = ([(g_invoked_pid i, s)], sigs_restore i, Dead)"
    if "s \<in> {17, 18, 28}" for s
  proof -
    have "s \<in> set sigs_set" "default_fate s = Runs" using that by (auto simp: sigs_set_def default_fate_def)
    moreover have "signal_arrives 15 (sigs_restore i) = ([], sigs_restore i, Dead)"
      by (simp add: signal_arrives_def sigs_restore_def default_fate_def)
    ultimately show ?thesis using forwarded_once [OF assms] by simp
  qed
  ultimately show ?thesis by simp
qed

theorem only_first_signal_forwarded_witness:
  "fst (signals_arrive [23, 28, 15] (sigs_init ((example_invoker [])\<lparr>g_invoked_pid := 321\<rparr>))) = [(321, 28)]"
  using only_first_signal_forwarded [of "sigs_init ((example_invoker [])\<lparr>g_invoked_pid := 321\<rparr>)" "[23, 28, 15]"]
  by (simp add: sigs_init_def example_invoker_def sigs_set_def del: signals_arrive.simps)

end
