(* ===== verification/Single_Instance.thy ===== *)
theory Single_Instance
  imports Process Registry
begin

text \<open>
  \<open>src/single-instance/main.cpp\<close>: lock files that let one process per program run, the
  activation of the window of the running one, and the program of the same name. The
  record holds the part of the system that the code works on: directories, files, record
  locks, and for every process its descriptors and the library's static \<open>g_lockFd\<close>.
  X11 is not part of the sources: what the server answers is a field.
\<close>

type_synonym path = "string list"

record x_server =
  x_clients :: "nat list option"
  x_window_pid :: "nat \<Rightarrow> int option"
  x_send_ok :: bool

record si_world =
  si_dirs :: "path list"
  si_files :: "path list"
  si_no_mkdir :: "path \<Rightarrow> bool"
  si_no_chmod :: "path \<Rightarrow> bool"
  si_no_open :: "path \<Rightarrow> bool"
  si_locks :: "path \<Rightarrow> int option"
  si_fds :: "int \<Rightarrow> (int, path) smap"
  g_lockFd :: "int \<Rightarrow> int"
  si_display :: "x_server option"
  si_cmdline :: "int \<Rightarrow> byte list option"
  si_sent :: "(nat \<times> string) list"

definition LOCK_PATH_BASE :: string where "LOCK_PATH_BASE = ''/tmp/single-instance-locks/''"
definition LOCK_FILE_NAME :: string where "LOCK_FILE_NAME = ''instance.lock''"

subsection \<open>The file system\<close>

text \<open>
  An absolute path name, walked by the kernel: empty parts and \<open>.\<close> stay, \<open>..\<close> goes up.
  No directory is a symbolic link here.
\<close>

definition parts :: "string \<Rightarrow> string list" where
  "parts s = filter (\<lambda>t. t \<noteq> []) (split_on (CHR ''/'') [] s)"

definition walk :: "path \<Rightarrow> string \<Rightarrow> path" where
  "walk d c = (if c = ''.'' then d else if c = ''..'' then butlast d else d @ [c])"

definition resolve :: "string \<Rightarrow> path" where
  "resolve s = foldl walk [] (parts s)"

text \<open>\<open>mkdir\<close>, with whether it succeeds.\<close>

definition sys_mkdir :: "string \<Rightarrow> si_world \<Rightarrow> bool \<times> si_world" where
  "sys_mkdir s w = (let d = resolve s
     in if d \<in> set (si_dirs w) \<or> d \<in> set (si_files w) \<or> butlast d \<notin> set (si_dirs w) \<or> si_no_mkdir w d
        then (False, w) else (True, w\<lparr>si_dirs := d # si_dirs w\<rparr>))"

text \<open>\<open>open(path, O_WRONLY | O_CREAT)\<close> by process \<open>me\<close>: the descriptor or -1.\<close>

definition sys_open :: "int \<Rightarrow> string \<Rightarrow> si_world \<Rightarrow> int \<times> si_world" where
  "sys_open me s w = (let f = resolve s; fd = lowest_free 0 (si_fds w me)
     in if f \<in> set (si_dirs w) \<or> butlast f \<notin> set (si_dirs w) \<or> si_no_open w f then (-1, w)
        else (fd, w\<lparr>si_files := (if f \<in> set (si_files w) then si_files w else f # si_files w),
                    si_fds := (si_fds w)(me := smap_set fd f (si_fds w me))\<rparr>))"

text \<open>\<open>fcntl(fd, F_SETLK)\<close> with a write lock: it fails if another process has the lock.\<close>

definition sys_setlk :: "int \<Rightarrow> int \<Rightarrow> si_world \<Rightarrow> int \<times> si_world" where
  "sys_setlk me fd w = (case smap_find (si_fds w me) fd of
       None \<Rightarrow> (-1, w)
     | Some f \<Rightarrow> (case si_locks w f of
           None \<Rightarrow> (0, w\<lparr>si_locks := (si_locks w)(f := Some me)\<rparr>)
         | Some p \<Rightarrow> if p = me then (0, w) else (-1, w)))"

text \<open>Closing any descriptor of a file drops the process's lock on it.\<close>

definition si_close :: "int \<Rightarrow> int \<Rightarrow> si_world \<Rightarrow> si_world" where
  "si_close me fd w = (case smap_find (si_fds w me) fd of
       None \<Rightarrow> w
     | Some f \<Rightarrow> w\<lparr>si_fds := (si_fds w)(me := smap_erase fd (si_fds w me)),
                   si_locks := (if si_locks w f = Some me then (si_locks w)(f := None) else si_locks w)\<rparr>)"

text \<open>The end of a process: its descriptors and locks go.\<close>

definition sys_end :: "int \<Rightarrow> si_world \<Rightarrow> si_world" where
  "sys_end me w = w\<lparr>si_fds := (si_fds w)(me := []), g_lockFd := (g_lockFd w)(me := -1),
     si_locks := (\<lambda>f. if si_locks w f = Some me then None else si_locks w f)\<rparr>"

subsection \<open>Creating the path\<close>

text \<open>The loop of \<open>mkpath\<close> from index \<open>i\<close>.\<close>

function mkpath_from :: "nat \<Rightarrow> string \<Rightarrow> si_world \<Rightarrow> bool \<times> si_world" where
  "mkpath_from i path w =
     (if length path \<le> i then (True, w)
      else if i + 1 < length path \<and> path ! (i + 1) = CHR ''/'' \<and> path ! i \<noteq> CHR ''/'' \<or> i + 1 = length path
      then (case sys_mkdir (take (i + 1) path) w of
              (False, w1) \<Rightarrow> mkpath_from (i + 1) path w1
            | (True, w1) \<Rightarrow> if si_no_chmod w1 (resolve (take (i + 1) path)) then (False, w1)
                           else mkpath_from (i + 1) path w1)
      else mkpath_from (i + 1) path w)"
  by pat_completeness auto
termination by (relation "measure (\<lambda>(i, path, w). length path - i)") auto

declare mkpath_from.simps [simp del]

definition mkpath :: "string \<Rightarrow> si_world \<Rightarrow> bool \<times> si_world" where
  "mkpath path w = mkpath_from 0 path w"

subsection \<open>Windows\<close>

text \<open>\<open>procFile >> cmdLine\<close> reads one word; the name ends at the first zero byte of it.\<close>

definition binaryNameForPid :: "int \<Rightarrow> si_world \<Rightarrow> string" where
  "binaryNameForPid pid w = (case si_cmdline w pid of
       None \<Rightarrow> []
     | Some bs \<Rightarrow> c_str (takeWhile (\<lambda>c. \<not> isspace c) (dropWhile isspace bs)))"

definition windowPid :: "x_server \<Rightarrow> nat \<Rightarrow> int" where
  "windowPid x win = (case x_window_pid x win of None \<Rightarrow> -1 | Some pid \<Rightarrow> pid)"

text \<open>\<open>clientMsg\<close>: the exit status, and the message if the server takes it.\<close>

definition clientMsg :: "x_server \<Rightarrow> nat \<Rightarrow> string \<Rightarrow> si_world \<Rightarrow> int \<times> si_world" where
  "clientMsg x win msg w =
     (if x_send_ok x then (EXIT_SUCCESS, w\<lparr>si_sent := si_sent w @ [(win, msg)]\<rparr>) else (EXIT_FAILURE, w))"

definition raiseWindow :: "x_server \<Rightarrow> nat \<Rightarrow> si_world \<Rightarrow> si_world" where
  "raiseWindow x win w = snd (clientMsg x win ''_NET_ACTIVE_WINDOW'' w)"

fun first_window :: "x_server \<Rightarrow> si_world \<Rightarrow> string \<Rightarrow> nat list \<Rightarrow> nat" where
  "first_window x w binaryName [] = 0"
| "first_window x w binaryName (c # cs) =
     (if binaryNameForPid (windowPid x c) w = binaryName then c else first_window x w binaryName cs)"

definition windowIdForBinary :: "x_server option \<Rightarrow> string \<Rightarrow> si_world \<Rightarrow> nat" where
  "windowIdForBinary dpy binaryName w = (case dpy of
       None \<Rightarrow> 0
     | Some x \<Rightarrow> (case x_clients x of None \<Rightarrow> 0 | Some cs \<Rightarrow> first_window x w binaryName cs))"

subsection \<open>The library's functions\<close>

definition instance_lock :: "int \<Rightarrow> string \<Rightarrow> si_world \<Rightarrow> bool \<times> si_world" where
  "instance_lock me binaryName w =
     (let path = LOCK_PATH_BASE @ binaryName;
          (made, w1) = mkpath path w
      in if \<not> made then (False, w1)
         else let (fd, w2) = sys_open me (path @ ''/'' @ LOCK_FILE_NAME) w1;
                  w3 = w2\<lparr>g_lockFd := (g_lockFd w2)(me := fd)\<rparr>
              in if fd = -1 then (False, w3)
                 else let (r, w4) = sys_setlk me fd w3
                      in if r = -1 then (False, w4) else (True, w4))"

definition instance_unlock :: "int \<Rightarrow> si_world \<Rightarrow> si_world" where
  "instance_unlock me w = (if g_lockFd w me \<noteq> -1
     then (si_close me (g_lockFd w me) w)\<lparr>g_lockFd := (g_lockFd w)(me := -1)\<rparr> else w)"

definition activateExistingInstance :: "string \<Rightarrow> si_world \<Rightarrow> bool \<times> si_world" where
  "activateExistingInstance binaryName w = (case si_display w of
       None \<Rightarrow> (False, w)
     | Some x \<Rightarrow> (let winId = windowIdForBinary (Some x) binaryName w
                  in if winId \<noteq> 0 then (True, raiseWindow x winId w) else (False, w)))"

text \<open>The library as the launcher's process \<open>me\<close> gets it.\<close>

definition si_plugin :: "int \<Rightarrow> nat \<Rightarrow> si_world si_entry" where
  "si_plugin me handle = \<lparr>si_handle = handle, lockFunc = instance_lock me, unlockFunc = instance_unlock me,
     activateExistingInstanceFunc = activateExistingInstance\<rparr>"

subsection \<open>The program\<close>

text \<open>The program ends with a status, or becomes another program.\<close>

datatype si_end = Ended int | Execs string "string list"

definition si_main :: "int \<Rightarrow> (string \<Rightarrow> bool) \<Rightarrow> string list \<Rightarrow> si_world \<Rightarrow> si_end \<times> si_world" where
  "si_main me can_exec argv w = (case argv of
       _ # name # args \<Rightarrow>
         if name = ''--help'' \<or> name = ''-h'' then (Ended EXIT_SUCCESS, w)
         else (case instance_lock me name w of
             (False, w1) \<Rightarrow> (case activateExistingInstance name w1 of
                 (False, w2) \<Rightarrow> (Ended EXIT_FAILURE, w2)
               | (True, w2) \<Rightarrow> (Ended EXIT_SUCCESS, w2))
           | (True, w1) \<Rightarrow>
               if can_exec name then (Execs name (name # args), w1)
               else (Ended EXIT_FAILURE, instance_unlock me w1))
     | _ \<Rightarrow> (Ended EXIT_FAILURE, w))"

end
