(* ===== verification/Lock_Path.thy ===== *)
theory Lock_Path
  imports Single_Instance
begin

text \<open>
  What \<open>mkpath\<close> achieves: it creates every directory of a path, so that \<open>lock\<close> fails only
  if somebody else holds the lock.
\<close>

text \<open>The lock file of a name.\<close>

definition lock_file :: "string \<Rightarrow> path" where
  "lock_file name = resolve (LOCK_PATH_BASE @ name @ ''/'' @ LOCK_FILE_NAME)"

subsection \<open>Parts of a path that grows by a character\<close>

lemma split_on_ne [simp]: "split_on sep acc s \<noteq> []"
  by (induction sep acc s rule: split_on.induct) auto

lemma split_on_snoc:
  "split_on sep acc (s @ [c]) = (if c = sep then split_on sep acc s @ [[]]
     else butlast (split_on sep acc s) @ [last (split_on sep acc s) @ [c]])"
  by (induction sep acc s rule: split_on.induct) auto

lemma last_split_on: "s \<noteq> [] \<Longrightarrow> last s = sep \<Longrightarrow> last (split_on sep acc s) = []"
  by (metis append_butlast_last_id last_snoc split_on_snoc)

lemma last_split_on_ne:
  "s \<noteq> [] \<Longrightarrow> last s \<noteq> sep \<Longrightarrow> last (split_on sep acc s) \<noteq> []"
  by (metis append_butlast_last_id append_is_Nil_conv last_snoc list.discI split_on_snoc)

definition open_part :: "string \<Rightarrow> bool" where
  "open_part s \<longleftrightarrow> s \<noteq> [] \<and> last s \<noteq> CHR ''/''"

lemma parts_snoc:
  "parts (s @ [c]) = (if c = CHR ''/'' then parts s
     else if open_part s then butlast (parts s) @ [last (parts s) @ [c]] else parts s @ [[c]])"
proof -
  let ?ps = "split_on (CHR ''/'') [] s"
  have b: "?ps = butlast ?ps @ [last ?ps]" by simp
  have f: "filter (\<lambda>t. t \<noteq> []) ?ps = filter (\<lambda>t. t \<noteq> []) (butlast ?ps) @ (if last ?ps = [] then [] else [last ?ps])"
    by (subst b, subst filter_append) simp
  show ?thesis
  proof (cases "open_part s")
    case True
    then have "last ?ps \<noteq> []" using last_split_on_ne [of s] by (auto simp: open_part_def)
    with True f show ?thesis by (simp add: parts_def split_on_snoc)
  next
    case False
    then have "last ?ps = []" using last_split_on [of s] by (cases "s = []") (auto simp: open_part_def)
    with False f show ?thesis by (simp add: parts_def split_on_snoc)
  qed
qed

lemma parts_open: "open_part s \<Longrightarrow> parts s \<noteq> []"
  using parts_snoc [of "butlast s" "last s"] by (auto simp: open_part_def split: if_splits)

text \<open>The directory that a path is in: that of the parts before the last.\<close>

definition above :: "string \<Rightarrow> path" where
  "above s = foldl walk [] (if open_part s then butlast (parts s) else parts s)"

lemma resolve_snoc:
  "resolve (s @ [c]) = (if c = CHR ''/'' then resolve s
     else walk (above s) (last (parts (s @ [c]))))"
  using parts_open [of s] by (auto simp: resolve_def above_def parts_snoc foldl_append)

lemma above_snoc:
  "above (s @ [c]) = (if c = CHR ''/'' then resolve s else above s)"
  by (auto simp: above_def resolve_def parts_snoc open_part_def)

subsection \<open>Making directories\<close>

definition dirs_closed :: "si_world \<Rightarrow> bool" where
  "dirs_closed w \<longleftrightarrow> [] \<in> set (si_dirs w) \<and> (\<forall>d \<in> set (si_dirs w). butlast d \<in> set (si_dirs w))"

definition unhindered :: "si_world \<Rightarrow> bool" where
  "unhindered w \<longleftrightarrow> (\<forall>d. \<not> si_no_mkdir w d \<and> \<not> si_no_chmod w d)"

lemma walk_closed:
  "dirs_closed w \<Longrightarrow> d \<in> set (si_dirs w) \<Longrightarrow>
     walk d c \<in> set (si_dirs w) \<or> walk d c = d @ [c]"
  by (auto simp: walk_def dirs_closed_def)

lemma sys_mkdir_makes:
  assumes "dirs_closed w" "unhindered w" "resolve s \<notin> set (si_files w) \<or> resolve s \<in> set (si_dirs w)"
    and "butlast (resolve s) \<in> set (si_dirs w) \<or> resolve s \<in> set (si_dirs w)"
  shows "\<exists>b w'. sys_mkdir s w = (b, w') \<and> dirs_closed w' \<and> unhindered w' \<and> si_files w' = si_files w \<and>
    set (si_dirs w') = insert (resolve s) (set (si_dirs w))"
  using assms by (auto simp: sys_mkdir_def Let_def dirs_closed_def unhindered_def insert_absorb)

subsection \<open>The loop\<close>

text \<open>The lengths at which \<open>mkpath\<close> calls \<open>mkdir\<close>.\<close>

definition cut :: "string \<Rightarrow> nat \<Rightarrow> bool" where
  "cut path j \<longleftrightarrow> 0 < j \<and> (j = length path \<or> j < length path \<and> path ! j = CHR ''/'' \<and> path ! (j - 1) \<noteq> CHR ''/'')"

definition made_to :: "string \<Rightarrow> nat \<Rightarrow> si_world \<Rightarrow> bool" where
  "made_to path i w \<longleftrightarrow> dirs_closed w \<and> unhindered w \<and> above (take i path) \<in> set (si_dirs w) \<and>
     (i = length path \<or> path ! i = CHR ''/'' \<longrightarrow> resolve (take i path) \<in> set (si_dirs w))"

definition free_way :: "string \<Rightarrow> si_world \<Rightarrow> bool" where
  "free_way path w \<longleftrightarrow> (\<forall>j. cut path j \<longrightarrow> resolve (take j path) \<notin> set (si_files w))"

lemma made_to_step:
  assumes "made_to path i w" "i < length path" "free_way path w"
  shows "if cut path (i + 1)
    then (\<exists>b w'. sys_mkdir (take (i + 1) path) w = (b, w') \<and> made_to path (i + 1) w' \<and>
      si_files w' = si_files w \<and>
      set (si_dirs w') = insert (resolve (take (i + 1) path)) (set (si_dirs w)))
    else made_to path (i + 1) w"
proof -
  let ?s = "take i path" and ?c = "path ! i"
  have t: "take (Suc i) path = ?s @ [?c]" using assms(2) by (simp add: take_Suc_conv_app_nth)
  have m: "dirs_closed w" "unhindered w" "above ?s \<in> set (si_dirs w)"
    "?c = CHR ''/'' \<Longrightarrow> resolve ?s \<in> set (si_dirs w)"
    using assms(1,2) by (auto simp: made_to_def)
  have a: "above (take (i + 1) path) \<in> set (si_dirs w)"
    using m(3,4) by (simp add: t above_snoc)
  have r: "butlast (resolve (take (i + 1) path)) \<in> set (si_dirs w) \<or>
      resolve (take (i + 1) path) \<in> set (si_dirs w)"
    using m(4) walk_closed [OF m(1,3)] m(3) by (auto simp: t resolve_snoc) (metis butlast_snoc)
  show ?thesis
  proof (cases "cut path (i + 1)")
    case True
    then have "resolve (take (i + 1) path) \<notin> set (si_files w)" using assms(3) by (simp add: free_way_def)
    with sys_mkdir_makes [OF m(1,2) _ r] a True show ?thesis by (auto simp: made_to_def)
  next
    case False
    then have "i + 1 < length path" "path ! (i + 1) = CHR ''/'' \<Longrightarrow> ?c = CHR ''/''"
      using assms(2) by (auto simp: cut_def)
    with False a m show ?thesis by (auto simp: made_to_def t resolve_snoc)
  qed
qed

lemma mkpath_from_makes:
  "made_to path i w \<Longrightarrow> i \<le> length path \<Longrightarrow> free_way path w \<Longrightarrow>
     \<exists>w'. mkpath_from i path w = (True, w') \<and> made_to path (length path) w' \<and>
       set (si_dirs w') \<subseteq> set (si_dirs w) \<union> {resolve (take j path) | j. cut path j} \<and>
       (\<forall>j. i < j \<longrightarrow> cut path j \<longrightarrow> resolve (take j path) \<in> set (si_dirs w')) \<and>
       set (si_dirs w) \<subseteq> set (si_dirs w')"
proof (induction "length path - i" arbitrary: i w)
  case 0
  then have i: "i = length path" by simp
  then have "mkpath_from i path w = (True, w)" by (simp add: mkpath_from.simps)
  with 0 i show ?case by (auto simp: cut_def)
next
  case (Suc k)
  then have i: "i < length path" by simp
  have cond: "(i + 1 < length path \<and> path ! (i + 1) = CHR ''/'' \<and> path ! i \<noteq> CHR ''/'' \<or> i + 1 = length path)
      = cut path (i + 1)"
    using i by (auto simp: cut_def)
  have n: "\<not> length path \<le> i" using i by simp
  note step = made_to_step [OF Suc.prems(1) i Suc.prems(3)]
  have k: "k = length path - (i + 1)" "i + 1 \<le> length path" using Suc.hyps(2) i by simp_all
  have later: "i < j \<longleftrightarrow> j = i + 1 \<or> i + 1 < j" for j by auto
  show ?case
  proof (cases "cut path (i + 1)")
    case True
    then obtain b w1 where w1: "sys_mkdir (take (i + 1) path) w = (b, w1)" "made_to path (i + 1) w1"
      "si_files w1 = si_files w" "set (si_dirs w1) = insert (resolve (take (i + 1) path)) (set (si_dirs w))"
      using step by auto
    have "mkpath_from i path w = mkpath_from (i + 1) path w1"
      using w1(1,2) by (subst mkpath_from.simps, subst if_not_P [OF n], subst if_P [OF cond [THEN iffD2, OF True]])
        (auto simp: made_to_def unhindered_def split: bool.splits)
    moreover have "free_way path w1" using Suc.prems(3) w1(3) by (simp add: free_way_def)
    ultimately show ?thesis
      using Suc.hyps(1) [OF k(1) w1(2) k(2)] w1(4) True by (auto simp: later)
  next
    case False
    then have "mkpath_from i path w = mkpath_from (i + 1) path w"
      using False by (subst mkpath_from.simps, subst if_not_P [OF n]) (simp only: cond if_False)
    with Suc.hyps(1) [OF k(1) _ k(2) Suc.prems(3)] step False show ?thesis by (auto simp: later)
  qed
qed

lemma mkpath_makes:
  assumes "dirs_closed w" "unhindered w" "free_way path w"
  shows "\<exists>w'. mkpath path w = (True, w') \<and> resolve path \<in> set (si_dirs w') \<and>
    set (si_dirs w') = set (si_dirs w) \<union> {resolve (take j path) | j. cut path j}"
proof -
  have "made_to path 0 w"
    using assms(1,2) by (auto simp: made_to_def above_def resolve_def parts_def open_part_def dirs_closed_def)
  from mkpath_from_makes [OF this _ assms(3)] show ?thesis
    unfolding mkpath_def by (fastforce simp: made_to_def cut_def)
qed

subsection \<open>What the functions leave alone\<close>

text \<open>\<open>mkpath\<close> only adds directories.\<close>

definition adds_dirs :: "si_world \<Rightarrow> si_world \<Rightarrow> bool" where
  "adds_dirs w w' \<longleftrightarrow> (\<exists>ds. w' = w\<lparr>si_dirs := ds @ si_dirs w\<rparr>)"

lemma adds_dirs_refl [simp]: "adds_dirs w w"
  unfolding adds_dirs_def by (rule exI [of _ "[]"]) simp

lemma adds_dirs_trans: "adds_dirs u v \<Longrightarrow> adds_dirs v w \<Longrightarrow> adds_dirs u w"
proof -
  assume "adds_dirs u v" "adds_dirs v w"
  then obtain ds es where "v = u\<lparr>si_dirs := ds @ si_dirs u\<rparr>" "w = v\<lparr>si_dirs := es @ si_dirs v\<rparr>"
    by (auto simp: adds_dirs_def)
  then have "w = u\<lparr>si_dirs := (es @ ds) @ si_dirs u\<rparr>" by simp
  then show ?thesis unfolding adds_dirs_def by blast
qed

lemma adds_dirs_fields:
  assumes "adds_dirs w w'"
  shows "si_locks w' = si_locks w" "si_fds w' = si_fds w" "g_lockFd w' = g_lockFd w"
    "si_display w' = si_display w" "si_cmdline w' = si_cmdline w" "si_sent w' = si_sent w"
    "si_files w' = si_files w" "si_no_open w' = si_no_open w" "si_no_mkdir w' = si_no_mkdir w"
    "si_no_chmod w' = si_no_chmod w" "set (si_dirs w) \<subseteq> set (si_dirs w')"
  using assms by (auto simp: adds_dirs_def)

lemma sys_mkdir_adds: "sys_mkdir s w = (b, w') \<Longrightarrow> adds_dirs w w'"
  unfolding sys_mkdir_def adds_dirs_def Let_def
  by (auto split: if_splits intro: exI [of _ "[]"] exI [of _ "[resolve s]"])

lemma mkpath_from_adds: "mkpath_from i path w = (b, w') \<Longrightarrow> adds_dirs w w'"
proof (induction i path w arbitrary: b w' rule: mkpath_from.induct)
  case (1 i path w)
  obtain m w1 where m: "sys_mkdir (take (i + 1) path) w = (m, w1)"
    by (cases "sys_mkdir (take (i + 1) path) w")
  note a = sys_mkdir_adds [OF m]
  show ?case
    using "1.prems" "1.IH" m a
    by (subst (asm) mkpath_from.simps)
      (auto split: if_splits bool.splits intro: adds_dirs_trans)
qed

subsection \<open>What the functions do to the locks\<close>

text \<open>What \<open>lock\<close> leaves alone, whatever it returns.\<close>

lemma lock_frame:
  assumes "instance_lock me name w = (b, w')"
  shows "si_display w' = si_display w" "si_cmdline w' = si_cmdline w" "si_sent w' = si_sent w"
    "p \<noteq> me \<Longrightarrow> si_fds w' p = si_fds w p" "p \<noteq> me \<Longrightarrow> g_lockFd w' p = g_lockFd w p"
proof -
  obtain made w1 where m: "mkpath (LOCK_PATH_BASE @ name) w = (made, w1)"
    by (cases "mkpath (LOCK_PATH_BASE @ name) w")
  note f = adds_dirs_fields [OF mkpath_from_adds [OF m [unfolded mkpath_def]]]
  show "si_display w' = si_display w" "si_cmdline w' = si_cmdline w" "si_sent w' = si_sent w"
    "p \<noteq> me \<Longrightarrow> si_fds w' p = si_fds w p" "p \<noteq> me \<Longrightarrow> g_lockFd w' p = g_lockFd w p"
    using assms f m by (auto simp: instance_lock_def Let_def sys_open_def sys_setlk_def
        split: if_splits option.splits prod.splits)
qed

lemma lock_locks:
  assumes "instance_lock me name w = (b, w')" "smap_ok (si_fds w me)"
  shows "if b then si_locks w (lock_file name) \<in> {None, Some me} \<and>
      si_locks w' = (si_locks w)(lock_file name := Some me)
    else si_locks w' = si_locks w"
proof -
  obtain made w1 where m: "mkpath (LOCK_PATH_BASE @ name) w = (made, w1)"
    by (cases "mkpath (LOCK_PATH_BASE @ name) w")
  note f = adds_dirs_fields [OF mkpath_from_adds [OF m [unfolded mkpath_def]]]
  have ok: "smap_ok (si_fds w1 me)" using assms(2) f by simp
  show ?thesis
    using assms(1) m f(1,2) smap_find_set [OF ok]
    by (auto simp: instance_lock_def Let_def sys_open_def sys_setlk_def lock_file_def fun_eq_iff
        split: if_splits option.splits)
qed

subsection \<open>Locking\<close>

lemma split_on_append_sep:
  "split_on sep acc (s @ sep # t) = split_on sep acc s @ split_on sep [] t"
  by (induction sep acc s rule: split_on.induct) auto

lemma lock_file_below: "lock_file n = resolve (LOCK_PATH_BASE @ n) @ [LOCK_FILE_NAME]"
proof -
  have "parts (LOCK_PATH_BASE @ n @ ''/'' @ LOCK_FILE_NAME) = parts (LOCK_PATH_BASE @ n) @ [LOCK_FILE_NAME]"
    using split_on_append_sep [of "CHR ''/''" "[]" "LOCK_PATH_BASE @ n" LOCK_FILE_NAME]
    by (simp add: parts_def LOCK_FILE_NAME_def)
  then show ?thesis by (simp add: lock_file_def resolve_def walk_def LOCK_FILE_NAME_def)
qed

text \<open>The directories that locking a name creates, where they do not exist yet.\<close>

definition lock_dirs :: "string \<Rightarrow> path set" where
  "lock_dirs n = {resolve (take j (LOCK_PATH_BASE @ n)) | j. cut (LOCK_PATH_BASE @ n) j}"

lemma lock_value:
  assumes "dirs_closed w" "unhindered w" "free_way (LOCK_PATH_BASE @ n) w" "smap_ok (si_fds w me)"
    and "\<not> si_no_open w (lock_file n)" "lock_file n \<notin> set (si_dirs w) \<union> lock_dirs n"
  shows "\<exists>w'. instance_lock me n w = (si_locks w (lock_file n) \<in> {None, Some me}, w') \<and>
     set (si_dirs w') = set (si_dirs w) \<union> lock_dirs n \<and> set (si_files w') = insert (lock_file n) (set (si_files w)) \<and>
     si_locks w' = (if si_locks w (lock_file n) \<in> {None, Some me} then (si_locks w)(lock_file n := Some me)
       else si_locks w)"
proof -
  obtain w1 where m: "mkpath (LOCK_PATH_BASE @ n) w = (True, w1)"
    "resolve (LOCK_PATH_BASE @ n) \<in> set (si_dirs w1)" "set (si_dirs w1) = set (si_dirs w) \<union> lock_dirs n"
    using mkpath_makes [OF assms(1-3)] by (auto simp: lock_dirs_def)
  note f = adds_dirs_fields [OF mkpath_from_adds [OF m(1) [unfolded mkpath_def]]]
  let ?fd = "lowest_free 0 (si_fds w me)"
  let ?w2 = "w1\<lparr>si_files := (if lock_file n \<in> set (si_files w) then si_files w else lock_file n # si_files w),
     si_fds := (si_fds w)(me := smap_set ?fd (lock_file n) (si_fds w me))\<rparr>"
  have r: "resolve ((LOCK_PATH_BASE @ n) @ ''/'' @ LOCK_FILE_NAME) = lock_file n"
    by (simp add: lock_file_def)
  have b: "butlast (lock_file n) = resolve (LOCK_PATH_BASE @ n)" by (simp add: lock_file_below)
  have o: "sys_open me ((LOCK_PATH_BASE @ n) @ ''/'' @ LOCK_FILE_NAME) w1 = (?fd, ?w2)"
    unfolding sys_open_def Let_def r b f using assms(5,6) m(2,3) by simp
  have nm: "?fd \<noteq> -1" using lowest_free_ge [of 0 "si_fds w me"] by simp
  show ?thesis
    unfolding instance_lock_def Let_def m(1) prod.case o
    using nm smap_find_set [OF assms(4)] f(1) m(3)
    by (auto simp: sys_setlk_def insert_absorb fun_eq_iff split: option.splits)
qed

text \<open>
  C33. \<open>lock\<close> succeeds exactly if nobody else holds the lock: on a file system that refuses
  nothing and has no file or directory of another kind in the way, \<open>lock\<close> creates
  every directory of the path and the lock file, returns whether the lock was free or the
  process's own, and then, and only then, the process is its holder.
\<close>

theorem lock_result:
  assumes "dirs_closed w" "unhindered w" "free_way (LOCK_PATH_BASE @ n) w" "smap_ok (si_fds w me)"
    and "\<not> si_no_open w (lock_file n)" "lock_file n \<notin> set (si_dirs w) \<union> lock_dirs n"
  shows "\<exists>w'. instance_lock me n w = (si_locks w (lock_file n) \<in> {None, Some me}, w') \<and>
     set (si_dirs w') = set (si_dirs w) \<union> lock_dirs n \<and> set (si_files w') = insert (lock_file n) (set (si_files w)) \<and>
     si_locks w' = (if si_locks w (lock_file n) \<in> {None, Some me} then (si_locks w)(lock_file n := Some me)
       else si_locks w)"
  by (rule lock_value [OF assms])

lemma lock_dirs_list: "lock_dirs n = set (map (\<lambda>j. resolve (take j (LOCK_PATH_BASE @ n)))
    (filter (cut (LOCK_PATH_BASE @ n)) [0..<Suc (length (LOCK_PATH_BASE @ n))]))"
proof -
  have "cut p j \<Longrightarrow> j \<in> set [0..<Suc (length p)]" for p j by (auto simp: cut_def)
  then show ?thesis unfolding lock_dirs_def set_map set_filter by blast
qed

text \<open>A system in which process 7 shows a window and nothing is locked.\<close>

definition example_si :: si_world where
  "example_si = \<lparr>si_dirs = [[''tmp''], []], si_files = [], si_no_mkdir = (\<lambda>_. False),
     si_no_chmod = (\<lambda>_. False), si_no_open = (\<lambda>_. False), si_locks = (\<lambda>_. None), si_fds = (\<lambda>_. []),
     g_lockFd = (\<lambda>_. -1),
     si_display = Some \<lparr>x_clients = Some [3, 5], x_window_pid = (\<lambda>w. if w = 5 then Some 7 else None),
       x_send_ok = True\<rparr>,
     si_cmdline = (\<lambda>p. if p = 7 then Some (''/usr/bin/app'' @ [NUL]) else None), si_sent = []\<rparr>"

lemma example_lock_file:
  "lock_file ''/usr/bin/app'' = [''tmp'', ''single-instance-locks'', ''usr'', ''bin'', ''app'', ''instance.lock'']"
  by code_simp

lemma example_lock_dirs:
  "lock_dirs ''/usr/bin/app'' = {[''tmp''], [''tmp'', ''single-instance-locks''],
     [''tmp'', ''single-instance-locks'', ''usr''], [''tmp'', ''single-instance-locks'', ''usr'', ''bin''],
     [''tmp'', ''single-instance-locks'', ''usr'', ''bin'', ''app'']}"
  unfolding lock_dirs_list by code_simp

lemma example_si_free:
  "dirs_closed example_si" "unhindered example_si" "free_way p example_si" "smap_ok (si_fds example_si me)"
  "\<not> si_no_open example_si f" "si_locks example_si f = None"
  "lock_file ''/usr/bin/app'' \<notin> set (si_dirs example_si) \<union> lock_dirs ''/usr/bin/app''"
  by (simp_all add: dirs_closed_def unhindered_def free_way_def example_si_def smap_simps
      example_lock_file example_lock_dirs)

theorem lock_result_witness:
  "\<exists>w'. instance_lock 7 ''/usr/bin/app'' example_si = (True, w') \<and>
     [''tmp'', ''single-instance-locks'', ''usr''] \<in> set (si_dirs w') \<and>
     si_locks w' [''tmp'', ''single-instance-locks'', ''usr'', ''bin'', ''app'', ''instance.lock''] = Some 7"
  using lock_result [OF example_si_free(1-5,7), of 7] example_si_free(6)
  by (auto simp: example_lock_file example_lock_dirs)

end
