(* ===== verification/Single_Instance_Safety.thy ===== *)
theory Single_Instance_Safety
  imports Lock_Path Booster Transition
begin

text \<open>
  Properties of the single-instance library and program: what \<open>mkpath\<close> and \<open>lock\<close> do to
  the system, that the running instances of a program exclude each other however they were
  started, and how a second start finds the window of the first.
\<close>

subsection \<open>The plugin as an interface\<close>

text \<open>
  What a booster relies on in the single-instance plugin: a table of holders, of which
  \<open>lock\<close> takes the entry of a name for the process if nobody else holds it and leaves the
  table alone otherwise, as activation does. \<open>ok\<close> is the well-formedness it asks of the system.
\<close>

locale instance_plugin =
  fixes e :: "'w si_entry"
    and ok :: "'w \<Rightarrow> bool"
    and holder :: "'w \<Rightarrow> 'f \<Rightarrow> int option"
    and file_of :: "string \<Rightarrow> 'f"
    and me :: int
  assumes lock_true: "ok w \<Longrightarrow> lockFunc e n w = (True, w') \<Longrightarrow>
      holder w (file_of n) \<in> {None, Some me} \<and> holder w' = (holder w)(file_of n := Some me)"
    and lock_false: "ok w \<Longrightarrow> lockFunc e n w = (False, w') \<Longrightarrow> holder w' = holder w"
    and activate_keeps: "holder (snd (activateExistingInstanceFunc e n w)) = holder w"
begin

lemma claim_Returns:
  assumes "ok w" "singleInstance a" "claim_instance (Some e) a w = Returns (si, w')"
  shows "si = None \<and> holder w (file_of (m_appName a)) \<in> {None, Some me} \<and>
    holder w' = (holder w)(file_of (m_appName a) := Some me)"
proof -
  obtain b w1 where l: "lockFunc e (m_appName a) w = (b, w1)"
    by (cases "lockFunc e (m_appName a) w")
  with assms(2,3) have b: "b" "si = None" "w' = w1"
    by (auto simp: claim_instance_def closePlugin_def split: if_splits prod.splits)
  then show ?thesis using lock_true [OF assms(1), of "m_appName a" w1] l by simp
qed

text \<open>What is left of the system's table when the claim ends the process.\<close>

lemma claim_Exits:
  assumes "ok w" "singleInstance a" "claim_instance (Some e) a w = Exits st"
  shows "(st = 0 \<or> st = 1) \<and> holder (snd (activateExistingInstanceFunc e (m_appName a)
      (snd (lockFunc e (m_appName a) w)))) = holder w"
proof -
  obtain b w1 where l: "lockFunc e (m_appName a) w = (b, w1)"
    by (cases "lockFunc e (m_appName a) w")
  with assms(2,3) have b: "\<not> b" "st = 0 \<or> st = 1"
    by (auto simp: claim_instance_def EXIT_FAILURE_def EXIT_SUCCESS_def split: if_splits prod.splits)
  then show ?thesis using lock_false [OF assms(1)] l activate_keeps by simp
qed

end

lemma activate_frame:
  "si_locks (snd (activateExistingInstance n w)) = si_locks w"
  "si_fds (snd (activateExistingInstance n w)) = si_fds w"
  "g_lockFd (snd (activateExistingInstance n w)) = g_lockFd w"
  by (auto simp: activateExistingInstance_def raiseWindow_def clientMsg_def Let_def split: option.splits)

interpretation plugin: instance_plugin "si_plugin me h" "\<lambda>w. smap_ok (si_fds w me)" si_locks lock_file me
  for me h
proof
  show "smap_ok (si_fds w me) \<Longrightarrow> lockFunc (si_plugin me h) n w = (True, w') \<Longrightarrow>
      si_locks w (lock_file n) \<in> {None, Some me} \<and> si_locks w' = (si_locks w)(lock_file n := Some me)"
    for w n w' using lock_locks [of me n w True w'] by (simp add: si_plugin_def)
  show "smap_ok (si_fds w me) \<Longrightarrow> lockFunc (si_plugin me h) n w = (False, w') \<Longrightarrow> si_locks w' = si_locks w"
    for w n w' using lock_locks [of me n w False w'] by (simp add: si_plugin_def)
  show "si_locks (snd (activateExistingInstanceFunc (si_plugin me h) n w)) = si_locks w" for n w
    by (simp add: si_plugin_def activate_frame)
qed

subsection \<open>The system of instances\<close>

text \<open>
  Processes start an application through the program or as a booster, by any name; instances
  end; other parts of the system change. \<open>si_live\<close> are the running instances with the names
  they were started by.
\<close>

record si_system =
  si_world :: si_world
  si_live :: "(int \<times> string) list"

inductive si_step :: "si_system \<Rightarrow> si_system \<Rightarrow> bool" where
  program_runs: "pid \<notin> fst ` set (si_live s) \<Longrightarrow>
     si_main pid can_exec argv (si_world s) = (Execs name args, w) \<Longrightarrow>
     si_step s \<lparr>si_world = w, si_live = (pid, name) # si_live s\<rparr>"
| program_ends: "pid \<notin> fst ` set (si_live s) \<Longrightarrow>
     si_main pid can_exec argv (si_world s) = (Ended st, w) \<Longrightarrow>
     si_step s \<lparr>si_world = sys_end pid w, si_live = si_live s\<rparr>"
| booster_runs: "pid \<notin> fst ` set (si_live s) \<Longrightarrow> singleInstance a \<Longrightarrow>
     claim_instance (Some (si_plugin pid h)) a (si_world s) = Returns (si, w) \<Longrightarrow>
     si_step s \<lparr>si_world = w, si_live = (pid, m_appName a) # si_live s\<rparr>"
| booster_ends: "pid \<notin> fst ` set (si_live s) \<Longrightarrow> singleInstance a \<Longrightarrow>
     claim_instance (Some (si_plugin pid h)) a (si_world s) = Exits st \<Longrightarrow>
     si_step s \<lparr>si_world = sys_end pid (snd (activateExistingInstance (m_appName a)
        (snd (instance_lock pid (m_appName a) (si_world s))))), si_live = si_live s\<rparr>"
| instance_ends: "(pid, name) \<in> set (si_live s) \<Longrightarrow>
     si_step s \<lparr>si_world = sys_end pid (si_world s), si_live = filter (\<lambda>l. fst l \<noteq> pid) (si_live s)\<rparr>"
| surroundings_change:
     "si_step s (s\<lparr>si_world := (si_world s)\<lparr>si_display := x, si_cmdline := c, si_sent := m,
        si_no_mkdir := f, si_no_chmod := g, si_no_open := h\<rparr>\<rparr>)"

inductive_cases si_stepE: "si_step s t"

definition si_init :: "si_system \<Rightarrow> bool" where
  "si_init s \<longleftrightarrow> si_live s = [] \<and> si_locks (si_world s) = (\<lambda>_. None) \<and> (\<forall>p. si_fds (si_world s) p = [])"

definition si_inv :: "si_system \<Rightarrow> bool" where
  "si_inv s \<longleftrightarrow>
     (\<forall>(p, n) \<in> set (si_live s). si_locks (si_world s) (lock_file n) = Some p) \<and>
     (\<forall>f p. si_locks (si_world s) f = Some p \<longrightarrow> (\<exists>n. (p, n) \<in> set (si_live s) \<and> lock_file n = f)) \<and>
     (\<forall>p. p \<notin> fst ` set (si_live s) \<longrightarrow> si_fds (si_world s) p = [])"

lemma main_Execs:
  assumes "si_main me ce argv w = (Execs name args, w')"
  shows "instance_lock me name w = (True, w')"
  using assms by (auto simp: si_main_def split: list.splits if_splits prod.splits bool.splits)


lemma end_after_unlock:
  "si_locks (sys_end me (instance_unlock me w)) = si_locks (sys_end me w)"
  "p \<noteq> me \<Longrightarrow> si_fds (instance_unlock me w) p = si_fds w p"
  by (auto simp: sys_end_def instance_unlock_def si_close_def fun_eq_iff split: option.splits)

lemma end_without_lock:
  assumes "\<forall>f. si_locks w f \<noteq> Some me" "si_locks w' = si_locks w \<or>
     si_locks w f = None \<and> si_locks w' = (si_locks w)(f := Some me)"
  shows "si_locks (sys_end me w') = si_locks w"
proof (rule ext)
  fix x
  show "si_locks (sys_end me w') x = si_locks w x"
    using assms by (cases "x = f") (auto simp: sys_end_def)
qed

lemma sys_end_fds: "p \<noteq> me \<Longrightarrow> si_fds (sys_end me w) p = si_fds w p"
  by (simp add: sys_end_def)

lemma main_Ended:
  assumes "si_main me ce argv w = (Ended st, w')" "smap_ok (si_fds w me)" "\<forall>f. si_locks w f \<noteq> Some me"
  shows "si_locks (sys_end me w') = si_locks w \<and> (\<forall>p. p \<noteq> me \<longrightarrow> si_fds (sys_end me w') p = si_fds w p)"
proof (cases "w' = w")
  case True
  then show ?thesis using end_without_lock [of w me w] assms(3) by (simp add: sys_end_fds)
next
  case False
  then obtain a name args where argv: "argv = a # name # args" "name \<noteq> ''--help''" "name \<noteq> ''-h''"
    using assms(1) by (auto simp: si_main_def split: list.splits if_splits)
  obtain b w1 where l: "instance_lock me name w = (b, w1)" by (cases "instance_lock me name w")
  have w: "w' = (if b then instance_unlock me w1 else snd (activateExistingInstance name w1))"
    using assms(1) argv l by (auto simp: si_main_def split: bool.splits if_splits prod.splits)
  have "si_locks (sys_end me w1) = si_locks w"
    using end_without_lock [of w me w1 "lock_file name"] lock_locks [OF l assms(2)] assms(3)
    by (auto split: if_splits)
  moreover have "si_locks (sys_end me (snd (activateExistingInstance name w1))) = si_locks (sys_end me w1)"
    by (simp add: sys_end_def activate_frame cong: if_cong)
  ultimately show ?thesis
    using lock_frame(4) [OF l] by (simp add: w sys_end_fds end_after_unlock activate_frame)
qed

lemma si_init_inv: "si_init s \<Longrightarrow> si_inv s"
  by (simp add: si_init_def si_inv_def)

text \<open>An invariant-keeping start, in terms of what happens to the locks.\<close>

lemma si_inv_start:
  assumes "si_inv s" "pid \<notin> fst ` set (si_live s)" "\<And>p. p \<noteq> pid \<Longrightarrow> si_fds w p = si_fds (si_world s) p"
    "si_locks (si_world s) (lock_file n) \<in> {None, Some pid}"
    "si_locks w = (si_locks (si_world s))(lock_file n := Some pid)"
  shows "si_inv \<lparr>si_world = w, si_live = (pid, n) # si_live s\<rparr>"
proof -
  have none: "si_locks (si_world s) (lock_file n) = None"
    using assms(1,2,4) by (force simp: si_inv_def)
  show ?thesis
    using assms(1,2,3) none unfolding si_inv_def assms(5)
    by (auto simp: assms(5) image_iff split: if_splits) (metis option.distinct(1))+
qed

lemma si_inv_end:
  assumes "si_inv s" "pid \<notin> fst ` set (si_live s)" "\<forall>p. p \<noteq> pid \<longrightarrow> si_fds (sys_end pid w) p = si_fds (si_world s) p"
    "si_locks (sys_end pid w) = si_locks (si_world s)"
  shows "si_inv \<lparr>si_world = sys_end pid w, si_live = si_live s\<rparr>"
proof -
  have e: "si_fds (sys_end pid w) pid = []" by (simp add: sys_end_def)
  then have "si_fds (sys_end pid w) p = []" if "p \<notin> fst ` set (si_live s)" for p
    using assms(1,3) that by (cases "p = pid") (auto simp: si_inv_def)
  with assms show ?thesis by (simp add: si_inv_def)
qed

lemma si_inv_fresh:
  assumes "si_inv s" "pid \<notin> fst ` set (si_live s)"
  shows "smap_ok (si_fds (si_world s) pid)" "\<forall>f. si_locks (si_world s) f \<noteq> Some pid"
  using assms by (force simp: si_inv_def smap_simps)+

lemma si_step_inv: "si_step s t \<Longrightarrow> si_inv s \<Longrightarrow> si_inv t"
proof (induction rule: si_step.induct)
  case (program_runs pid s can_exec argv name args w)
  note l = main_Execs [OF program_runs(2)]
  show ?case
    using lock_locks [OF l si_inv_fresh(1)] lock_frame(4) [OF l] program_runs
    by (intro si_inv_start) auto
next
  case (program_ends pid s can_exec argv st w)
  then show ?case
    using main_Ended [OF program_ends(2) si_inv_fresh] by (intro si_inv_end) auto
next
  case (booster_runs pid s a h si w)
  obtain b w1 where l: "instance_lock pid (m_appName a) (si_world s) = (b, w1)"
    by (cases "instance_lock pid (m_appName a) (si_world s)")
  have "w = w1" using booster_runs(2,3) l
    by (auto simp: claim_instance_def si_plugin_def split: if_splits prod.splits)
  then show ?case
    using plugin.claim_Returns [OF si_inv_fresh(1) booster_runs(2,3)] lock_frame(4) [OF l] booster_runs
    by (intro si_inv_start) auto
next
  case (booster_ends pid s a h st)
  obtain b w1 where l: "instance_lock pid (m_appName a) (si_world s) = (b, w1)"
    by (cases "instance_lock pid (m_appName a) (si_world s)")
  let ?w = "snd (activateExistingInstance (m_appName a) (snd (instance_lock pid (m_appName a) (si_world s))))"
  have "si_locks ?w = si_locks (si_world s)"
    using plugin.claim_Exits [OF si_inv_fresh(1) booster_ends(2,3)] booster_ends by (simp add: si_plugin_def)
  then have "si_locks (sys_end pid ?w) = si_locks (si_world s)"
    using end_without_lock [of "si_world s" pid ?w] si_inv_fresh(2) booster_ends by simp
  then show ?case
    using booster_ends lock_frame(4) [OF l] l
    by (intro si_inv_end) (auto simp: sys_end_fds activate_frame)
next
  case (instance_ends pid name s)
  then show ?case by (fastforce simp: si_inv_def sys_end_def)
next
  case (surroundings_change s x c m f g h)
  then show ?case by (simp add: si_inv_def)
qed
interpretation instances: transition_system si_init si_step si_inv
  by unfold_locales (auto intro: si_init_inv si_step_inv)

text \<open>
  C14. One instance per program: in every state that the processes of a system can reach,
  started through the program or as boosters, in any order and with any names, two running
  instances whose names lead to the same lock file are the same process; and the table of
  record locks says exactly who runs.
\<close>

theorem one_instance_per_name:
  assumes "si_init s0" "si_step\<^sup>*\<^sup>* s0 s"
  shows "(\<forall>p n q m. (p, n) \<in> set (si_live s) \<longrightarrow> (q, m) \<in> set (si_live s) \<longrightarrow> lock_file n = lock_file m
      \<longrightarrow> p = q) \<and>
    (\<forall>f p. si_locks (si_world s) f = Some p \<longleftrightarrow> (\<exists>n. (p, n) \<in> set (si_live s) \<and> lock_file n = f))"
proof -
  have inv: "si_inv s" using instances.reachable_inv [OF assms] .
  then have "si_locks (si_world s) (lock_file n) = Some p" if "(p, n) \<in> set (si_live s)" for p n
    using that by (auto simp: si_inv_def)
  with inv show ?thesis unfolding si_inv_def by (metis option.inject)
qed

text \<open>
  The abstract specification: a table of running instances, of which a free entry may be
  taken and the entries of a process given back.
\<close>

definition running :: "si_system \<Rightarrow> path \<Rightarrow> int option" where
  "running s f = map_option fst (List.find (\<lambda>l. lock_file (snd l) = f) (si_live s))"

inductive mutex_step :: "(path \<Rightarrow> int option) \<Rightarrow> (path \<Rightarrow> int option) \<Rightarrow> bool" where
  acquire: "t f = None \<Longrightarrow> mutex_step t (t(f := Some p))"
| release: "mutex_step t (\<lambda>f. if t f = Some p then None else t f)"

lemma running_locks: "si_inv s \<Longrightarrow> running s = si_locks (si_world s)"
proof (rule ext)
  fix f
  assume inv: "si_inv s"
  show "running s f = si_locks (si_world s) f"
  proof (cases "List.find (\<lambda>l. lock_file (snd l) = f) (si_live s)")
    case None
    then have "\<forall>n p. (p, n) \<in> set (si_live s) \<longrightarrow> lock_file n \<noteq> f" by (auto simp: find_None_iff)
    then have "si_locks (si_world s) f = None" using inv unfolding si_inv_def by (metis not_Some_eq)
    with None show ?thesis by (simp add: running_def)
  next
    case (Some l)
    then have "l \<in> set (si_live s)" "lock_file (snd l) = f" by (auto simp: find_Some_iff)
    then have "si_locks (si_world s) f = Some (fst l)" using inv by (cases l) (auto simp: si_inv_def)
    with Some show ?thesis by (simp add: running_def)
  qed
qed

text \<open>What a step does to the locks.\<close>

lemma si_step_locks:
  assumes "si_step s t" "si_inv s"
  shows "si_locks (si_world t) = si_locks (si_world s) \<or>
    mutex_step (si_locks (si_world s)) (si_locks (si_world t))"
proof -
  have inv: "si_inv t" using si_step_inv [OF assms] .
  have taken: "si_locks w = si_locks (si_world s) \<or> mutex_step (si_locks (si_world s)) (si_locks w)"
    if "instance_lock pid n (si_world s) = (b, w)" "pid \<notin> fst ` set (si_live s)" for pid n b w
    using lock_locks [OF that(1) si_inv_fresh(1) [OF assms(2) that(2)]] si_inv_fresh(2) [OF assms(2) that(2)]
    by (auto split: if_splits intro: acquire)
  from assms(1) show ?thesis
  proof cases
    case (program_runs pid can_exec argv name args w)
    with taken [OF main_Execs [OF program_runs(3)]] show ?thesis by simp
  next
    case (program_ends pid can_exec argv st w)
    with main_Ended [OF program_ends(3) si_inv_fresh [OF assms(2)]] show ?thesis by simp
  next
    case (booster_runs pid a h si w)
    obtain b w1 where l: "instance_lock pid (m_appName a) (si_world s) = (b, w1)"
      by (cases "instance_lock pid (m_appName a) (si_world s)")
    have "w = w1" using booster_runs(3,4) l
      by (auto simp: claim_instance_def si_plugin_def split: if_splits prod.splits)
    with taken [OF l booster_runs(2)] booster_runs(1) show ?thesis by simp
  next
    case (booster_ends pid a h st)
    have "si_locks (snd (activateExistingInstance (m_appName a) (snd (instance_lock pid (m_appName a) (si_world s)))))
        = si_locks (si_world s)"
      using plugin.claim_Exits [OF si_inv_fresh(1) [OF assms(2) booster_ends(2)] booster_ends(3,4)]
      by (simp add: si_plugin_def)
    then show ?thesis
      using end_without_lock [of "si_world s" pid] si_inv_fresh(2) [OF assms(2) booster_ends(2)] booster_ends(1)
      by simp
  next
    case (instance_ends pid name)
    then show ?thesis using release [of "si_locks (si_world s)" pid] by (simp add: sys_end_def)
  next
    case (surroundings_change x c m f g h)
    then show ?thesis by simp
  qed
qed

lemma si_step_mutex:
  assumes "si_inv s" "si_step s t"
  shows "running t = running s \<or> mutex_step (running s) (running t)"
  using si_step_locks [OF assms(2,1)] si_step_inv [OF assms(2,1)] assms(1) by (simp add: running_locks)

interpretation mutex: simulation si_init si_step si_inv running mutex_step
proof
  fix s t
  assume "si_inv s" "si_step s t"
  then show "mutex_step\<^sup>*\<^sup>* (running s) (running t)"
    using si_step_mutex [of s t] by auto
qed

text \<open>A table of exclusive entries never hands one over: it is free in between.\<close>

lemma mutex_step_handover: "mutex_step t u \<Longrightarrow> t f = Some p \<Longrightarrow> u f = Some p \<or> u f = None"
  by (induction rule: mutex_step.induct) auto

text \<open>
  C31. The library implements a table of exclusive entries: a run of the system is a run of
  the table, every step of a reachable system either leaves the table of running instances alone,
  or takes a free entry, or gives back the entries of one process, and so no step passes a
  program on from one running instance to another.
\<close>

theorem instances_refine_mutex:
  assumes "si_init s0" "si_step\<^sup>*\<^sup>* s0 s" "si_step s t"
  shows "mutex_step\<^sup>*\<^sup>* (running s0) (running s) \<and>
    (running t = running s \<or> mutex_step (running s) (running t)) \<and>
    (running s f = Some p \<longrightarrow> running t f = Some p \<or> running t f = None)"
proof -
  have inv: "si_inv s" by (rule instances.reachable_inv [OF assms(1,2)])
  note step = si_step_mutex [OF inv assms(3)]
  have "running s f = Some p \<longrightarrow> running t f = Some p \<or> running t f = None"
    using step mutex_step_handover [of "running s" "running t" f p] by auto
  with step mutex.reachable_sim [OF assms(1,2)] show ?thesis by blast
qed

subsection \<open>The second start\<close>

lemma first_window_found:
  "binaryNameForPid (windowPid x c) w = n \<Longrightarrow> \<forall>b \<in> set pre. binaryNameForPid (windowPid x b) w \<noteq> n \<Longrightarrow>
     first_window x w n (pre @ c # post) = c"
  by (induction pre) auto

lemma first_window_none:
  "\<forall>b \<in> set cs. binaryNameForPid (windowPid x b) w \<noteq> n \<Longrightarrow> first_window x w n cs = 0"
  by (induction cs) auto

lemma binaryName_cong: "si_cmdline w' = si_cmdline w \<Longrightarrow> binaryNameForPid p w' = binaryNameForPid p w"
  by (simp add: binaryNameForPid_def)

lemma held_lock_fails:
  assumes "si_locks w (lock_file n) = Some q" "q \<noteq> me" "smap_ok (si_fds w me)"
  obtains w1 where "instance_lock me n w = (False, w1)" "si_locks w1 = si_locks w"
proof -
  obtain b w1 where l: "instance_lock me n w = (b, w1)" by (cases "instance_lock me n w")
  with lock_locks [OF l assms(3)] assms(1,2) that show ?thesis by (auto split: if_splits)
qed


text \<open>
  An application whose name contains a blank is never found: the command line is read
  up to the first blank, so the second start fails with status 1 whatever windows there are.
\<close>

theorem blank_in_name_never_found:
  assumes "si_locks w (lock_file n) = Some q" "q \<noteq> me" "smap_ok (si_fds w me)" "n \<notin> {''--help'', ''-h''}"
    and "ch \<in> set n" "isspace ch"
  shows "(\<exists>w'. si_main me can_exec (prog # n # args) w = (Ended 1, w') \<and> si_sent w' = si_sent w)"
proof -
  obtain w1 where l: "instance_lock me n w = (False, w1)" "si_locks w1 = si_locks w"
    using held_lock_fails [OF assms(1-3)] .
  have "set (c_str (takeWhile (\<lambda>c. \<not> isspace c) s)) \<subseteq> {c. \<not> isspace c}" for s
    by (auto simp: c_str_def dest!: set_takeWhileD)
  then have "binaryNameForPid p w1 \<noteq> n" for p
    using assms(5,6) by (auto simp: binaryNameForPid_def split: option.splits)
  then have "windowIdForBinary x n w1 = 0" for x
    by (auto simp: windowIdForBinary_def first_window_none split: option.splits)
  then have "activateExistingInstance n w1 = (False, w1)"
    by (auto simp: activateExistingInstance_def split: option.splits)
  then show ?thesis using assms(4) l(1) lock_frame(3) [OF l(1)] by (simp add: si_main_def EXIT_FAILURE_def)
qed


subsection \<open>A run\<close>

abbreviation example_app :: string where "example_app \<equiv> ''/usr/bin/app''"

lemma example_locked:
  obtains w1 where "instance_lock 7 example_app example_si = (True, w1)" "si_locks w1 = (\<lambda>_. None)(lock_file example_app := Some 7)"
    "si_display w1 = si_display example_si" "si_cmdline w1 = si_cmdline example_si"
    "si_sent w1 = []" "si_fds w1 9 = []"
proof -
  obtain w1 where l: "instance_lock 7 example_app example_si = (True, w1)" "si_locks w1 = (si_locks example_si)(lock_file example_app := Some 7)"
    using lock_value [OF example_si_free(1-5,7), of 7] example_si_free(6) by auto
  moreover have "si_locks example_si = (\<lambda>_. None)" "si_sent example_si = []" "si_fds example_si 9 = []"
    by (simp_all add: example_si_def)
  ultimately show ?thesis using that lock_frame [OF l(1)] by simp
qed

lemma example_step:
  assumes "instance_lock 7 example_app example_si = (True, w1)"
  shows "si_init \<lparr>si_world = example_si, si_live = []\<rparr>"
    "si_step \<lparr>si_world = example_si, si_live = []\<rparr> \<lparr>si_world = w1, si_live = [(7, example_app)]\<rparr>"
proof -
  have m: "si_main 7 (\<lambda>_. True) [''single-instance'', example_app] example_si = (Execs example_app [example_app], w1)"
    using assms by (simp add: si_main_def)
  show "si_init \<lparr>si_world = example_si, si_live = []\<rparr>" by (simp add: si_init_def example_si_def)
  show "si_step \<lparr>si_world = example_si, si_live = []\<rparr> \<lparr>si_world = w1, si_live = [(7, example_app)]\<rparr>"
    using program_runs [where s = "\<lparr>si_world = example_si, si_live = []\<rparr>" and pid = 7
        and can_exec = "\<lambda>_. True" and argv = "[''single-instance'', example_app]" and name = example_app and args = "[example_app]" and w = w1] m
    by simp
qed

theorem one_instance_per_name_witness:
  "\<exists>w1. instance_lock 7 example_app example_si = (True, w1) \<and>
     (\<forall>f p. si_locks w1 f = Some p \<longleftrightarrow> p = 7 \<and> lock_file example_app = f)"
proof -
  obtain w1 where l: "instance_lock 7 example_app example_si = (True, w1)" using example_locked .
  note s = example_step [OF l]
  show ?thesis using l one_instance_per_name [OF s(1) r_into_rtranclp [of si_step, OF s(2)]] by auto
qed

theorem instances_refine_mutex_witness:
  "\<exists>w1. instance_lock 7 example_app example_si = (True, w1) \<and>
     mutex_step (\<lambda>_. None) (running \<lparr>si_world = w1, si_live = [(7, example_app)]\<rparr>)"
proof -
  obtain w1 where l: "instance_lock 7 example_app example_si = (True, w1)" using example_locked .
  note s = example_step [OF l]
  have r: "running \<lparr>si_world = example_si, si_live = []\<rparr> = (\<lambda>_. None)"
    "running \<lparr>si_world = w1, si_live = [(7, example_app)]\<rparr> (lock_file example_app) = Some 7"
    by (simp_all add: running_def fun_eq_iff)
  have "running \<lparr>si_world = w1, si_live = [(7, example_app)]\<rparr> \<noteq> (\<lambda>_. None)" using r(2) by auto
  then show ?thesis using l instances_refine_mutex [OF s(1) rtranclp.rtrancl_refl s(2)] r(1) by auto
qed


theorem blank_in_name_never_found_witness:
  "\<exists>w'. si_main 9 (\<lambda>_. True) [''single-instance'', ''/a b''] (example_si\<lparr>si_locks := (\<lambda>_. Some 7)\<rparr>)
     = (Ended 1, w')"
  using blank_in_name_never_found [of "example_si\<lparr>si_locks := (\<lambda>_. Some 7)\<rparr>" "''/a b''" 7 9 "CHR '' ''"
      "\<lambda>_. True" "''single-instance''" "[]"]
  by (auto simp: example_si_def smap_simps isspace_def)

end
