(* ===== verification/Launcher.thy ===== *)
theory Launcher
  imports Daemon
begin

text \<open>
  The executable \<open>applauncherd\<close> (\<open>src/launcher/launcher.c\<close>): it loads the libraries of
  \<open>preload.h\<close> into the process that all boosters are forked from, and then runs \<open>main\<close> of
  the launcher library. \<open>dlopen\<close> and \<open>dlsym\<close> are arguments; what is observed of the loading is
  the sequence of \<open>dlopen\<close> calls.
\<close>

definition gLibs :: "string list" where
  "gLibs =
    [''/lib/libacl.so.1'', ''/lib/libattr.so.1'', ''/lib/libc-2.10.1.so'',
     ''/lib/libdl-2.10.1.so'', ''/lib/libgcc_s.so.1'', ''/lib/libglib-2.0.so.0'',
     ''/lib/libm-2.10.1.so'', ''/lib/libpcre.so.3'', ''/lib/libpthread-2.10.1.so'',
     ''/lib/libresolv-2.10.1.so'', ''/lib/librt-2.10.1.so'', ''/lib/libudev.so.0'',
     ''/lib/libuuid.so.1'', ''/usr/lib/gconv/UTF-16.so'', ''/usr/lib/libaegis_crypto.so.1'',
     ''/usr/lib/libarchive.so.2'', ''/usr/lib/libasound.so.2'', ''/usr/lib/libbmeipc.so.0'',
     ''/usr/lib/libbz2.so.1.0'', ''/usr/lib/libcallui0.so.2'', ''/usr/lib/libcares.so.2'',
     ''/usr/lib/libcdb.so.1'', ''/usr/lib/libcellular-qt.so.1'',
     ''/usr/lib/libcontentaction.so.0'', ''/usr/lib/libcontentmanager.so.0'',
     ''/usr/lib/libcontextsubscriber.so.0'', ''/usr/lib/libcreds2-qt.so.1'',
     ''/usr/lib/libcreds.so.2'', ''/usr/lib/libcrypto.so.0.9.8'', ''/usr/lib/libcurl.so.4'',
     ''/usr/lib/libdbus-1.so.3'', ''/usr/lib/libdbus-glib-1.so.2'',
     ''/usr/lib/libdsme_dbus_if.so.0.2.0'', ''/usr/lib/libdsme.so.0.2.0'',
     ''/usr/lib/libEGL_r125.so'', ''/usr/lib/libexempi.so.3'', ''/usr/lib/libexif.so.12'',
     ''/usr/lib/libexpat.so.1'', ''/usr/lib/libfontconfig.so.1'', ''/usr/lib/libfreetype.so.6'',
     ''/usr/lib/libgconf-2.so.4'', ''/usr/lib/libgeoengine-mapwidget.so.1'',
     ''/usr/lib/libgeoengine.so.1'', ''/usr/lib/libgio-2.0.so.0'', ''/usr/lib/libGLESv2_r125.so'',
     ''/usr/lib/libglslcompiler_r125.so'', ''/usr/lib/libgmodule-2.0.so.0'',
     ''/usr/lib/libgobject-2.0.so.0'', ''/usr/lib/libgstbase-0.10.so.0'',
     ''/usr/lib/libgstinterfaces-0.10.so.0'', ''/usr/lib/libgstreamer-0.10.so.0'',
     ''/usr/lib/libgstvideo-0.10.so.0'', ''/usr/lib/libgthread-2.0.so.0'',
     ''/usr/lib/libICE.so.6'', ''/usr/lib/libicudata.so.44'', ''/usr/lib/libicui18n.so.44'',
     ''/usr/lib/libicuuc.so.44'', ''/usr/lib/libidn.so.11'', ''/usr/lib/libIMGegl_r125.so'',
     ''/usr/lib/libiphb.so.0'', ''/usr/lib/libjpeg.so.62'', ''/usr/lib/liblocationextras.so.1'',
     ''/usr/lib/liblocationpicker.so.0'', ''/usr/lib/libmeegotouchcore.so.0'',
     ''/usr/lib/libmeegotouchextensions.so.0'', ''/usr/lib/libmeegotouchsettings.so.0'',
     ''/usr/lib/libmeegotouchtheme-nokia-views.so.0'', ''/usr/lib/libmeegotouchviews.so.0'',
     ''/usr/lib/libmessagingif0.so.0'', ''/usr/lib/libmoi.so.0'', ''/usr/lib/libMOS.so.1'',
     ''/usr/lib/libpackage-manager-dbus-qt.so.0'', ''/usr/lib/libpng12.so.0'',
     ''/usr/lib/libpulse.so.0'', ''/usr/lib/libpvr2d_r125.so'',
     ''/usr/lib/libpvrPVR2D_DRI2WSEGL_r125.so'', ''/usr/lib/libqmlog.so.0'',
     ''/usr/lib/libqmsystem.so.1'', ''/usr/lib/libQtCore.so.4'', ''/usr/lib/libQtDBus.so.4'',
     ''/usr/lib/libQtDeclarative.so.4'', ''/usr/lib/libQtGui.so.4'',
     ''/usr/lib/libQtLocation.so.1'', ''/usr/lib/libQtMultimediaKit.so.1'',
     ''/usr/lib/libQtNetwork.so.4'', ''/usr/lib/libQtOpenGL.so.4'', ''/usr/lib/libQtScript.so.4'',
     ''/usr/lib/libQtScriptTools.so.4'', ''/usr/lib/libQtServiceFramework.so.1'',
     ''/usr/lib/libQtSql.so.4'', ''/usr/lib/libQtSvg.so.4'', ''/usr/lib/libQtTest.so.4'',
     ''/usr/lib/libqttracker.so.1~6'', ''/usr/lib/libQtWebKit.so.4'',
     ''/usr/lib/libQtXmlPatterns.so.4'', ''/usr/lib/libQtXml.so.4'',
     ''/usr/lib/libquillimagefilter.so.1'', ''/usr/lib/libquillmetadata.so.1'',
     ''/usr/lib/libquill.so.1'', ''/usr/lib/librelevance.so.0'', ''/usr/lib/libsensorclient.so.1'',
     ''/usr/lib/libsensordatatypes.so.1'', ''/usr/lib/libsmartsearch.so.0'',
     ''/usr/lib/libSM.so.6'', ''/usr/lib/libsndfile.so.1'', ''/usr/lib/libsqlite3.so.0'',
     ''/usr/lib/libsrv_um_r125.so'', ''/usr/lib/libssl.so.0.9.8'', ''/usr/lib/libstdc++.so.6'',
     ''/usr/lib/libsysinfo.so.0'', ''/usr/lib/libthumbnailer.so.0'', ''/usr/lib/libtimed.so.0'',
     ''/usr/lib/libWrtDialogsProvider.so.1'', ''/usr/lib/libWrtIpcClient.so.1'',
     ''/usr/lib/libWrtRuntimeCore.so.1'', ''/usr/lib/libWrtSecureStorage.so.1'',
     ''/usr/lib/libWrtSecurityManager.so.1'', ''/usr/lib/libWrtSettings.so.1'',
     ''/usr/lib/libWrtWidgetCore.so.1'', ''/usr/lib/libWrtWidgetUtils.so.1'',
     ''/usr/lib/libX11.so.6'', ''/usr/lib/libXau.so.6'', ''/usr/lib/libxcb.so.1'',
     ''/usr/lib/libXdamage.so.1'', ''/usr/lib/libXdmcp.so.6'', ''/usr/lib/libXext.so.6'',
     ''/usr/lib/libXfixes.so.3'', ''/usr/lib/libXi.so.6'', ''/usr/lib/libxml2.so.2'',
     ''/usr/lib/libXrandr.so.2'', ''/usr/lib/libXrender.so.1'', ''/usr/lib/libz.so.1'',
     ''/usr/bin/single-instance'']"

definition LAUNCHER_LIBRARY :: string where "LAUNCHER_LIBRARY = ''/usr/lib/applauncherd/libapplauncherd.so''"

type_synonym dlopen_call = "string \<times> int"

text \<open>One turn of the loop of \<open>loadLibraries\<close>. The flags are disjoint bits.\<close>

definition load_call :: "string \<Rightarrow> dlopen_call option" where
  "load_call lib = (case lib of
       [] \<Rightarrow> None
     | c # rest \<Rightarrow>
         if c \<noteq> CHR ''#'' \<and> 1 < length lib then
           Some (if c = CHR ''N'' then (rest, RTLD_NOW + RTLD_GLOBAL)
                 else if c = CHR ''L'' then (rest, RTLD_LAZY + RTLD_GLOBAL)
                 else if c = CHR ''D'' then (rest, RTLD_DEEPBIND + RTLD_GLOBAL)
                 else (lib, RTLD_NOW + RTLD_GLOBAL))
         else None)"

text \<open>The calls, and the libraries it warns about in debug mode.\<close>

fun loadLibraries :: "(dlopen_call \<Rightarrow> nat option) \<Rightarrow> bool \<Rightarrow> string list \<Rightarrow> dlopen_call list \<times> string list" where
  "loadLibraries dlopen g_debugPrinting [] = ([], [])"
| "loadLibraries dlopen g_debugPrinting (lib # libs) =
     (let (calls, warned) = loadLibraries dlopen g_debugPrinting libs
      in case load_call lib of
           None \<Rightarrow> (calls, warned)
         | Some call \<Rightarrow> (call # calls,
             if dlopen call = None \<and> g_debugPrinting then fst call # warned else warned))"

text \<open>
  \<open>invokeLauncherLib\<close>: \<open>entry\<close> is what the handle's \<open>main\<close> does to the process, if the
  symbol is found; the result of \<open>main\<close> is not looked at.
\<close>

definition invokeLauncherLib :: "(dlopen_call \<Rightarrow> nat option) \<Rightarrow> (nat \<Rightarrow> (string list \<Rightarrow> 'd \<Rightarrow> 'd outcome) option)
    \<Rightarrow> string list \<Rightarrow> 'd \<Rightarrow> (bool \<times> 'd) outcome" where
  "invokeLauncherLib dlopen dlsym_main argv d =
     (case dlopen (LAUNCHER_LIBRARY, RTLD_LAZY + RTLD_LOCAL) of
        None \<Rightarrow> Returns (False, d)
      | Some handle \<Rightarrow> (case dlsym_main handle of
          None \<Rightarrow> Returns (False, d)
        | Some entry \<Rightarrow> and_then (entry argv d) (\<lambda>d1. Returns (True, d1))))"

text \<open>\<open>main\<close>: the exit status, the calls of the preloading, and the process afterwards.\<close>

definition applauncherd :: "(dlopen_call \<Rightarrow> nat option) \<Rightarrow> (nat \<Rightarrow> (string list \<Rightarrow> daemon \<Rightarrow> daemon outcome) option)
    \<Rightarrow> string list \<Rightarrow> daemon \<Rightarrow> (int \<times> dlopen_call list \<times> daemon) outcome" where
  "applauncherd dlopen dlsym_main argv d =
     (if sys_getenv ''DISPLAY'' (p_environ (d_proc d)) = None then Returns (EXIT_FAILURE, [], d)
      else
        let g_debugPrinting = (''--debug'' \<in> set (tl argv));
            helpWanted = (''--help'' \<in> set (tl argv) \<or> ''-h'' \<in> set (tl argv));
            env = p_environ (d_proc d);
            d1 = d\<lparr>d_proc := (d_proc d)\<lparr>p_environ :=
                   (if sys_getenv ''TMPDIR'' env = None then sys_setenv ''TMPDIR'' ''/var/tmp'' env else env)\<rparr>\<rparr>;
            calls = (if \<not> helpWanted then fst (loadLibraries dlopen g_debugPrinting gLibs) else [])
        in and_then (invokeLauncherLib dlopen dlsym_main argv d1) (\<lambda>(ok, d2).
             Returns (if ok then EXIT_SUCCESS else EXIT_FAILURE, calls, d2)))"

subsection \<open>What is loaded\<close>

lemma gLibs_plain: "list_all (\<lambda>l. 1 < length l \<and> hd l = CHR ''/'') gLibs"
  by (simp add: gLibs_def)

lemma load_call_plain:
  "1 < length l \<Longrightarrow> hd l = CHR ''/'' \<Longrightarrow> load_call l = Some (l, RTLD_NOW + RTLD_GLOBAL)"
  by (cases l) (auto simp: load_call_def)

lemma loadLibraries_plain:
  "list_all (\<lambda>l. 1 < length l \<and> hd l = CHR ''/'') ls \<Longrightarrow>
     fst (loadLibraries dlopen dbg ls) = map (\<lambda>l. (l, RTLD_NOW + RTLD_GLOBAL)) ls"
  by (induction ls) (auto simp: load_call_plain split: prod.splits)

text \<open>
  A \<open>D\<close> entry of the list is never loaded: its flags have neither of the bits of which
  \<open>dlopen\<close> needs one.
\<close>

lemma deep_library_not_loaded:
  assumes "\<And>f m. m mod 4 = 0 \<Longrightarrow> dlopen (f, m) = None" "l \<noteq> []"
  shows "load_call (CHR ''D'' # l) = Some (l, RTLD_DEEPBIND + RTLD_GLOBAL)"
    "dlopen (l, RTLD_DEEPBIND + RTLD_GLOBAL) = None"
  using assms by (simp_all add: load_call_def RTLD_DEEPBIND_def RTLD_GLOBAL_def)

text \<open>
  C34. The launcher's process before the daemon runs: without \<open>DISPLAY\<close> it ends with status 1 and
  has loaded nothing and started nothing; otherwise it loads exactly the libraries of the list, in
  order, each with all symbols bound and global (none if help is asked for), has \<open>TMPDIR\<close> in its
  environment, its own value if it had one, and ends with 0 if the daemon's \<open>main\<close> returns,
  with 1 if the library or its \<open>main\<close> is missing.
\<close>

theorem launcher_preloads:
  shows "case sys_getenv ''DISPLAY'' (p_environ (d_proc d)) of
      None \<Rightarrow> applauncherd dlopen dlsym_main argv d = Returns (1, [], d)
    | Some _ \<Rightarrow> (\<exists>d1. d1 = d\<lparr>d_proc := (d_proc d)\<lparr>p_environ := p_environ (d_proc d1)\<rparr>\<rparr> \<and>
        sys_getenv ''TMPDIR'' (p_environ (d_proc d1)) = Some (case sys_getenv ''TMPDIR'' (p_environ (d_proc d)) of
            None \<Rightarrow> ''/var/tmp'' | Some v \<Rightarrow> v) \<and>
        applauncherd dlopen dlsym_main argv d =
          (let calls = (if ''--help'' \<in> set (tl argv) \<or> ''-h'' \<in> set (tl argv) then []
                        else map (\<lambda>l. (l, RTLD_NOW + RTLD_GLOBAL)) gLibs)
           in case Option.bind (dlopen (LAUNCHER_LIBRARY, RTLD_LAZY + RTLD_LOCAL)) dlsym_main of
                None \<Rightarrow> Returns (1, calls, d1)
              | Some entry \<Rightarrow> and_then (entry argv d1) (\<lambda>d2. Returns (0, calls, d2))))"
proof (cases "sys_getenv ''DISPLAY'' (p_environ (d_proc d))")
  case None
  then show ?thesis by (simp add: applauncherd_def EXIT_FAILURE_def)
next
  case (Some v)
  let ?env = "p_environ (d_proc d)"
  let ?d1 = "d\<lparr>d_proc := (d_proc d)\<lparr>p_environ :=
     (if sys_getenv ''TMPDIR'' ?env = None then sys_setenv ''TMPDIR'' ''/var/tmp'' ?env else ?env)\<rparr>\<rparr>"
  have run: "applauncherd dlopen dlsym_main argv d =
      (let calls = (if ''--help'' \<in> set (tl argv) \<or> ''-h'' \<in> set (tl argv) then []
                        else map (\<lambda>l. (l, RTLD_NOW + RTLD_GLOBAL)) gLibs)
           in case Option.bind (dlopen (LAUNCHER_LIBRARY, RTLD_LAZY + RTLD_LOCAL)) dlsym_main of
                None \<Rightarrow> Returns (1, calls, ?d1)
              | Some entry \<Rightarrow> and_then (entry argv ?d1) (\<lambda>d2. Returns (0, calls, d2)))"
    using Some
    by (auto simp: applauncherd_def invokeLauncherLib_def Let_def EXIT_FAILURE_def EXIT_SUCCESS_def
        loadLibraries_plain [OF gLibs_plain] and_then_assoc bind_eq_None_conv split: option.splits)
  show ?thesis
    unfolding Some option.case run
    by (rule exI [of _ ?d1]) (simp add: sys_getenv_setenv split: option.splits)
qed

end
