(* ===== verification/Event_Handler.thy ===== *)
theory Event_Handler
  imports Booster
begin

text \<open>
  \<open>src/mbooster/eventhandler.cpp\<close>: the Qt event loop in which \<open>MBooster\<close> waits for the
  invoker, as a machine over what happens in the meantime, in the order in which the loop
  gets to it: the accepting thread is done, the theme changes, a SIGHUP arrives. Its
  summary is the single event of the booster's model (\<open>in_event\<close>).
\<close>

datatype happening = Accept_done bool | Theme_value_changed | Signal_HUP

text \<open>What SIGHUP does to the process: the previous action, or the handler.\<close>

datatype hup_action = Previous | Hup_handler

record event_handler =
  eh_action :: hup_action
  eh_old_action :: hup_action
  eh_sighup_bytes :: nat
  eh_item :: bool

datatype loop_end = Loop_left event_handler "happening list" | Process_exits int | Killed_by_HUP

text \<open>The accepting thread: the signal it emits, after \<open>accept\<close>'s result.\<close>

definition EventHandler_accept :: "bool \<Rightarrow> happening" where
  "EventHandler_accept accepted = (if accepted then Accept_done True else Accept_done False)"

definition notifyThemeChange :: loop_end where
  "notifyThemeChange = Process_exits EXIT_SUCCESS"

definition hupSignalHandler :: "event_handler \<Rightarrow> event_handler" where
  "hupSignalHandler e = e\<lparr>eh_sighup_bytes := eh_sighup_bytes e + 1\<rparr>"

definition handleSigHup :: loop_end where
  "handleSigHup = Process_exits EXIT_SUCCESS"

definition setupUnixSignalHandlers :: "event_handler \<Rightarrow> bool \<times> event_handler" where
  "setupUnixSignalHandlers e = (True, e\<lparr>eh_old_action := eh_action e, eh_action := Hup_handler\<rparr>)"

definition restoreUnixSignalHandlers :: "event_handler \<Rightarrow> bool \<times> event_handler" where
  "restoreUnixSignalHandlers e = (True, e\<lparr>eh_action := eh_old_action e\<rparr>)"

text \<open>
  \<open>MApplication::exec\<close>: \<open>watched\<close> is whether the socket notifier is installed. Both results of
  the accepting thread are connected to \<open>quit\<close>. A SIGHUP without the handler ends the process
  by its default action.
\<close>

fun exec_loop :: "bool \<Rightarrow> happening list \<Rightarrow> event_handler \<Rightarrow> loop_end option" where
  "exec_loop watched [] e = None"
| "exec_loop watched (Accept_done ok # hs) e = Some (Loop_left e hs)"
| "exec_loop watched (Theme_value_changed # hs) e =
     (if eh_item e then Some notifyThemeChange else exec_loop watched hs e)"
| "exec_loop watched (Signal_HUP # hs) e =
     (case eh_action e of
        Previous \<Rightarrow> Some Killed_by_HUP
      | Hup_handler \<Rightarrow> if watched then Some handleSigHup else exec_loop watched hs (hupSignalHandler e))"

text \<open>The result is None while the loop still runs.\<close>

definition runEventLoop :: "bool \<Rightarrow> happening list \<Rightarrow> event_handler \<Rightarrow> loop_end option" where
  "runEventLoop socketpair_ok hs e =
     (let e1 = e\<lparr>eh_item := True\<rparr>;
          (handlerIsSet, e2) = (if \<not> socketpair_ok then (False, e1)
             else (True, snd (setupUnixSignalHandlers e1)))
      in case exec_loop handlerIsSet hs e2 of
           Some (Loop_left e3 rest) \<Rightarrow>
             let e4 = e3\<lparr>eh_item := False\<rparr>
             in Some (Loop_left (if handlerIsSet then snd (restoreUnixSignalHandlers e4) else e4) rest)
         | r \<Rightarrow> r)"

subsection \<open>The summary\<close>

definition summary :: "happening list \<Rightarrow> loop_event option" where
  "summary hs = (case hs of
       [] \<Rightarrow> None
     | Accept_done _ # _ \<Rightarrow> Some InvokerConnected
     | Theme_value_changed # _ \<Rightarrow> Some ThemeChanged
     | Signal_HUP # _ \<Rightarrow> Some HangUp)"

text \<open>
  The event loop does what the booster's model says of its summary: it is left, with the SIGHUP
  action and the theme handler as before, exactly if the accepting thread is done first, and
  otherwise the process exits with success at the first event.
\<close>

lemma event_loop_summary:
  assumes "eh_item e = False"
  shows "runEventLoop True hs e = (case summary hs of
      None \<Rightarrow> None
    | Some InvokerConnected \<Rightarrow> Some (Loop_left (e\<lparr>eh_old_action := eh_action e\<rparr>) (tl hs))
    | Some _ \<Rightarrow> Some (Process_exits EXIT_SUCCESS))"
proof (cases hs)
  case (Cons h hs')
  show ?thesis
    using assms Cons
    by (cases h; cases e) (simp_all add: runEventLoop_def summary_def setupUnixSignalHandlers_def
        restoreUnixSignalHandlers_def notifyThemeChange_def handleSigHup_def)
qed (simp add: runEventLoop_def summary_def setupUnixSignalHandlers_def)

text \<open>Without the socket pair a SIGHUP kills the waiting booster by its previous action.\<close>

lemma event_loop_without_sockets:
  "eh_action e = Previous \<Longrightarrow> runEventLoop False (Signal_HUP # hs) e = Some Killed_by_HUP"
  by (simp add: runEventLoop_def)

end
