(* ===== verification/Declarative_Cache.thy ===== *)
theory Declarative_Cache
  imports AppData Process
begin

text \<open>
  \<open>src/qdeclarativebooster/mdeclarativecache.cpp\<close>: the \<open>QApplication\<close> and
  \<open>QDeclarativeView\<close> that the QML booster makes before it knows the application, and hands to
  the application later. An application object refers to the argument array it was constructed
  with: the cache's own, or the caller's. Views are numbered in the order of their
  construction. What Qt and the X server do beyond that is not modelled; \<open>dc_wm\<close> is what the
  cache sets as \<open>WM_COMMAND\<close> and \<open>WM_CLASS\<close>.
\<close>

datatype qapp = FromCache | FromCaller int "cptr list"

record decl_cache =
  qApplicationInstance :: "qapp option"
  qDeclarativeViewInstance :: "nat option"
  initialArgc :: int
  initialArgv :: "cptr list"
  appDirPath :: string
  appFilePath :: string
  cachePopulated :: bool
  dc_views :: nat
  dc_wm :: "(cptr list \<times> string \<times> string) option"

definition ARGV_LIMIT :: int where "ARGV_LIMIT = 32"

definition MDeclarativeCachePrivate_init :: decl_cache where
  "MDeclarativeCachePrivate_init = \<lparr>qApplicationInstance = None, qDeclarativeViewInstance = None,
     initialArgc = ARGV_LIMIT, initialArgv = replicate 32 Indeterminate, appDirPath = [],
     appFilePath = [], cachePopulated = False, dc_views = 0, dc_wm = None\<rparr>"

fun show_nat :: "nat \<Rightarrow> string" where
  "show_nat n = (if n < 10 then [char_of (48 + n)] else show_nat (n div 10) @ [char_of (48 + n mod 10)])"

declare show_nat.simps [simp del]

definition populate_cache :: "nat \<Rightarrow> decl_cache \<Rightarrow> decl_cache" where
  "populate_cache pid c =
     (let appName = ''mdeclarativecache_pre_initialized_qapplication'' @ show_nat pid;
          c1 = c\<lparr>cachePopulated := True,
                 initialArgv := (let n = nat (initialArgc c)
                    in Str appName # replicate (n - 1) (Str []) @ drop (max 1 n) (initialArgv c))\<rparr>;
          c2 = (if qApplicationInstance c1 = None
                then c1\<lparr>qApplicationInstance := Some FromCache\<rparr> else c1)
      in c2\<lparr>qDeclarativeViewInstance := Some (dc_views c2), dc_views := dc_views c2 + 1\<rparr>)"

text \<open>What the application object reports as its arguments.\<close>

definition app_arguments :: "decl_cache \<Rightarrow> cptr list" where
  "app_arguments c = (case qApplicationInstance c of
       None \<Rightarrow> []
     | Some FromCache \<Rightarrow> take (nat (initialArgc c)) (initialArgv c)
     | Some (FromCaller n a) \<Rightarrow> take (nat n) a)"

text \<open>A \<open>QString\<close> of a C string; the upper case of an ASCII character.\<close>

definition qstring :: "cptr \<Rightarrow> string outcome" where
  "qstring p = (case p of NullPtr \<Rightarrow> Returns [] | Indeterminate \<Rightarrow> Undefined IndeterminateValue
     | Str s \<Rightarrow> Returns s)"

definition upper :: "char \<Rightarrow> char" where
  "upper c = (if 97 \<le> (of_char c :: nat) \<and> (of_char c :: nat) \<le> 122 then char_of (of_char c - 32 :: nat) else c)"

definition wm_class :: "string \<Rightarrow> string \<times> string" where
  "wm_class argv0 = (let appName = base_name argv0
     in (appName, map upper (take 1 appName) @ (if 1 < length appName then drop 1 appName else [])))"

text \<open>\<open>appDirPath.chop(size - lastIndexOf("/"))\<close>: what is before the last slash.\<close>

definition chop_file :: "string \<Rightarrow> string" where
  "chop_file s = (if CHR ''/'' \<in> set s
     then take (length s - 1 - length (takeWhile (\<lambda>c. c \<noteq> CHR ''/'') (rev s))) s else [])"

text \<open>
  \<open>qApplication\<close>: \<open>argv\<close> is the caller's array with its terminating null pointer, \<open>display\<close>
  whether there is an X display.
\<close>

definition qApplication :: "bool \<Rightarrow> int \<Rightarrow> cptr list \<Rightarrow> decl_cache \<Rightarrow> decl_cache outcome" where
  "qApplication display argc argv c = (case qApplicationInstance c of
       None \<Rightarrow> Returns (c\<lparr>qApplicationInstance := Some (FromCaller argc argv)\<rparr>)
     | Some app \<Rightarrow>
         let n = nat (min argc ARGV_LIMIT);
             cells = (case app of FromCache \<Rightarrow> initialArgv c | FromCaller _ a \<Rightarrow> a);
             cells' = take n argv @ drop n cells
         in if n > length argv \<or> n > length cells then Undefined OutOfBounds
            else
              let c1 = (case app of
                     FromCache \<Rightarrow> c\<lparr>initialArgv := cells'\<rparr>
                   | FromCaller k _ \<Rightarrow> c\<lparr>qApplicationInstance := Some (FromCaller k cells')\<rparr>);
                  c2 = c1\<lparr>initialArgc := min argc ARGV_LIMIT\<rparr>;
                  titled = (qDeclarativeViewInstance c2 \<noteq> None \<and> display)
              in if \<not> titled \<and> \<not> cachePopulated c2 then Returns c2
                 else if argv = [] then Undefined OutOfBounds
                 else and_then (qstring (hd argv)) (\<lambda>argv0.
                   let c3 = (if titled then c2\<lparr>dc_wm := Some (take (nat argc) argv, wm_class argv0)\<rparr> else c2)
                   in Returns (if cachePopulated c3
                        then c3\<lparr>appFilePath := argv0, appDirPath := chop_file argv0\<rparr> else c3)))"

definition qDeclarativeView :: "decl_cache \<Rightarrow> nat \<times> decl_cache" where
  "qDeclarativeView c = (case qDeclarativeViewInstance c of
       Some v \<Rightarrow> (v, c\<lparr>qDeclarativeViewInstance := None\<rparr>)
     | None \<Rightarrow> (dc_views c, c\<lparr>dc_views := dc_views c + 1\<rparr>))"

text \<open>\<open>qt_path\<close> is what \<open>QCoreApplication\<close> answers.\<close>

definition applicationDirPath :: "string \<Rightarrow> decl_cache \<Rightarrow> string" where
  "applicationDirPath qt_path c = (if cachePopulated c then appDirPath c else qt_path)"

definition applicationFilePath :: "string \<Rightarrow> decl_cache \<Rightarrow> string" where
  "applicationFilePath qt_path c = (if cachePopulated c then appFilePath c else qt_path)"

text \<open>The members of \<open>MDeclarativeCache\<close>, which applications call: those of its one private object.\<close>

abbreviation MDeclarativeCache_populate :: "nat \<Rightarrow> decl_cache \<Rightarrow> decl_cache" where
  "MDeclarativeCache_populate pid c \<equiv> populate_cache pid c"

abbreviation MDeclarativeCache_qApplication :: "bool \<Rightarrow> int \<Rightarrow> cptr list \<Rightarrow> decl_cache \<Rightarrow> decl_cache outcome" where
  "MDeclarativeCache_qApplication display argc argv c \<equiv> qApplication display argc argv c"

abbreviation MDeclarativeCache_qDeclarativeView :: "decl_cache \<Rightarrow> nat \<times> decl_cache" where
  "MDeclarativeCache_qDeclarativeView c \<equiv> qDeclarativeView c"

abbreviation MDeclarativeCache_applicationDirPath :: "string \<Rightarrow> decl_cache \<Rightarrow> string" where
  "MDeclarativeCache_applicationDirPath qt_path c \<equiv> applicationDirPath qt_path c"

abbreviation MDeclarativeCache_applicationFilePath :: "string \<Rightarrow> decl_cache \<Rightarrow> string" where
  "MDeclarativeCache_applicationFilePath qt_path c \<equiv> applicationFilePath qt_path c"

subsection \<open>What an application gets from the cache\<close>

lemma populate_fields:
  "qApplicationInstance (populate_cache pid MDeclarativeCachePrivate_init) = Some FromCache"
  "length (initialArgv (populate_cache pid MDeclarativeCachePrivate_init)) = 32"
  "qDeclarativeViewInstance (populate_cache pid MDeclarativeCachePrivate_init) = Some 0"
  "cachePopulated (populate_cache pid MDeclarativeCachePrivate_init)"
  "dc_views (populate_cache pid MDeclarativeCachePrivate_init) = 1"
  by (simp_all add: populate_cache_def MDeclarativeCachePrivate_init_def ARGV_LIMIT_def Let_def)

lemma chop_file_split:
  "CHR ''/'' \<notin> set file \<Longrightarrow> chop_file (dir @ CHR ''/'' # file) = dir"
proof -
  assume f: "CHR ''/'' \<notin> set file"
  then have "takeWhile (\<lambda>c. c \<noteq> CHR ''/'') (rev file @ CHR ''/'' # rev dir) = rev file"
    by (subst takeWhile_append2) auto
  then show ?thesis by (simp add: chop_file_def)
qed

text \<open>
  C35. What an application gets from a populated cache: an application object that reports the
  first 32 of its own arguments and no other, its own file and directory as application path
  (with the program in a directory), its own arguments as window command, the cached view the
  first time, and views never handed out before after that.
\<close>

theorem cache_serves_application:
  assumes "CHR ''/'' \<notin> set file"
  shows "\<exists>c. MDeclarativeCache_qApplication True (int (length args) + 1) (map Str ((dir @ CHR ''/'' # file) # args) @ [NullPtr])
        (MDeclarativeCache_populate pid MDeclarativeCachePrivate_init) = Returns c \<and>
      app_arguments c = map Str (take 32 ((dir @ CHR ''/'' # file) # args)) \<and>
      MDeclarativeCache_applicationFilePath p c = dir @ CHR ''/'' # file \<and> MDeclarativeCache_applicationDirPath p c = dir \<and>
      dc_wm c = Some (map Str ((dir @ CHR ''/'' # file) # args), wm_class (dir @ CHR ''/'' # file)) \<and>
      (\<exists>c1 c2. MDeclarativeCache_qDeclarativeView c = (0, c1) \<and> MDeclarativeCache_qDeclarativeView c1 = (1, c2) \<and>
        (\<exists>c3. MDeclarativeCache_qDeclarativeView c2 = (2, c3)))"
proof -
  let ?c = "populate_cache pid MDeclarativeCachePrivate_init" and ?exe = "dir @ CHR ''/'' # file"
  let ?argv = "map Str (?exe # args) @ [NullPtr]"
  have n: "nat (min (int (length args) + 1) ARGV_LIMIT) = min (length args + 1) 32"
    by (simp add: ARGV_LIMIT_def min_def nat_add_distrib)
  let ?cells = "take (min (length args + 1) 32) ?argv @ drop (min (length args + 1) 32) (initialArgv ?c)"
  have t: "take (min (length args + 1) 32) ?cells = map Str (take 32 (?exe # args))"
    by (simp add: take_map min_def take_Cons')
  have q: "qApplication True (int (length args) + 1) ?argv ?c = Returns
      (?c\<lparr>initialArgv := ?cells, initialArgc := min (int (length args) + 1) ARGV_LIMIT,
          dc_wm := Some (map Str (?exe # args), wm_class ?exe),
          appFilePath := ?exe, appDirPath := chop_file ?exe\<rparr>)"
    using populate_fields [of pid]
    by (simp add: qApplication_def n qstring_def nat_add_distrib Let_def)
  show ?thesis
    unfolding q using t populate_fields [of pid] assms
    by (simp add: app_arguments_def n applicationFilePath_def applicationDirPath_def chop_file_split
        qDeclarativeView_def)
qed

theorem cache_serves_application_witness:
  "\<exists>c. qApplication True 2 [Str ''/usr/bin/app'', Str ''x'', NullPtr]
        (populate_cache 41 MDeclarativeCachePrivate_init) = Returns c \<and>
      app_arguments c = [Str ''/usr/bin/app'', Str ''x''] \<and> applicationDirPath [] c = ''/usr/bin'' \<and>
      dc_wm c = Some ([Str ''/usr/bin/app'', Str ''x''], ''app'', ''App'')"
proof -
  have "wm_class ''/usr/bin/app'' = (''app'', ''App'')" by code_simp
  then show ?thesis
    using cache_serves_application [of "''app''" "[''x'']" "''/usr/bin''" 41 "[]"] by auto
qed

end
