(* ===== verification/Logging.thy ===== *)
theory Logging
  imports Prelude
begin

text \<open>
  Reporting: \<open>src/invoker/report.c\<close> and \<open>src/launcherlib/logger.cpp\<close>. What matters about a
  variable argument list is whether it has been walked already: a walked list must not be
  walked again. \<open>render\<close> stands for the formatting of the C library (a format and its arguments
  to a text); what is written is kept per destination.
\<close>

datatype va_list = Fresh "string list" | Walked

type_synonym formatter = "string \<Rightarrow> string list \<Rightarrow> string"

fun conversions :: "string \<Rightarrow> nat" where
  "conversions (a # b # s) = (if a = CHR ''%''
     then (if b = CHR ''%'' then conversions s else Suc (conversions (b # s))) else conversions (b # s))"
| "conversions _ = 0"

text \<open>A call of a \<open>v...printf\<close> function: the text and what is left of the list.\<close>

definition vformat :: "formatter \<Rightarrow> string \<Rightarrow> va_list \<Rightarrow> (string \<times> va_list) outcome" where
  "vformat render fmt ap = (case ap of
       Fresh args \<Rightarrow> Returns (render fmt args, if conversions fmt = 0 then ap else Walked)
     | Walked \<Rightarrow> if conversions fmt = 0 then Returns (render fmt [], ap) else Undefined IndeterminateValue)"

subsection \<open>report.c\<close>

datatype report_output = report_console | report_syslog | report_none
datatype report_type = report_debug | report_info | report_warning | report_error | report_fatal

record reporter =
  rp_output :: report_output
  rp_syslog_open :: bool
  rp_console :: "string list"
  rp_syslog :: "(nat \<times> string) list"

definition LOG_ERR :: nat where "LOG_ERR = 3"
definition LOG_WARNING :: nat where "LOG_WARNING = 4"
definition LOG_INFO :: nat where "LOG_INFO = 6"
definition LOG_DEBUG :: nat where "LOG_DEBUG = 7"

definition report_set_output :: "report_output \<Rightarrow> reporter \<Rightarrow> reporter" where
  "report_set_output new_output r =
     (if rp_output r = new_output then r
      else let r1 = (if rp_output r = report_syslog then r\<lparr>rp_syslog_open := False\<rparr> else r);
               r2 = (if new_output = report_syslog then r1\<lparr>rp_syslog_open := True\<rparr> else r1)
           in r2\<lparr>rp_output := new_output\<rparr>)"

definition log_level :: "report_type \<Rightarrow> string \<times> nat" where
  "log_level t = (case t of
       report_debug \<Rightarrow> ([], LOG_DEBUG)
     | report_info \<Rightarrow> ([], LOG_INFO)
     | report_warning \<Rightarrow> (''warning: '', LOG_WARNING)
     | report_error \<Rightarrow> (''error: '', LOG_ERR)
     | report_fatal \<Rightarrow> (''died: '', LOG_ERR))"

definition vreport :: "formatter \<Rightarrow> report_type \<Rightarrow> string \<Rightarrow> va_list \<Rightarrow> reporter \<Rightarrow> reporter outcome" where
  "vreport render t msg ap r = (let (str_type, log_type) = log_level t
     in and_then (vformat render msg ap) (\<lambda>(text0, _).
        let str = take 399 text0
        in Returns (case rp_output r of
              report_console \<Rightarrow> r\<lparr>rp_console := rp_console r @ [''invoker: '' @ str_type @ str]\<rparr>
            | report_syslog \<Rightarrow> r\<lparr>rp_syslog := rp_syslog r @ [(log_type, str_type @ str)]\<rparr>
            | report_none \<Rightarrow> r)))"

definition report :: "formatter \<Rightarrow> report_type \<Rightarrow> string \<Rightarrow> string list \<Rightarrow> reporter \<Rightarrow> reporter outcome" where
  "report render t msg args r = vreport render t msg (Fresh args) r"

text \<open>\<open>die\<close>: what it has reported, and the status it exits with.\<close>

definition die :: "formatter \<Rightarrow> int \<Rightarrow> string \<Rightarrow> string list \<Rightarrow> reporter \<Rightarrow> (reporter \<times> int) outcome" where
  "die render status msg args r =
     and_then (vreport render report_fatal msg (Fresh args) r) (\<lambda>r1. Returns (r1, status))"

subsection \<open>logger.cpp\<close>

record logger =
  m_isOpened :: bool
  m_debugMode :: bool
  lg_stdout :: "string list"
  lg_stderr :: "string list"
  lg_syslog :: "(nat \<times> string) list"

definition openLog :: "logger \<Rightarrow> logger" where
  "openLog l = l\<lparr>m_isOpened := True\<rparr>"

definition closeLog :: "logger \<Rightarrow> logger" where
  "closeLog l = (if m_isOpened l then l\<lparr>m_isOpened := False\<rparr> else l)"

definition setDebugMode :: "bool \<Rightarrow> logger \<Rightarrow> logger" where
  "setDebugMode enable l = l\<lparr>m_debugMode := enable\<rparr>"

text \<open>\<open>writeLog\<close> passes the same list to \<open>vprintf\<close> and to \<open>vsyslog\<close>.\<close>

definition writeLog :: "formatter \<Rightarrow> nat \<Rightarrow> string \<Rightarrow> va_list \<Rightarrow> logger \<Rightarrow> (va_list \<times> logger) outcome" where
  "writeLog render priority fmt ap l =
     (if m_isOpened l then
        and_then (if m_debugMode l
            then and_then (vformat render fmt ap) (\<lambda>(s, ap1).
              Returns (ap1, l\<lparr>lg_stdout := lg_stdout l @ [s @ [CHR 0x0A]]\<rparr>))
            else Returns (ap, l)) (\<lambda>(ap1, l1).
        and_then (vformat render fmt ap1) (\<lambda>(s, ap2).
          Returns (ap2, l1\<lparr>lg_syslog := lg_syslog l1 @ [(priority, s)]\<rparr>)))
      else Returns (ap, l))"

definition log_at :: "formatter \<Rightarrow> nat \<Rightarrow> string \<Rightarrow> string list \<Rightarrow> logger \<Rightarrow> logger outcome" where
  "log_at render priority fmt args l =
     and_then (writeLog render priority fmt (Fresh args) l) (\<lambda>(_, l1). Returns l1)"

definition logDebug :: "formatter \<Rightarrow> string \<Rightarrow> string list \<Rightarrow> logger \<Rightarrow> logger outcome" where
  "logDebug render fmt args l = (if m_debugMode l then log_at render LOG_DEBUG fmt args l else Returns l)"

definition logInfo :: "formatter \<Rightarrow> string \<Rightarrow> string list \<Rightarrow> logger \<Rightarrow> logger outcome" where
  "logInfo render fmt args l = log_at render LOG_INFO fmt args l"

definition logWarning :: "formatter \<Rightarrow> string \<Rightarrow> string list \<Rightarrow> logger \<Rightarrow> logger outcome" where
  "logWarning render fmt args l = log_at render LOG_WARNING fmt args l"

definition logError :: "formatter \<Rightarrow> string \<Rightarrow> string list \<Rightarrow> logger \<Rightarrow> logger outcome" where
  "logError render fmt args l = log_at render LOG_ERR fmt args l"

text \<open>\<open>logErrorAndDie\<close>: what it has logged, and the status of \<open>_exit\<close>.\<close>

definition logErrorAndDie :: "formatter \<Rightarrow> int \<Rightarrow> string \<Rightarrow> string list \<Rightarrow> logger \<Rightarrow> (logger \<times> int) outcome" where
  "logErrorAndDie render code fmt args l =
     and_then (writeLog render LOG_ERR fmt (Fresh args) l) (\<lambda>(ap, l1).
     and_then (vformat render fmt ap) (\<lambda>(s, _).
       Returns (l1\<lparr>lg_stderr := lg_stderr l1 @ [s]\<rparr>, code)))"

subsection \<open>Which messages can be logged\<close>

lemma vformat_Fresh: "vformat render fmt (Fresh args)
    = Returns (render fmt args, if conversions fmt = 0 then Fresh args else Walked)"
  by (simp add: vformat_def)

text \<open>
  Argument lists are walked twice. A message without conversions reaches every
  destination. One with conversions reaches the system log if debugging is off; in debug mode
  every message with conversions, and, whenever the log is open, every fatal message with
  conversions, uses the argument list again after it was consumed, which is undefined.
\<close>

theorem argument_list_reuse:
  "logErrorAndDie render code fmt args l =
     (if conversions fmt \<noteq> 0 \<and> m_isOpened l then Undefined IndeterminateValue
      else Returns (l\<lparr>lg_stdout := lg_stdout l @ (if m_isOpened l \<and> m_debugMode l
                        then [render fmt args @ [CHR 0x0A]] else []),
                      lg_stderr := lg_stderr l @ [render fmt args],
                      lg_syslog := lg_syslog l @ (if m_isOpened l then [(LOG_ERR, render fmt args)] else [])\<rparr>, code))
   \<and> logError render fmt args l =
     (if conversions fmt \<noteq> 0 \<and> m_isOpened l \<and> m_debugMode l then Undefined IndeterminateValue
      else Returns (l\<lparr>lg_stdout := lg_stdout l @ (if m_isOpened l \<and> m_debugMode l
                        then [render fmt args @ [CHR 0x0A]] else []),
                      lg_syslog := lg_syslog l @ (if m_isOpened l then [(LOG_ERR, render fmt args)] else [])\<rparr>))"
  by (cases "m_isOpened l"; cases "m_debugMode l"; cases "conversions fmt = 0")
    (simp_all add: logErrorAndDie_def logError_def log_at_def writeLog_def vformat_def)

end
