(* ===== verification/Launcher_Start.thy ===== *)
theory Launcher_Start
  imports Daemon_System Launcher_Lock
begin

text \<open>
  The start of the launcher, from \<open>main\<close> to the first turn of the loop: the lock, the
  constructor of \<open>Daemon\<close> (arguments, console, pipes, detaching), the plugins, their sockets and
  the first boosters. The lemmas follow the descriptor table through it.
\<close>

subsection \<open>The descriptor table\<close>

text \<open>Nothing but the descriptor table differs, and no descriptor that was open has changed.\<close>

definition extends_fds :: "proc \<Rightarrow> proc \<Rightarrow> bool" where
  "extends_fds p q \<longleftrightarrow> q = p\<lparr>p_fds := p_fds q\<rparr> \<and> fds_ok q \<and>
     (\<forall>k. fd_file p k \<noteq> None \<longrightarrow> fd_file q k = fd_file p k)"

lemma extends_fds_refl: "fds_ok p \<Longrightarrow> extends_fds p p"
  by (simp add: extends_fds_def)

lemma extends_fds_trans:
  assumes "extends_fds p q" "extends_fds q r"
  shows "extends_fds p r"
proof -
  obtain m n where "q = p\<lparr>p_fds := m\<rparr>" "r = q\<lparr>p_fds := n\<rparr>"
    using assms unfolding extends_fds_def by blast
  with assms show ?thesis by (simp add: extends_fds_def)
qed

lemma sys_install_extends:
  assumes "fds_ok p" "sys_install f p = (fd, q)"
  shows "extends_fds p q" "0 \<le> fd" "fd_file p fd = None" "fd_file q k = (if k = fd then Some f else fd_file p k)"
  using assms lowest_free_free [of "p_fds p" 0] lowest_free_ge [of 0 "p_fds p"]
  by (auto simp: sys_install_def extends_fds_def fds_ok_def smap_simps Let_def)

lemma extends_fds_files:
  assumes "extends_fds p q" "map (fd_file p) ks = map Some fs"
  shows "map (fd_file q) ks = map Some fs"
proof -
  have "fd_file q k = fd_file p k" if "k \<in> set ks" for k
  proof -
    have "fd_file p k \<in> set (map Some fs)" unfolding assms(2) [symmetric] using that by simp
    then have "fd_file p k \<noteq> None" by auto
    with assms(1) show ?thesis by (simp add: extends_fds_def)
  qed
  then show ?thesis unfolding assms(2) [symmetric] by simp
qed

text \<open>The descriptors of the pipes, in the order of their creation.\<close>

definition pipe_ends :: "(int \<times> int) list \<Rightarrow> int list" where
  "pipe_ends ps = concat (map (\<lambda>(a, b). [a, b]) ps)"

lemma sys_pipe_value:
  assumes "fds_ok p" "sys_pipe f p = ((a, b), q)"
  shows "extends_fds p q" "a \<noteq> b" "0 \<le> a" "0 \<le> b" "fd_file p a = None" "fd_file p b = None"
    "fd_file q k = (if k = a then Some f else if k = b then Some (f + 1) else fd_file p k)"
proof -
  obtain p1 where p1: "sys_install f p = (a, p1)" "sys_install (f + 1) p1 = (b, q)"
    using assms(2) by (auto simp: sys_pipe_def Let_def split: prod.splits)
  note i = sys_install_extends [OF assms(1) p1(1)]
  have "fds_ok p1" using i(1) by (simp add: extends_fds_def)
  note j = sys_install_extends [OF this p1(2)]
  show "extends_fds p q" by (rule extends_fds_trans [OF i(1) j(1)])
  show "a \<noteq> b" using j(3) i(4) [of a] by auto
  then show "fd_file q k = (if k = a then Some f else if k = b then Some (f + 1) else fd_file p k)"
    "fd_file p b = None"
    using i(4) j(3,4) by (auto split: if_splits)
  show "0 \<le> a" "0 \<le> b" "fd_file p a = None" using i(2,3) j(2) by simp_all
qed

lemma make_pipes_value:
  assumes "fds_ok p"
  shows "\<exists>ps q. make_pipes (map Some fs) p = Returns (ps, q) \<and> extends_fds p q \<and> length ps = length fs \<and>
    distinct (pipe_ends ps) \<and> (\<forall>k \<in> set (pipe_ends ps). 0 \<le> k \<and> fd_file p k = None) \<and>
    map (fd_file q) (pipe_ends ps) = map Some (concat (map (\<lambda>f. [f, f + 1]) fs)) \<and>
    (\<forall>k. k \<notin> set (pipe_ends ps) \<longrightarrow> fd_file q k = fd_file p k)"
  using assms
proof (induction fs arbitrary: p)
  case Nil
  then show ?case by (simp add: pipe_ends_def extends_fds_refl)
next
  case (Cons f fs)
  obtain a b p1 where p1: "sys_pipe f p = ((a, b), p1)" by (metis prod.exhaust)
  note v = sys_pipe_value [OF Cons.prems p1]
  have "fds_ok p1" using v(1) by (simp add: extends_fds_def)
  from Cons.IH [OF this] obtain ps q where q: "make_pipes (map Some fs) p1 = Returns (ps, q)" "extends_fds p1 q"
    "length ps = length fs" "distinct (pipe_ends ps)"
    "\<forall>k \<in> set (pipe_ends ps). 0 \<le> k \<and> fd_file p1 k = None"
    "map (fd_file q) (pipe_ends ps) = map Some (concat (map (\<lambda>f. [f, f + 1]) fs))"
    "\<forall>k. k \<notin> set (pipe_ends ps) \<longrightarrow> fd_file q k = fd_file p1 k" by blast
  have ab: "fd_file p1 a = Some f" "fd_file p1 b = Some (f + 1)" using v(2,7) by auto
  then have "a \<notin> set (pipe_ends ps)" "b \<notin> set (pipe_ends ps)" using q(5) by auto
  moreover have "fd_file q a = Some f" "fd_file q b = Some (f + 1)"
    using q(2) ab by (simp_all add: extends_fds_def)
  moreover have "\<forall>k \<in> set (pipe_ends ps). fd_file p k = None"
    using q(5) v(7) by (auto split: if_splits)
  moreover have "pipe_ends ((a, b) # ps) = a # b # pipe_ends ps" by (simp add: pipe_ends_def)
  moreover have "fd_file q k = fd_file p k" if "k \<notin> set (a # b # pipe_ends ps)" for k
    using that q(7) v(7) by simp
  ultimately show ?case
    using p1 q v(2-6) extends_fds_trans [OF v(1) q(2)] by simp
qed

lemma redirect_null_value:
  assumes "fds_ok p" "0 \<le> std" "fd_file p std \<noteq> None"
  shows "fds_ok (redirect_null (Some f) std p)"
    "redirect_null (Some f) std p = p\<lparr>p_fds := p_fds (redirect_null (Some f) std p)\<rparr>"
    "fd_file (redirect_null (Some f) std p) k = (if k = std then Some f else fd_file p k)"
proof -
  obtain fd p1 where p1: "sys_install f p = (fd, p1)" by fastforce
  note i = sys_install_extends [OF assms(1) p1]
  have ok: "fds_ok p1" "fd_file p1 fd = Some f" using i(1,4) by (simp_all add: extends_fds_def)
  have r: "redirect_null (Some f) std p = close_fd fd (snd (sys_dup2 fd std p1))"
    by (simp add: redirect_null_def p1)
  show "fds_ok (redirect_null (Some f) std p)" using ok by (simp add: r)
  have "fd \<noteq> std" using i(3) assms(3) by auto
  then show "fd_file (redirect_null (Some f) std p) k = (if k = std then Some f else fd_file p k)"
    using ok assms(2) i(3,4) by (simp add: r fd_file_close fd_file_dup2)
  have "p1 = p\<lparr>p_fds := p_fds p1\<rparr>" using i(1) by (simp add: extends_fds_def)
  then obtain m where "p1 = p\<lparr>p_fds := m\<rparr>" by blast
  then show "redirect_null (Some f) std p = p\<lparr>p_fds := p_fds (redirect_null (Some f) std p)\<rparr>"
    by (simp add: r sys_dup2_def sys_close_def split: option.splits)
qed

lemma consoleQuiet_value:
  assumes "fds_ok p"
  shows "\<exists>q. consoleQuiet (Some r) (Some w) p = Returns q \<and> fds_ok q \<and> q = p\<lparr>p_fds := p_fds q\<rparr> \<and>
    (\<forall>k. fd_file q k = (if k = 0 then Some r else if k = 1 \<or> k = 2 then Some w else fd_file p k))"
proof -
  define p1 where "p1 = close_fd 2 (close_fd 1 (close_fd 0 p))"
  have f1: "fds_ok p1" "fd_file p1 k = (if k \<in> {0, 1, 2} then None else fd_file p k)" for k
    using assms by (auto simp: p1_def fd_file_close)
  have "lowest_free 0 (p_fds p1) = 0"
    using f1 by (intro lowest_free_eq) (auto simp: fds_ok_def)
  then obtain p2 where p2: "sys_install r p1 = (0, p2)" by (simp add: sys_install_def)
  have f2: "fds_ok p2" "fd_file p2 k = (if k = 0 then Some r else if k \<in> {1, 2} then None else fd_file p k)" for k
    using sys_install_extends [OF f1(1) p2] f1(2) by (auto simp: extends_fds_def)
  have "lowest_free 0 (p_fds p2) = 1"
    using f2 by (intro lowest_free_eq) (auto simp: fds_ok_def)
  then obtain p3 where p3: "sys_install w p2 = (1, p3)" by (simp add: sys_install_def)
  have f3: "fds_ok p3" "fd_file p3 k = (if k = 0 then Some r else if k = 1 then Some w else if k = 2 then None else fd_file p k)" for k
    using sys_install_extends [OF f2(1) p3] f2(2) by (auto simp: extends_fds_def)
  have "lowest_free 0 (p_fds p3) = 2"
  proof (intro lowest_free_eq)
    fix j :: int
    assume "0 \<le> j" "j < 2"
    then consider "j = 0" | "j = 1" by linarith
    then show "fd_file p3 j \<noteq> None" using f3(2) by cases auto
  qed (use f3 in \<open>auto simp: fds_ok_def\<close>)
  then obtain p4 where p4: "sys_install w p3 = (2, p4)" by (simp add: sys_install_def)
  have f4: "fds_ok p4" "fd_file p4 k = (if k = 0 then Some r else if k = 1 \<or> k = 2 then Some w else fd_file p k)" for k
    using sys_install_extends [OF f3(1) p4] f3(2) by (auto simp: extends_fds_def)
  have "consoleQuiet (Some r) (Some w) p = Returns p4"
    using f3(2) by (simp add: consoleQuiet_def p1_def [symmetric] p2 p3 sys_dup_def p4)
  moreover have "p4 = p\<lparr>p_fds := p_fds p4\<rparr>"
    using p2 p3 p4 by (auto simp: sys_install_def p1_def sys_close_def Let_def split: option.splits)
  ultimately show ?thesis using f4 by blast
qed

subsection \<open>The constructor\<close>

text \<open>
  The descriptors 0, 1 and 2 are those of \<open>p\<close>, or, when the launcher goes silent, the null
  device, open for reading as 0 and for writing as 1 and 2.
\<close>

definition std_fds :: "bool \<Rightarrow> nat \<Rightarrow> nat \<Rightarrow> proc \<Rightarrow> proc \<Rightarrow> bool" where
  "std_fds silent nr nw p q \<longleftrightarrow>
     (if silent then map (fd_file q) [0, 1, 2] = [Some nr, Some nw, Some nw]
      else map (fd_file q) [0, 1, 2] = map (fd_file p) [0, 1, 2])"

definition has_std_fds :: "proc \<Rightarrow> bool" where
  "has_std_fds p \<longleftrightarrow> fds_ok p \<and> list_all (\<lambda>k. fd_file p k \<noteq> None) [0, 1, 2]"

lemma std_fds_environ [simp]:
  "std_fds silent nr nw p (q\<lparr>p_environ := e\<rparr>) = std_fds silent nr nw p q"
  "has_std_fds (q\<lparr>p_environ := e\<rparr>) = has_std_fds q"
  by (simp_all add: std_fds_def has_std_fds_def fds_ok_def)

lemma extends_std_fds:
  assumes "extends_fds p q" "has_std_fds p"
  shows "has_std_fds q" "std_fds silent nr nw r p \<Longrightarrow> std_fds silent nr nw r q"
  using assms by (auto simp: extends_fds_def has_std_fds_def std_fds_def)

lemma quiet_value:
  assumes "has_std_fds p"
  shows "\<exists>q. (if quiet then consoleQuiet (Some nr) (Some nw) p else Returns p) = Returns q \<and>
    has_std_fds q \<and> q = p\<lparr>p_fds := p_fds q\<rparr> \<and> std_fds quiet nr nw p q \<and>
    (\<forall>k. k \<notin> {0, 1, 2} \<longrightarrow> fd_file q k = fd_file p k)"
proof (cases quiet)
  case True
  obtain q where q: "consoleQuiet (Some nr) (Some nw) p = Returns q" "fds_ok q" "q = p\<lparr>p_fds := p_fds q\<rparr>"
    "\<forall>k. fd_file q k = (if k = 0 then Some nr else if k = 1 \<or> k = 2 then Some nw else fd_file p k)"
    using consoleQuiet_value assms unfolding has_std_fds_def by blast
  have "has_std_fds q" "std_fds True nr nw p q" "\<forall>k. k \<notin> {0, 1, 2} \<longrightarrow> fd_file q k = fd_file p k"
    using q(2,4) by (simp_all add: has_std_fds_def std_fds_def)
  with q(1,3) True show ?thesis by auto
qed (use assms in \<open>simp add: std_fds_def\<close>)

definition detached :: "startup \<Rightarrow> proc \<Rightarrow> proc" where
  "detached st p = p\<lparr>p_pid := st_pid st, p_umask := 0, p_sid := st_sid st, p_cwd := ''/''\<rparr>"

definition detaches :: "startup \<Rightarrow> bool" where
  "detaches st \<longleftrightarrow> st_fork1 st = 0 \<and> st_fork2 st = 0 \<and> 0 \<le> st_sid st \<and> st_chdir st"

lemma detached_fields [simp]: "p_fds (detached st p) = p_fds p" "fds_ok (detached st p) = fds_ok p"
  by (simp_all add: detached_def fds_ok_def)

lemma daemonize_value:
  assumes "has_std_fds p" "detaches st"
  shows "\<exists>q. daemonize (st_fork1 st) (st_fork2 st) (st_pid st) (st_sid st) (st_chdir st) (Some nr) (Some nw) p
      = Returns q \<and> has_std_fds q \<and> q = (detached st p)\<lparr>p_fds := p_fds q\<rparr> \<and> std_fds True nr nw p q \<and>
    (\<forall>k. k \<notin> {0, 1, 2} \<longrightarrow> fd_file q k = fd_file p k)"
proof -
  let ?p = "detached st p" let ?p1 = "redirect_null (Some nr) 0 ?p"
  let ?p2 = "redirect_null (Some nw) 1 ?p1" let ?q = "redirect_null (Some nw) 2 ?p2"
  have std: "fd_file ?p k \<noteq> None" if "k \<in> {0, 1, 2}" for k
    using assms(1) that by (auto simp: has_std_fds_def)
  have "fds_ok ?p" using assms(1) by (simp add: has_std_fds_def)
  note r1 = redirect_null_value [OF this _ std, of 0 nr]
  note r2 = redirect_null_value [OF r1(1), of 1 nw]
  have r1f: "fd_file ?p1 k = (if k = 0 then Some nr else fd_file p k)" for k using r1(3) by simp
  have r2f: "fd_file ?p2 k = (if k = 1 then Some nw else fd_file ?p1 k)" for k
    using r2(3) r1f std [of 1] by simp
  have ok2: "fds_ok ?p2" using r2(1) r1f std [of 1] by simp
  note r3 = redirect_null_value [OF ok2, of 2 nw]
  have r3f: "fd_file ?q k = (if k = 2 then Some nw else fd_file ?p2 k)" for k
    using r3(3) r2f r1f std [of 2] by simp
  have f: "fd_file ?q k = (if k = 0 then Some nr else if k = 1 \<or> k = 2 then Some nw else fd_file p k)" for k
    using r1f r2f r3f by simp
  have ok: "fds_ok ?q" using r3(1) r2f r1f std [of 2] by simp
  have "?p1 = ?p\<lparr>p_fds := p_fds ?p1\<rparr>" using r1(2) by simp
  moreover have "?p2 = ?p1\<lparr>p_fds := p_fds ?p2\<rparr>" using r2(2) r1f std [of 1] by simp
  moreover have "?q = ?p2\<lparr>p_fds := p_fds ?q\<rparr>" using r3(2) r2f r1f std [of 2] by simp
  ultimately obtain m1 m2 m3 where "?p1 = ?p\<lparr>p_fds := m1\<rparr>" "?p2 = ?p1\<lparr>p_fds := m2\<rparr>" "?q = ?p2\<lparr>p_fds := m3\<rparr>"
    by blast
  then have frame: "?q = ?p\<lparr>p_fds := p_fds ?q\<rparr>" by simp
  have "daemonize (st_fork1 st) (st_fork2 st) (st_pid st) (st_sid st) (st_chdir st) (Some nr) (Some nw) p = Returns ?q"
    using assms(2) by (simp add: daemonize_def detaches_def detached_def)
  with f ok frame show ?thesis
    by (intro exI [of _ ?q]) (simp add: has_std_fds_def std_fds_def)
qed

text \<open>The fields the constructor sets, but for the process and the pipes.\<close>

definition constructed :: "string list \<Rightarrow> nat list \<Rightarrow> daemon \<Rightarrow> daemon" where
  "constructed args offs d = d\<lparr>m_daemon := given DAEMON args, m_quiet := given QUIET args,
     m_bootMode := given BOOT_MODE args, m_debugMode := m_debugMode d \<or> given DEBUG args,
     m_children := [], m_boosterPidToInvokerPid := [], m_boosterTypeToPid := [],
     m_initialArgc := int (length args), m_initialArgv := offs, d_sockets := []\<rparr>"

definition with_pipes :: "(int \<times> int) list \<Rightarrow> daemon \<Rightarrow> daemon" where
  "with_pipes ps d = d\<lparr>m_boosterPipeFd := ps ! 0, m_sigChldPipeFd := ps ! 1, m_sigTermPipeFd := ps ! 2,
     m_sigUsr1PipeFd := ps ! 3\<rparr>"

definition null_devices :: "startup \<Rightarrow> nat \<Rightarrow> nat \<Rightarrow> bool" where
  "null_devices st nr nw \<longleftrightarrow> st_null_r st = Some nr \<and> st_null_w st = Some nw"

lemma Daemon_new_value:
  assumes p: "has_std_fds (d_proc d)" and st: "\<not> st_instance st" "null_devices st nr nw"
    "st_pipes st = map Some fs" "length fs = 4" "given DAEMON args \<Longrightarrow> detaches st"
    and args: "\<not> given HELP args"
  shows "\<exists>ps q. Daemon_new st args offs d = Returns (with_pipes ps (constructed args offs d)\<lparr>d_proc := q\<rparr>) \<and>
    length ps = 4 \<and> distinct (pipe_ends ps) \<and>
    (\<forall>k \<in> set (pipe_ends ps). 2 < k \<and> fd_file (d_proc d) k = None) \<and>
    map (fd_file q) (pipe_ends ps) = map Some (concat (map (\<lambda>f. [f, f + 1]) fs)) \<and>
    has_std_fds q \<and> q = (if given DAEMON args then detached st (d_proc d) else d_proc d)\<lparr>p_fds := p_fds q\<rparr> \<and>
    std_fds (given QUIET args \<or> given DAEMON args) nr nw (d_proc d) q \<and>
    (\<forall>k. k \<notin> {0, 1, 2} \<union> set (pipe_ends ps) \<longrightarrow> fd_file q k = fd_file (d_proc d) k)"
proof -
  let ?p = "d_proc d"
  have null: "st_null_r st = Some nr" "st_null_w st = Some nw" using st(2) by (simp_all add: null_devices_def)
  obtain p1 where p1: "(if given QUIET args then consoleQuiet (Some nr) (Some nw) ?p else Returns ?p) = Returns p1"
    "has_std_fds p1" "p1 = ?p\<lparr>p_fds := p_fds p1\<rparr>" "std_fds (given QUIET args) nr nw ?p p1"
    "\<forall>k. k \<notin> {0, 1, 2} \<longrightarrow> fd_file p1 k = fd_file ?p k"
    using quiet_value [OF p] by blast
  have "fds_ok p1" using p1(2) by (simp add: has_std_fds_def)
  from make_pipes_value [OF this, of fs] obtain ps p2 where p2: "make_pipes (map Some fs) p1 = Returns (ps, p2)"
    "extends_fds p1 p2" "length ps = length fs" "distinct (pipe_ends ps)"
    "\<forall>k \<in> set (pipe_ends ps). 0 \<le> k \<and> fd_file p1 k = None"
    "map (fd_file p2) (pipe_ends ps) = map Some (concat (map (\<lambda>f. [f, f + 1]) fs))"
    "\<forall>k. k \<notin> set (pipe_ends ps) \<longrightarrow> fd_file p2 k = fd_file p1 k" by blast
  note std2 = extends_std_fds(1) [OF p2(2) p1(2)] extends_std_fds(2) [OF p2(2) p1(2,4)]
  have "p2 = p1\<lparr>p_fds := p_fds p2\<rparr>" using p2(2) by (simp add: extends_fds_def)
  with p1(3) obtain m1 m2 where "p1 = ?p\<lparr>p_fds := m1\<rparr>" "p2 = p1\<lparr>p_fds := m2\<rparr>" by blast
  then have frame2: "p2 = ?p\<lparr>p_fds := p_fds p2\<rparr>" by simp
  have "\<exists>q. (if given DAEMON args then daemonize (st_fork1 st) (st_fork2 st) (st_pid st) (st_sid st) (st_chdir st)
        (Some nr) (Some nw) p2 else Returns p2) = Returns q \<and> has_std_fds q \<and>
      q = (if given DAEMON args then detached st p2 else p2)\<lparr>p_fds := p_fds q\<rparr> \<and>
      std_fds (given QUIET args \<or> given DAEMON args) nr nw ?p q \<and>
      (\<forall>k. k \<notin> {0, 1, 2} \<longrightarrow> fd_file q k = fd_file p2 k)"
    using daemonize_value [OF std2(1) st(5), of nr nw] std2 by (auto simp: std_fds_def)
  then obtain q where q: "(if given DAEMON args then daemonize (st_fork1 st) (st_fork2 st) (st_pid st) (st_sid st)
        (st_chdir st) (Some nr) (Some nw) p2 else Returns p2) = Returns q" "has_std_fds q"
      "q = (if given DAEMON args then detached st p2 else p2)\<lparr>p_fds := p_fds q\<rparr>"
      "std_fds (given QUIET args \<or> given DAEMON args) nr nw ?p q"
      "\<forall>k. k \<notin> {0, 1, 2} \<longrightarrow> fd_file q k = fd_file p2 k" by blast
  have fresh: "2 < k \<and> k \<notin> {0, 1, 2} \<and> fd_file ?p k = None" if "k \<in> set (pipe_ends ps)" for k
  proof -
    have k: "0 \<le> k" "fd_file p1 k = None" using p2(5) that by auto
    then have "k \<notin> {0, 1, 2}" using p1(2) by (auto simp: has_std_fds_def)
    with k p1(5) show ?thesis by auto
  qed
  then have files: "map (fd_file q) (pipe_ends ps) = map Some (concat (map (\<lambda>f. [f, f + 1]) fs))"
    using q(5) p2(6) by (metis (no_types, lifting) map_eq_conv)
  obtain a b c e where ps: "ps = [a, b, c, e]"
    using p2(3) st(4) by (auto simp: length_Suc_conv eval_nat_numeral)
  have "Daemon_new st args offs d = Returns (with_pipes ps (constructed args offs d)\<lparr>d_proc := q\<rparr>)"
    using st(1) args null p2(1)
    by (simp add: Daemon_new_def parseArgs_value st(3,4) p1(1) q(1) ps with_pipes_def constructed_def cong: if_cong)
  moreover obtain m n where "p2 = ?p\<lparr>p_fds := m\<rparr>"
    "q = (if given DAEMON args then detached st p2 else p2)\<lparr>p_fds := n\<rparr>" using frame2 q(3) by blast
  then have "q = (if given DAEMON args then detached st ?p else ?p)\<lparr>p_fds := p_fds q\<rparr>"
    by (simp add: detached_def)
  moreover have "fd_file q k = fd_file ?p k" if "k \<notin> {0, 1, 2} \<union> set (pipe_ends ps)" for k
    using that p1(5) p2(7) q(5) by simp
  ultimately show ?thesis
    using p2(3,4) st(4) files fresh q(2,4)
    by (intro exI [of _ ps] exI [of _ q] conjI allI impI ballI) simp_all
qed

subsection \<open>Sockets and boosters\<close>

lemma initSocket_extends:
  assumes "initSocket s m w p = Returns (m', w', p')" "fds_ok p"
  shows "extends_fds p p'"
proof (cases "smap_find m s")
  case None
  obtain fd p1 where p1: "sys_install (sf_next w) p = (fd, p1)" by fastforce
  from assms(1) None p1 have "p' = p1"
    by (auto simp: initSocket_def Let_def split: if_splits)
  with sys_install_extends(1) [OF assms(2) p1] show ?thesis by simp
next
  case (Some fd)
  with assms show ?thesis by (simp add: initSocket_def extends_fds_refl)
qed

lemma initBoosterSockets_extends:
  "initBoosterSockets reg m w p = Returns (m', w', p') \<Longrightarrow> fds_ok p \<Longrightarrow> extends_fds p p'"
proof (induction reg arbitrary: m w p)
  case Nil
  then show ?case by (simp add: extends_fds_refl)
next
  case (Cons e reg)
  from Cons.prems(1) obtain m1 w1 p1 where 1: "initSocket (socketNameFunc e) m w p = Returns (m1, w1, p1)"
    "initBoosterSockets reg m1 w1 p1 = Returns (m', w', p')" by (auto simp: and_then_eq_Returns)
  have e: "extends_fds p p1" by (rule initSocket_extends [OF 1(1) Cons.prems(2)])
  then have "fds_ok p1" by (simp add: extends_fds_def)
  from extends_fds_trans [OF e Cons.IH [OF 1(2) this]] show ?case .
qed

text \<open>The sockets get descriptors that were not open, and no other descriptor changes.\<close>

lemma smap_set_new: "smap_find m k = None \<Longrightarrow> set (smap_set k v m) = insert (k, v) (set m)"
  by (induction k v m rule: smap_set.induct) (auto split: if_splits)

definition opened_for :: "socket_hash \<Rightarrow> proc \<Rightarrow> socket_hash \<Rightarrow> proc \<Rightarrow> int \<Rightarrow> bool" where
  "opened_for m p m' p' fd \<longleftrightarrow>
     (if fd \<in> snd ` set m then fd \<in> snd ` set m'
      else if fd \<in> snd ` set m' then 0 \<le> fd \<and> fd_file p fd = None else fd_file p' fd = fd_file p fd)"

lemma initSocket_new_fd:
  assumes "initSocket s m w p = Returns (m', w', p')" "fds_ok p"
  shows "opened_for m p m' p' fd"
proof (cases "smap_find m s")
  case None
  obtain x q where x: "sys_install (sf_next w) p = (x, q)" by fastforce
  with None assms(1) have "m' = smap_set s x m" "p' = q"
    by (auto simp: initSocket_def Let_def split: if_splits)
  then have "snd ` set m' = insert x (snd ` set m)" "p' = q" using smap_set_new [OF None, of x] by simp_all
  with sys_install_extends(2-4) [OF assms(2) x] show ?thesis by (simp add: opened_for_def)
next
  case (Some y)
  with assms(1) show ?thesis by (simp add: initSocket_def opened_for_def)
qed

lemma initBoosterSockets_new:
  "initBoosterSockets reg m w p = Returns (m', w', p') \<Longrightarrow> fds_ok p \<Longrightarrow> opened_for m p m' p' fd"
proof (induction reg arbitrary: m w p)
  case Nil
  then show ?case by (simp add: opened_for_def)
next
  case (Cons e reg)
  from Cons.prems(1) obtain m1 w1 p1 where 1: "initSocket (socketNameFunc e) m w p = Returns (m1, w1, p1)"
    "initBoosterSockets reg m1 w1 p1 = Returns (m', w', p')" by (auto simp: and_then_eq_Returns)
  have e: "extends_fds p p1" by (rule initSocket_extends [OF 1(1) Cons.prems(2)])
  then have "fds_ok p1" and old: "fd_file p1 fd = None \<longrightarrow> fd_file p fd = None"
    by (auto simp: extends_fds_def)
  from initSocket_new_fd [OF 1(1) Cons.prems(2), of fd] Cons.IH [OF 1(2) this(1)] old
  show ?case unfolding opened_for_def by (simp split: if_splits)
qed

text \<open>The boosters of the shipped plugins are started in the order of the registry.\<close>

lemma forkBoosters_shipped:
  assumes "d_registry d = shipped_registry" "d_forks d = a # b # c # pids" "0 < a" "0 < b" "0 < c"
    "m_boosterTypeToPid d = []" "m_children d = []"
  shows "forkBoosters d = Returns (d\<lparr>d_forks := pids, d_kernel := d_kernel d @ [a, b, c], m_children := [a, b, c],
    m_boosterTypeToPid := [(boosterType QDeclarativeBooster, b), (boosterType MBooster, a), (boosterType QtBooster, c)]\<rparr>)"
  using assms by (simp add: forkBoosters_def shipped_registry_eq shipped_classes_def entry_of_def
      forkBooster_def sys_fork_def setPidToBooster_def Let_def)

subsection \<open>The whole start\<close>

abbreviation APPLAUNCHERD_DIR :: string where "APPLAUNCHERD_DIR \<equiv> ''/usr/lib/applauncherd''"

abbreviation shipped_libs :: "plugin_lib option list option" where
  "shipped_libs \<equiv> Some (map (Some \<circ> pluginfactory) shipped_classes)"

text \<open>
  What the launcher meets: a process with its three standard descriptors, a file system that takes
  new sockets, three pids to give, no children yet.
\<close>

definition bare_system :: "daemon \<Rightarrow> bool" where
  "bare_system d \<longleftrightarrow> has_std_fds (d_proc d) \<and> sockets_ok [] (d_files d) (d_proc d) \<and>
     \<not> sf_socket_fails (d_files d) \<and> \<not> sf_listen_fails (d_files d) \<and> d_registry d = [] \<and>
     d_kernel d = [] \<and> d_ended d = [] \<and> forks_fresh d \<and> d_pipe d = \<lparr>rx = [], tx = [], rplan = [], wplan = []\<rparr>"

definition pipe_fds :: "daemon \<Rightarrow> int list" where
  "pipe_fds d = pipe_ends [m_boosterPipeFd d, m_sigChldPipeFd d, m_sigTermPipeFd d, m_sigUsr1PipeFd d]"

definition internal_fds :: "daemon \<Rightarrow> int list" where
  "internal_fds d = m_lockFd d # pipe_fds d @ map snd (d_sockets d)"

text \<open>The descriptors of a launcher in its loop: all its own, and none of them a standard one.\<close>

definition launcher_fds_ok :: "daemon \<Rightarrow> bool" where
  "launcher_fds_ok d \<longleftrightarrow> fds_ok (d_proc d) \<and> smap_ok (d_sockets d) \<and> distinct (internal_fds d) \<and>
     list_all (\<lambda>k. 2 < k) (internal_fds d) \<and> d_registry d = shipped_registry \<and>
     fst ` set (d_sockets d) = range socketId"

text \<open>A socket map with a new descriptor for each class's path.\<close>

definition new_sockets :: "proc \<Rightarrow> socket_hash \<Rightarrow> bool" where
  "new_sockets p m \<longleftrightarrow> smap_ok m \<and> fst ` set m = range socketId \<and> distinct (map snd m) \<and>
     (\<forall>fd \<in> snd ` set m. 0 \<le> fd \<and> fd_file p fd = None)"

text \<open>What \<open>daemon_start\<close> does to a daemon that is constructed: the process keeps its descriptors.\<close>

lemma daemon_start_value:
  assumes d: "sockets_ok [] (d_files d) (d_proc d)" "\<not> sf_socket_fails (d_files d)" "\<not> sf_listen_fails (d_files d)"
    "d_registry d = []" "d_sockets d = []" "m_boosterTypeToPid d = []" "m_children d = []"
    and forks: "d_forks d = a # b # c # pids" "0 < a" "0 < b" "0 < c"
  shows "\<exists>m w p. daemon_start APPLAUNCHERD_DIR shipped_libs d = Returns (d\<lparr>d_registry := shipped_registry,
      d_sockets := m, d_files := w, d_proc := p, d_forks := pids, d_kernel := d_kernel d @ [a, b, c],
      m_children := [a, b, c], m_boosterTypeToPid := [(boosterType QDeclarativeBooster, b),
        (boosterType MBooster, a), (boosterType QtBooster, c)]\<rparr>) \<and>
    extends_fds ((d_proc d)\<lparr>p_environ := sys_unsetenv ''LD_BIND_NOW'' (p_environ (d_proc d))\<rparr>) p \<and> new_sockets (d_proc d) m \<and>
    (\<forall>fd. fd \<notin> snd ` set m \<longrightarrow> fd_file p fd = fd_file (d_proc d) fd) \<and>
    (\<forall>k. 0 \<le> findSocket (socketId k) m \<and> smap_find (sf_bound w) (socketId k) \<noteq> None \<and>
       fd_file p (findSocket (socketId k) m) = smap_find (sf_bound w) (socketId k))"
proof -
  let ?p = "(d_proc d)\<lparr>p_environ := sys_unsetenv ''LD_BIND_NOW'' (p_environ (d_proc d))\<rparr>"
  let ?d = "d\<lparr>d_registry := shipped_registry, d_proc := ?p\<rparr>"
  have reg: "loadBoosterPlugins APPLAUNCHERD_DIR shipped_libs [] = shipped_registry"
    by (simp add: shipped_registry_def)
  have ok: "sockets_ok [] (d_files d) ?p" using d(1) by (simp add: sockets_ok_def fds_ok_def)
  have "\<forall>e \<in> set shipped_registry. length (socketNameFunc e) \<le> 13"
    using registered.sockets_fit by blast
  from initBoosterSockets_ok [OF ok _ this d(2,3)] obtain m w p where
    i: "initBoosterSockets shipped_registry [] (d_files d) ?p = Returns (m, w, p)" "sockets_ok m w p"
    and dom: "\<And>k. smap_find m k \<noteq> None \<longleftrightarrow> k \<in> socketNameFunc ` set shipped_registry"
    by (auto simp: fits_def smap_keys_def)
  have "extends_fds ?p p"
    using initBoosterSockets_extends [OF i(1)] ok by (simp add: sockets_ok_def)
  moreover have "0 \<le> findSocket (socketId k) m \<and> smap_find (sf_bound w) (socketId k) \<noteq> None \<and>
      fd_file p (findSocket (socketId k) m) = smap_find (sf_bound w) (socketId k)" for k
  proof -
    have "socketId k \<in> socketNameFunc ` set shipped_registry"
      by (force simp: shipped_registry_eq entry_of_def)
    with dom obtain fd where fd: "smap_find m (socketId k) = Some fd" by blast
    have "sun_path (socketId k) = socketId k" by (cases k) (simp_all add: sun_path_def)
    with sockets_ok_find [OF i(2) fd] fd show ?thesis by (simp add: findSocket_def)
  qed
  moreover have "new_sockets (d_proc d) m"
  proof -
    have m: "smap_ok m" "fds_distinct m" using i(2) by (simp_all add: sockets_ok_def)
    have "fst ` set m = socketNameFunc ` set shipped_registry"
      using dom by (auto simp: smap_find_map_of map_of_eq_None_iff)
    also have "\<dots> = range socketId"
      by (simp add: shipped_registry_eq image_image entry_of_def UNIV_booster_class)
    finally have keys: "fst ` set m = range socketId" .
    have dist: "distinct (map snd m)"
      using m unfolding fds_distinct_def smap_entries_find [OF m(1), symmetric] distinct_map inj_on_def
      by (auto simp: smap_ok_def strict_sorted_iff distinct_map)
    have fresh: "0 \<le> fd \<and> fd_file (d_proc d) fd = None" if "fd \<in> snd ` set m" for fd
      using initBoosterSockets_new [OF i(1), of fd] ok that by (simp add: opened_for_def sockets_ok_def)
    show ?thesis unfolding new_sockets_def by (intro conjI ballI m(1) keys dist) (simp_all only: fresh)
  qed
  moreover have "\<forall>fd. fd \<notin> snd ` set m \<longrightarrow> fd_file p fd = fd_file (d_proc d) fd"
    using initBoosterSockets_new [OF i(1)] ok by (simp add: sockets_ok_def opened_for_def)
  moreover have "daemon_start APPLAUNCHERD_DIR shipped_libs d
      = forkBoosters (?d\<lparr>d_sockets := m, d_files := w, d_proc := p\<rparr>)"
    using i(1) d(4,5) by (simp add: daemon_start_def reg)
  ultimately show ?thesis using forks d(6,7) by (intro exI [of _ m] exI [of _ w] exI [of _ p])
      (simp add: forkBoosters_shipped)
qed

lemma internal_fds_fresh:
  assumes "has_std_fds q" "new_sockets q m" "2 < fd" "fd_file q fd \<noteq> None" "fd \<notin> set ks" "distinct ks"
    and "\<forall>k \<in> set ks. 2 < k \<and> fd_file q k \<noteq> None"
  shows "distinct (fd # ks @ map snd m) \<and> list_all (\<lambda>k. 2 < k) (fd # ks @ map snd m)"
proof -
  have new: "0 \<le> k \<and> fd_file q k = None" if "k \<in> set (map snd m)" for k
    using assms(2) that by (auto simp: new_sockets_def)
  have "2 < k" if "k \<in> set (map snd m)" for k
  proof -
    have "k \<notin> {0, 1, 2}" using new [OF that] assms(1) by (auto simp: has_std_fds_def)
    with new [OF that] show ?thesis by auto
  qed
  moreover have "set (fd # ks) \<inter> set (map snd m) = {}" using assms(4,7) by (auto simp del: set_map dest!: new)
  ultimately show ?thesis
    using assms(2,3,5-7) by (auto simp: new_sockets_def list_all_iff)
qed

text \<open>The start with a free lock, step by step.\<close>

lemma start_value:
  assumes d: "bare_system d" "d_forks d = a # b # c # pids"
    and st: "\<not> st_instance st" "null_devices st nr nw" "st_pipes st = map Some fs" "length fs = 4"
    and args: "\<not> given HELP args" "given DAEMON args \<longrightarrow> detaches st"
  shows "\<exists>d1. launcher_main (Some lf) False st args offs APPLAUNCHERD_DIR shipped_libs sels d = main_loop sels d1 \<and>
      m_initialArgc d1 = int (length args) \<and> m_initialArgv d1 = offs \<and>
      (\<forall>k. k \<notin> {0, 1, 2} \<longrightarrow> k \<notin> set (internal_fds d1) \<longrightarrow> fd_file (d_proc d1) k = fd_file (d_proc d) k) \<and>
      started d1 \<and> m_bootMode d1 = given BOOT_MODE args \<and> d_registry d1 = shipped_registry \<and>
      map (\<lambda>k. boosterPidForType (boosterType k) d1) shipped_classes = [a, b, c] \<and> m_children d1 = [a, b, c] \<and>
      (\<forall>k. 0 \<le> findSocket (socketId k) (d_sockets d1) \<and> smap_find (sf_bound (d_files d1)) (socketId k) \<noteq> None \<and>
         fd_file (d_proc d1) (findSocket (socketId k) (d_sockets d1)) = smap_find (sf_bound (d_files d1)) (socketId k)) \<and>
      distinct (pipe_fds d1) \<and>
      map (fd_file (d_proc d1)) (pipe_fds d1) = map Some (concat (map (\<lambda>f. [f, f + 1]) fs)) \<and>
      fd_file (d_proc d1) (m_lockFd d1) = Some lf \<and>
      std_fds (given QUIET args \<or> given DAEMON args) nr nw (d_proc d) (d_proc d1) \<and>
      d_proc d1 = (if given DAEMON args then detached st (d_proc d) else d_proc d)
        \<lparr>p_fds := p_fds (d_proc d1), p_environ := sys_unsetenv ''LD_BIND_NOW'' (p_environ (d_proc d))\<rparr> \<and>
      launcher_fds_ok d1"
proof -
  obtain fd p0 where p0: "sys_install lf (d_proc d) = (fd, p0)" by fastforce
  define d0 where "d0 = d\<lparr>m_lockFd := fd, d_proc := p0\<rparr>"
  have std: "has_std_fds (d_proc d)" using d(1) by (simp add: bare_system_def)
  then have "fds_ok (d_proc d)" by (simp add: has_std_fds_def)
  note i = sys_install_extends [OF this p0]
  have fd: "fd \<notin> {0, 1, 2}" using i(3) std by (auto simp: has_std_fds_def)
  have frame0: "p0 = (d_proc d)\<lparr>p_fds := p_fds p0\<rparr>" and keep0: "std_fds s nr nw p0 q = std_fds s nr nw (d_proc d) q"
    and std0: "has_std_fds (d_proc d0)" for s q
    using i(1,4) fd std by (auto simp: extends_fds_def std_fds_def has_std_fds_def d0_def)
  have d0: "d_proc d0 = p0" by (simp add: d0_def)
  obtain ps q where n: "Daemon_new st args offs d0 = Returns (with_pipes ps (constructed args offs d0)\<lparr>d_proc := q\<rparr>)"
    "length ps = 4" "distinct (pipe_ends ps)" "\<forall>k \<in> set (pipe_ends ps). 2 < k \<and> fd_file p0 k = None" "map (fd_file q) (pipe_ends ps) = map Some (concat (map (\<lambda>f. [f, f + 1]) fs))"
    "has_std_fds q" "q = (if given DAEMON args then detached st p0 else p0)\<lparr>p_fds := p_fds q\<rparr>"
    "std_fds (given QUIET args \<or> given DAEMON args) nr nw p0 q"
    "\<forall>k. k \<notin> {0, 1, 2} \<union> set (pipe_ends ps) \<longrightarrow> fd_file q k = fd_file p0 k"
    using Daemon_new_value [OF std0 st mp [OF args(2)] args(1), of offs] unfolding d0 by blast
  let ?d = "with_pipes ps (constructed args offs d0)\<lparr>d_proc := q\<rparr>"
  let ?q = "q\<lparr>p_environ := sys_unsetenv ''LD_BIND_NOW'' (p_environ q)\<rparr>"
  have pos: "0 < a" "0 < b" "0 < c" using d by (simp_all add: bare_system_def forks_fresh_def)
  have fields: "d_forks ?d = a # b # c # pids" "d_registry ?d = []" "d_kernel ?d = []"
    "sockets_ok [] (d_files ?d) (d_proc ?d)" "unstarted ?d"
    using d n(6) by (simp_all add: with_pipes_def constructed_def d0_def bare_system_def unstarted_def
        forks_fresh_def sockets_ok_def has_std_fds_def)
  obtain m w p where s: "daemon_start APPLAUNCHERD_DIR shipped_libs ?d = Returns (?d\<lparr>d_registry := shipped_registry,
      d_sockets := m, d_files := w, d_proc := p, d_forks := pids, d_kernel := d_kernel ?d @ [a, b, c],
      m_children := [a, b, c], m_boosterTypeToPid := [(boosterType QDeclarativeBooster, b),
        (boosterType MBooster, a), (boosterType QtBooster, c)]\<rparr>)" (is "_ = Returns ?d1")
    and ext: "extends_fds ((d_proc ?d)\<lparr>p_environ := sys_unsetenv ''LD_BIND_NOW'' (p_environ (d_proc ?d))\<rparr>) p"
    and new: "new_sockets q m" "\<forall>fd. fd \<notin> snd ` set m \<longrightarrow> fd_file p fd = fd_file q fd"
    and socks: "\<forall>k. 0 \<le> findSocket (socketId k) m \<and> smap_find (sf_bound w) (socketId k) \<noteq> None \<and>
       fd_file p (findSocket (socketId k) m) = smap_find (sf_bound w) (socketId k)"
    using daemon_start_value [of ?d, OF fields(4) _ _ fields(2) _ _ _ fields(1) pos] d(1)
    by (auto simp: bare_system_def with_pipes_def constructed_def d0_def)
  have ext': "extends_fds ?q p" using ext by simp
  have q: "has_std_fds ?q" "map (fd_file ?q) (pipe_ends ps) = map Some (concat (map (\<lambda>f. [f, f + 1]) fs))"
    "std_fds (given QUIET args \<or> given DAEMON args) nr nw (d_proc d) ?q"
    using n(5,6) n(8) [unfolded keep0] by simp_all
  have pipes: "pipe_fds ?d1 = pipe_ends ps"
    using n(2) by (auto simp: pipe_fds_def with_pipes_def length_Suc_conv eval_nat_numeral)
  have "fd \<notin> set (pipe_ends ps)" using n(4) i(4) [of fd] by auto
  then have lock: "fd_file ?q fd = Some lf" using i(4) [of fd] fd n(9) by auto
  then have "fd_file p fd = Some lf" using ext' by (simp add: extends_fds_def)
  moreover have "launcher_fds_ok ?d1"
  proof -
    have "fd_file q k \<noteq> None" if "k \<in> set (pipe_ends ps)" for k
    proof -
      have "fd_file q k \<in> set (map (fd_file q) (pipe_ends ps))" using that by simp
      then show ?thesis unfolding n(5) by auto
    qed
    with n(4) have "\<forall>k \<in> set (pipe_ends ps). 2 < k \<and> fd_file q k \<noteq> None" "fd \<notin> set (pipe_ends ps)"
      using i(4) [of fd] by auto
    with internal_fds_fresh [OF n(6) new(1), of fd "pipe_ends ps"] lock fd i(2) n(3)
    have "distinct (internal_fds ?d1)" "list_all (\<lambda>k. 2 < k) (internal_fds ?d1)"
      unfolding internal_fds_def pipes by (simp_all add: with_pipes_def constructed_def d0_def)
    moreover have "fds_ok p" using ext by (simp add: extends_fds_def)
    ultimately show ?thesis using new(1) by (simp add: launcher_fds_ok_def new_sockets_def)
  qed
  moreover have "fd_file p k = fd_file (d_proc d) k" if "k \<notin> {0, 1, 2}" "k \<notin> set (internal_fds ?d1)" for k
  proof -
    have "k \<noteq> fd" "k \<notin> set (pipe_ends ps)" "k \<notin> snd ` set m"
      using that(2) unfolding internal_fds_def pipes by (simp_all add: with_pipes_def constructed_def d0_def)
    with that(1) new(2) n(9) i(4) show ?thesis by simp
  qed
  moreover note extends_fds_files [OF ext' q(2), folded pipes] extends_std_fds(2) [OF ext' q(1,3)]
  moreover have "p = (if given DAEMON args then detached st (d_proc d) else d_proc d)
      \<lparr>p_fds := p_fds p, p_environ := sys_unsetenv ''LD_BIND_NOW'' (p_environ (d_proc d))\<rparr>"
  proof -
    have "p = q\<lparr>p_environ := sys_unsetenv ''LD_BIND_NOW'' (p_environ q), p_fds := p_fds p\<rparr>"
      using ext by (simp add: extends_fds_def)
    with frame0 n(7) obtain m0 m1 m2 where "p0 = (d_proc d)\<lparr>p_fds := m0\<rparr>"
      "q = (if given DAEMON args then detached st p0 else p0)\<lparr>p_fds := m1\<rparr>"
      "p = q\<lparr>p_environ := sys_unsetenv ''LD_BIND_NOW'' (p_environ q), p_fds := m2\<rparr>"
      by blast
    then show ?thesis by (simp add: detached_def)
  qed
  moreover have "started ?d1"
    unfolding started_def using s fields(5) registered.types_nonzero
    by (intro exI [of _ APPLAUNCHERD_DIR] exI [of _ shipped_libs] exI [of _ ?d]) simp
  moreover have "launcher_main (Some lf) False st args offs APPLAUNCHERD_DIR shipped_libs sels d = main_loop sels ?d1"
    using n(1) s by (simp add: launcher_main_def lock_def p0 d0_def daemon_run_def)
  ultimately show ?thesis
    using n(3) socks pipes by (intro conjI exI [of _ ?d1])
      (simp_all add: boosterPidForType_def shipped_classes_def with_pipes_def constructed_def d0_def)
qed

text \<open>
  C7. The start of the launcher. If another launcher holds the lock, it ends with status 1
  and does nothing else. Otherwise, with usable arguments and nothing in its way, it reaches the
  main loop as a started daemon: in the boot mode exactly if asked for it; with the three shipped
  plugins registered, a listening socket bound at each plugin's path, and one booster each,
  forked in the order of the registry; with the four pipes on eight different descriptors and the
  lock file open; with the descriptors 0, 1 and 2 it was started with or, silent, on the null
  device (open for reading as 0, for writing as 1 and 2); and otherwise the process it was, or
  with \<open>-d\<close> the detached one (own session, root directory, no umask), without \<open>LD_BIND_NOW\<close>.
\<close>

theorem start_reaches_main_loop:
  assumes d: "bare_system d" "d_forks d = a # b # c # pids"
    and st: "\<not> st_instance st" "null_devices st nr nw" "st_pipes st = map Some fs" "length fs = 4"
    and args: "\<not> given HELP args" "given DAEMON args \<Longrightarrow> detaches st"
  shows "launcher_main (Some lf) True st args offs APPLAUNCHERD_DIR shipped_libs sels d = Exits EXIT_FAILURE \<and>
    (\<exists>d1. launcher_main (Some lf) False st args offs APPLAUNCHERD_DIR shipped_libs sels d = main_loop sels d1 \<and>
      m_initialArgc d1 = int (length args) \<and> m_initialArgv d1 = offs \<and>
      (\<forall>k. k \<notin> {0, 1, 2} \<longrightarrow> k \<notin> set (internal_fds d1) \<longrightarrow> fd_file (d_proc d1) k = fd_file (d_proc d) k) \<and>
      started d1 \<and> m_bootMode d1 = given BOOT_MODE args \<and> d_registry d1 = shipped_registry \<and>
      map (\<lambda>k. boosterPidForType (boosterType k) d1) shipped_classes = [a, b, c] \<and> m_children d1 = [a, b, c] \<and>
      (\<forall>k. 0 \<le> findSocket (socketId k) (d_sockets d1) \<and> smap_find (sf_bound (d_files d1)) (socketId k) \<noteq> None \<and>
         fd_file (d_proc d1) (findSocket (socketId k) (d_sockets d1)) = smap_find (sf_bound (d_files d1)) (socketId k)) \<and>
      distinct (pipe_fds d1) \<and>
      map (fd_file (d_proc d1)) (pipe_fds d1) = map Some (concat (map (\<lambda>f. [f, f + 1]) fs)) \<and>
      fd_file (d_proc d1) (m_lockFd d1) = Some lf \<and>
      std_fds (given QUIET args \<or> given DAEMON args) nr nw (d_proc d) (d_proc d1) \<and>
      d_proc d1 = (if given DAEMON args then detached st (d_proc d) else d_proc d)
        \<lparr>p_fds := p_fds (d_proc d1), p_environ := sys_unsetenv ''LD_BIND_NOW'' (p_environ (d_proc d))\<rparr>)" (is "_ \<and> ?free")
proof
  show "launcher_main (Some lf) True st args offs APPLAUNCHERD_DIR shipped_libs sels d = Exits EXIT_FAILURE"
    by (simp add: launcher_main_def lock_def Let_def split: prod.splits)
next
  have "given DAEMON args \<longrightarrow> detaches st" using args(2) by blast
  from start_value [OF d st args(1) this, of lf offs sels]
  show "?free" by (elim exE conjE) (intro exI conjI)
qed

text \<open>A start as a daemon, by a process that has 0, 1, 2 and one more descriptor open.\<close>

definition example_startup :: startup where
  "example_startup = \<lparr>st_instance = False, st_null_r = Some 30, st_null_w = Some 31,
     st_pipes = map Some [40, 42, 44, 46], st_fork1 = 0, st_fork2 = 0, st_pid = 90, st_sid = 89, st_chdir = True\<rparr>"

lemma fresh_bare: "bare_system fresh_daemon" "d_forks fresh_daemon = 101 # 102 # 103 # []"
  using fresh_unstarted example_ok
  by (simp_all add: bare_system_def unstarted_def fresh_daemon_def with_pipe_def example_daemon_def
      has_std_fds_def example_proc_def fds_ok_def smap_ok_def example_files_def)

theorem start_reaches_main_loop_witness:
  "\<exists>d1. launcher_main (Some 50) False example_startup [''-d''] [0] APPLAUNCHERD_DIR shipped_libs [] fresh_daemon
       = Returns d1 \<and> started d1 \<and> m_children d1 = [101, 102, 103] \<and>
     map (fd_file (d_proc d1)) [0, 1, 2] = [Some 30, Some 31, Some 31]"
proof -
  note d = fresh_bare
  have st: "\<not> st_instance example_startup" "null_devices example_startup 30 31"
    "st_pipes example_startup = map Some [40, 42, 44, 46]" "length [40 :: nat, 42, 44, 46] = 4"
    "\<not> given HELP [''-d'']" "given DAEMON [''-d''] \<Longrightarrow> detaches example_startup" "given DAEMON [''-d'']"
    by (simp_all add: example_startup_def null_devices_def detaches_def)
  from start_reaches_main_loop [OF d st(1-6), of 50 "[0]" "[]"] st(7) show ?thesis
    by (auto simp: std_fds_def)
qed

end
