(* ===== verification/Daemon_Turns.thy ===== *)
theory Daemon_Turns
  imports Signal_Pipes
begin

text \<open>
  What a turn of the daemon's loop costs and when it fails: every new booster takes a pid from
  the kernel, and a failing \<open>fork\<close> is the only thing that makes the daemon give up. With enough
  pids the loop works off what waits in its pipes.
\<close>

subsection \<open>The pids a turn needs\<close>

text \<open>A child that has ended and is registered as a booster; \<open>reapZombies\<close> replaces it.\<close>

definition has_type :: "daemon \<Rightarrow> int \<Rightarrow> bool" where
  "has_type d c \<longleftrightarrow> boosterTypeForPid c d \<noteq> NUL"

definition ended :: "daemon \<Rightarrow> int \<Rightarrow> bool" where
  "ended d c \<longleftrightarrow> smap_find (d_ended d) c \<noteq> None"

definition to_replace :: "daemon \<Rightarrow> int list \<Rightarrow> int list" where
  "to_replace d cs = filter (\<lambda>c. ended d c \<and> has_type d c) cs"

lemma to_replace_simps [simp]:
  "to_replace d [] = []"
  "to_replace d (c # cs) = (if ended d c \<and> has_type d c then c # to_replace d cs else to_replace d cs)"
  by (simp_all add: to_replace_def)

lemma has_type_iff: "maps_ok d \<Longrightarrow> has_type d c \<longleftrightarrow> (\<exists>t. smap_find (m_boosterTypeToPid d) t = Some c)"
  using boosterTypeForPid_iff [of d c] unfolding has_type_def by metis

lemma forkBooster_none: "d_forks d = [] \<Longrightarrow> forkBooster t s d = Exits EXIT_FAILURE"
  by (simp add: forkBooster_def sys_fork_def setPidToBooster_def)

lemma reap_child_exact:
  assumes inv: "daemon_inv d" and c: "c \<in> set (m_children d)"
  shows "if ended d c \<and> has_type d c \<and> d_forks d = [] then reap_child c d = Exits EXIT_FAILURE
    else \<exists>d'. reap_child c d = Returns d' \<and>
      length (d_forks d) = length (d_forks d') + length (to_replace d [c]) \<and>
      (\<forall>x \<in> set (m_children d) - {c}. ended d' x = ended d x \<and> has_type d' x = has_type d x)"
proof -
  have ok: "pids_ok d" "maps_ok d" "forks_fresh d" using inv by (simp_all add: daemon_inv_def)
  have k: "c \<in> set (d_kernel d)" "0 < c" using pids_okD(2,5) [OF ok(1)] c by auto
  show ?thesis
  proof (cases "smap_find (d_ended d) c")
    case None
    then show ?thesis using reap_child_alive [OF k(1)] by (simp add: ended_def)
  next
    case (Some st)
    let ?b = "bury c st d"
    have r: "reap_child c d = restart_booster c ?b" by (rule reap_child_dead [OF k(1) Some k(2)])
    have type: "boosterTypeForPid x ?b = boosterTypeForPid x d" for x by (simp add: boosterTypeForPid_def)
    have e: "ended ?b x = ended d x" if "x \<noteq> c" for x
      using that pids_okD(4) [OF ok(1)] by (simp add: ended_def smap_simps)
    show ?thesis
    proof (cases "has_type d c")
      case False
      then have "restart_booster c ?b = Returns ?b"
        by (simp add: restart_booster_def type has_type_def)
      then show ?thesis using False e type by (simp add: r has_type_def)
    next
      case True
      let ?t = "boosterTypeForPid c d"
      have f: "restart_booster c ?b = forkBooster ?t m_boosterSleepTime ?b"
        using True by (simp add: restart_booster_def type has_type_def Let_def)
      show ?thesis
      proof (cases "d_forks d")
        case Nil
        then show ?thesis using True Some by (simp add: r f forkBooster_none ended_def)
      next
        case (Cons pid pids)
        then have "0 < pid" using ok(3) by (simp add: forks_fresh_def)
        with Cons obtain d' where d': "forkBooster ?t m_boosterSleepTime ?b = Returns d'"
          using forkBooster_Returns [of ?t m_boosterSleepTime ?b] by auto
        then have same: "d_forks d' = pids" "d_ended d' = d_ended ?b"
          using Cons by (auto simp: forkBooster_Returns)
        have d'inv: "daemon_inv d'"
          using reap_child_dead_inv(1) [OF inv c Some] d' by (simp add: r f)
        have find: "smap_find (m_boosterTypeToPid d') k =
            (if k = ?t then Some pid else smap_find (m_boosterTypeToPid d) k)" for k
          using d' Cons maps_okD(1) [OF ok(2)] by (auto simp: forkBooster_Returns smap_simps)
        have t: "smap_find (m_boosterTypeToPid d) ?t = Some c"
          using boosterTypeForPid_iff [OF ok(2), of c ?t] True by (simp add: has_type_def)
        have "has_type d' x = has_type d x" if "x \<in> set (m_children d)" "x \<noteq> c" for x
        proof -
          have "pid \<noteq> x" using that(1) ok(3) Cons pids_okD(2) [OF ok(1)] by (auto simp: forks_fresh_def)
          moreover have "maps_ok d'" using d'inv by (simp add: daemon_inv_def)
          ultimately show ?thesis
            using t that(2) unfolding has_type_iff [OF ok(2)] has_type_iff [OF \<open>maps_ok d'\<close>] find
            by (metis option.inject)
        qed
        moreover have "ended d' x = ended d x" if "x \<noteq> c" for x
          using e [OF that] by (simp add: ended_def same)
        ultimately show ?thesis using True Some Cons same d' by (simp add: r f ended_def)
      qed
    qed
  qed
qed

lemma to_replace_cong:
  "\<forall>x \<in> set cs. ended d' x = ended d x \<and> has_type d' x = has_type d x \<Longrightarrow> to_replace d' cs = to_replace d cs"
  unfolding to_replace_def by (rule filter_cong) auto

lemma reap_pass_exact:
  assumes "daemon_inv d" "distinct cs" "set cs \<subseteq> set (m_children d)"
  shows "if length (d_forks d) < length (to_replace d cs) then reap_pass cs d = Exits EXIT_FAILURE
    else \<exists>d'. reap_pass cs d = Returns d' \<and> length (d_forks d) = length (d_forks d') + length (to_replace d cs)"
  using assms
proof (induction cs arbitrary: d)
  case Nil
  then show ?case by simp
next
  case (Cons c cs)
  have c: "c \<in> set (m_children d)" using Cons.prems(3) by simp
  note one = reap_child_exact [OF Cons.prems(1) c]
  show ?case
  proof (cases "ended d c \<and> has_type d c \<and> d_forks d = []")
    case True
    then show ?thesis using one by simp
  next
    case False
    with one obtain d1 where d1: "reap_child c d = Returns d1"
      "length (d_forks d) = length (d_forks d1) + length (to_replace d [c])"
      "\<forall>x \<in> set (m_children d) - {c}. ended d1 x = ended d x \<and> has_type d1 x = has_type d x" by auto
    note step = reap_child_step [OF Cons.prems(1) c d1(1)]
    have "set cs \<subseteq> set (m_children d1)" using Cons.prems(2,3) step(2) by auto
    note IH = Cons.IH [OF step(1) _ this]
    have "to_replace d1 cs = to_replace d cs"
      using Cons.prems(2,3) d1(3) by (intro to_replace_cong) auto
    with IH Cons.prems(2) d1(1,2) show ?thesis by (auto split: if_splits)
  qed
qed

lemma reapZombies_exact:
  assumes "daemon_inv d"
  shows "if length (d_forks d) < length (to_replace d (m_children d)) then reapZombies d = Exits EXIT_FAILURE
    else \<exists>d'. reapZombies d = Returns d' \<and>
      length (d_forks d) = length (d_forks d') + length (to_replace d (m_children d))"
  unfolding reapZombies_pass [OF assms]
  using assms by (intro reap_pass_exact) (auto simp: daemon_inv_def pids_ok_def)

text \<open>The type of the report at the head of the pipe, if there is one.\<close>

definition reported_type :: "daemon \<Rightarrow> char option" where
  "reported_type d = (case rx (d_pipe d) of [] \<Rightarrow> None | i # _ \<Rightarrow> Some (fst i))"

definition waiting_reports :: "daemon \<Rightarrow> nat" where
  "waiting_reports d = length (rx (d_pipe d)) div 9"

lemma length_reports: "length (reports ms) = 9 * length ms"
  by (induction ms) (auto simp: report_bytes_def)

lemma readFromBoosterPipe_exact:
  assumes inv: "system_inv d"
  shows "case reported_type d of None \<Rightarrow> readFromBoosterPipe d = Returns d
    | Some t \<Rightarrow> if d_forks d = [] then readFromBoosterPipe d = Exits EXIT_FAILURE
      else \<exists>d'. readFromBoosterPipe d = Returns d' \<and> length (d_forks d) = Suc (length (d_forks d')) \<and>
        waiting_reports d = Suc (waiting_reports d') \<and>
        to_replace d' (m_children d') = filter (\<lambda>c. boosterTypeForPid c d \<noteq> t) (to_replace d (m_children d))"
proof -
  have ok: "pipe_ok d" "pids_ok d" "maps_ok d" "forks_fresh d"
    using inv by (simp_all add: system_inv_def daemon_inv_def)
  from ok(1) show ?thesis
  proof (cases rule: readFromBoosterPipe_value)
    case 1
    then show ?thesis by (simp add: reported_type_def)
  next
    case (2 t p w ms)
    let ?d = "(note_invoker t (sint p) d)\<lparr>d_pipe := (d_pipe d)\<lparr>rx := reports ms\<rparr>\<rparr>"
    have type: "reported_type d = Some t" "waiting_reports d = Suc (length ms)"
      using 2(4) by (simp_all add: reported_type_def waiting_reports_def report_bytes_def plain_def length_reports)
    show ?thesis
    proof (cases "d_forks d")
      case Nil
      then show ?thesis using type by (simp add: 2(3) forkBooster_none)
    next
      case (Cons pid pids)
      then have new: "0 < pid" "pid \<notin> set (d_kernel d)" using ok(4) by (auto simp: forks_fresh_def)
      with Cons obtain d' where d': "readFromBoosterPipe d = Returns d'"
        using forkBooster_Returns [of t "sint w" ?d] by (auto simp: 2(3))
      then have same: "d_forks d' = pids" "m_children d' = m_children d @ [pid]" "d_ended d' = d_ended d"
        "rx (d_pipe d') = reports ms" using Cons by (auto simp: 2(3) forkBooster_Returns)
      have find: "smap_find (m_boosterTypeToPid d') k =
          (if k = t then Some pid else smap_find (m_boosterTypeToPid d) k)" for k
        using d' Cons maps_okD(1) [OF ok(3)] by (auto simp: 2(3) forkBooster_Returns smap_simps)
      have maps: "maps_ok d'"
        using readFromBoosterPipe_inv [OF inv d'] by (simp add: system_inv_def daemon_inv_def)
      have "has_type d' c \<longleftrightarrow> has_type d c \<and> boosterTypeForPid c d \<noteq> t" if "c \<in> set (m_children d)" for c
      proof -
        have "pid \<noteq> c" using that new(2) pids_okD(2) [OF ok(2)] by auto
        then have "has_type d' c \<longleftrightarrow> (\<exists>k. k \<noteq> t \<and> smap_find (m_boosterTypeToPid d) k = Some c)"
          unfolding has_type_iff [OF maps] find by (metis option.inject)
        then show ?thesis
          unfolding has_type_def boosterTypeForPid_iff [OF ok(3), symmetric] by auto
      qed
      moreover have "smap_find (d_ended d) pid = None" using new(2) pids_okD(6) [OF ok(2)] by blast
      then have "\<not> ended d' pid" by (simp add: ended_def same)
      ultimately have "to_replace d' (m_children d') = filter (\<lambda>c. boosterTypeForPid c d \<noteq> t) (to_replace d (m_children d))"
        unfolding to_replace_def same filter_append filter_filter ended_def
        by (auto simp: ended_def same intro!: filter_cong)
      then show ?thesis
        using type d' Cons same by (simp add: waiting_reports_def length_reports)
    qed
  qed
qed

text \<open>
  The pids one turn takes: one for a report that is read, one for every ended booster but the one
  whose type has just been reported.
\<close>

definition forks_needed :: "ready_fds \<Rightarrow> daemon \<Rightarrow> nat" where
  "forks_needed r d = (let t = (if booster_ready r then reported_type d else None)
     in (if t = None then 0 else 1) +
        (if sigChld_ready r
         then length (filter (\<lambda>c. Some (boosterTypeForPid c d) \<noteq> t) (to_replace d (m_children d))) else 0))"

lemma reading_exact:
  fixes r :: ready_fds
  assumes "system_inv d"
  defines "t \<equiv> (if booster_ready r then reported_type d else None)"
  shows "if t \<noteq> None \<and> d_forks d = []
    then (if booster_ready r then readFromBoosterPipe d else Returns d) = Exits EXIT_FAILURE
    else \<exists>d1. (if booster_ready r then readFromBoosterPipe d else Returns d) = Returns d1 \<and>
      length (d_forks d) = length (d_forks d1) + (if t = None then 0 else 1) \<and>
      waiting_reports d1 = waiting_reports d - (if booster_ready r then 1 else 0) \<and>
      to_replace d1 (m_children d1) =
        filter (\<lambda>c. Some (boosterTypeForPid c d) \<noteq> t) (to_replace d (m_children d))"
proof (cases t)
  case None
  have "waiting_reports d = 0" if "reported_type d = None"
    using that by (simp add: reported_type_def waiting_reports_def split: list.splits)
  with None readFromBoosterPipe_exact [OF assms(1)] show ?thesis by (auto simp: t_def split: if_splits)
next
  case (Some ty)
  then have "booster_ready r" "reported_type d = Some ty" by (auto simp: t_def split: if_splits)
  with Some readFromBoosterPipe_exact [OF assms(1)] show ?thesis by (auto split: if_splits)
qed

lemma main_iteration_exact:
  assumes inv: "system_inv d"
  shows "if length (d_forks d) < forks_needed r d then main_iteration (Some r) d = Exits EXIT_FAILURE
    else if sigTerm_ready r then main_iteration (Some r) d = Exits EXIT_SUCCESS
    else \<exists>d'. main_iteration (Some r) d = Returns d' \<and>
      length (d_forks d) = length (d_forks d') + forks_needed r d \<and>
      waiting_reports d' = waiting_reports d - (if booster_ready r then 1 else 0) \<and>
      length (to_replace d' (m_children d')) \<le>
        (if sigChld_ready r then 0 else length (to_replace d (m_children d)))"
proof -
  define t where "t = (if booster_ready r then reported_type d else None)"
  note read = reading_exact [OF inv, of r, folded t_def]
  show ?thesis
  proof (cases "t \<noteq> None \<and> d_forks d = []")
    case True
    then have "length (d_forks d) < forks_needed r d" by (auto simp: forks_needed_def t_def [symmetric] Let_def)
    with True read show ?thesis by (simp add: main_iteration_def)
  next
    case False
    with read obtain d1 where d1: "(if booster_ready r then readFromBoosterPipe d else Returns d) = Returns d1"
      "length (d_forks d) = length (d_forks d1) + (if t = None then 0 else 1)"
      "waiting_reports d1 = waiting_reports d - (if booster_ready r then 1 else 0)"
      "to_replace d1 (m_children d1) = filter (\<lambda>c. Some (boosterTypeForPid c d) \<noteq> t) (to_replace d (m_children d))"
      by auto
    have inv1: "system_inv d1" using d1(1) inv by (auto split: if_splits intro: readFromBoosterPipe_inv)
    have needed: "forks_needed r d = (if t = None then 0 else 1) +
        (if sigChld_ready r then length (to_replace d1 (m_children d1)) else 0)"
      by (simp add: forks_needed_def t_def [symmetric] d1(4))
    have reaped: "to_replace d2 (m_children d2) = [] \<and> d_pipe d2 = d_pipe d1" if "reapZombies d1 = Returns d2" for d2
      using reapZombies_inv [OF _ that] inv1 by (auto simp: system_inv_def to_replace_def ended_def)
    have "if length (d_forks d) < forks_needed r d
      then (if sigChld_ready r then reapZombies d1 else Returns d1) = Exits EXIT_FAILURE
      else \<exists>d2. (if sigChld_ready r then reapZombies d1 else Returns d1) = Returns d2 \<and>
        length (d_forks d) = length (d_forks d2) + forks_needed r d \<and> d_pipe d2 = d_pipe d1 \<and>
        length (to_replace d2 (m_children d2)) \<le> (if sigChld_ready r then 0 else length (to_replace d (m_children d)))"
    proof (cases "sigChld_ready r")
      case True
      have "daemon_inv d1" using inv1 by (simp add: system_inv_def)
      from reapZombies_exact [OF this] reaped True show ?thesis
        unfolding needed d1(2) by (auto split: if_splits)
    next
      case False
      then show ?thesis unfolding needed d1(2) by (simp add: d1(4))
    qed
    moreover have "waiting_reports (enterNormalMode d2) = waiting_reports d2" "d_forks (enterNormalMode d2) = d_forks d2"
      "to_replace (enterNormalMode d2) (m_children (enterNormalMode d2)) = to_replace d2 (m_children d2)" for d2
      using enterNormalMode_frame [of d2]
      by (auto simp: waiting_reports_def to_replace_def ended_def has_type_def boosterTypeForPid_def)
    ultimately show ?thesis using d1(1,3) by (auto simp: main_iteration_def waiting_reports_def)
  qed
qed



subsection \<open>Working off what waits\<close>

fun turns :: "nat \<Rightarrow> signal_world \<Rightarrow> signal_world outcome" where
  "turns 0 w = Returns w"
| "turns (Suc n) w = and_then (and_then (turn_begin w) turn_end) (turns n)"

text \<open>The pids it may take to work off what waits: the reports and the boosters that have ended.\<close>

definition forks_due :: "daemon \<Rightarrow> nat" where
  "forks_due d = waiting_reports d + length (to_replace d (m_children d))"

lemma forks_due_turn:
  assumes "system_inv d" "forks_due d \<le> length (d_forks d)" "\<not> sigTerm_ready r"
    and "booster_ready r \<longleftrightarrow> rx (d_pipe d) \<noteq> []"
  shows "\<exists>d'. main_iteration (Some r) d = Returns d' \<and> forks_due d' \<le> length (d_forks d') \<and>
    waiting_reports d' = waiting_reports d - 1"
proof -
  have "reported_type d = None \<longleftrightarrow> rx (d_pipe d) = []"
    by (simp add: reported_type_def split: list.splits)
  moreover obtain ms where "rx (d_pipe d) = reports ms"
    using assms(1) by (auto simp: system_inv_def pipe_ok_def)
  then have "waiting_reports d = length ms" "rx (d_pipe d) = [] \<longleftrightarrow> ms = []"
    by (simp_all add: waiting_reports_def length_reports flip: length_0_conv)
  moreover have "length (filter P (to_replace d (m_children d))) \<le> length (to_replace d (m_children d))" for P
    by simp
  ultimately have "forks_needed r d \<le> (if booster_ready r then 1 else 0) +
      (if sigChld_ready r then length (to_replace d (m_children d)) else 0)"
    "booster_ready r \<longleftrightarrow> 0 < waiting_reports d"
    using assms(4) by (auto simp: forks_needed_def Let_def)
  with main_iteration_exact [OF assms(1), of r] assms(2,3) show ?thesis
    unfolding forks_due_def by (auto split: if_splits)
qed

lemma turn_fields:
  assumes "and_then (turn_begin w) turn_end = Returns w'"
  shows "sw_chld w' = tl (sw_chld w)" "sw_usr1 w' = tl (sw_usr1 w)" "sw_term w' = sw_term w"
    "sw_turn w' = None" "sw_pending w' = sw_pending w"
    "main_iteration (Some (select_ready w)) (sw_daemon w) = Returns (sw_daemon w')"
proof -
  show "main_iteration (Some (select_ready w)) (sw_daemon w) = Returns (sw_daemon w')"
    using assms unfolding turn_is_main_iteration [symmetric] by (auto simp: and_then_eq_Returns)
  show "sw_chld w' = tl (sw_chld w)" "sw_usr1 w' = tl (sw_usr1 w)" "sw_term w' = sw_term w"
    "sw_turn w' = None" "sw_pending w' = sw_pending w"
    using assms by (auto simp: turn_begin_def turn_end_def select_ready_def and_then_eq_Returns Let_def split: if_splits)
qed

lemma turn_steps:
  assumes "and_then (turn_begin w) turn_end = Returns w'" "sw_turn w = None"
  shows "signal_step\<^sup>*\<^sup>* w w'"
proof -
  obtain w1 where "turn_begin w = Returns w1" "turn_end w1 = Returns w'"
    using assms(1) by (auto simp: and_then_eq_Returns)
  then show ?thesis using begins [OF assms(2)] ends by (meson converse_rtranclp_into_rtranclp r_into_rtranclp)
qed

lemma turns_work_off:
  assumes "signal_inv w" "sw_turn w = None" "sw_term w = []" "forks_due (sw_daemon w) \<le> length (d_forks (sw_daemon w))"
  shows "\<exists>w'. turns n w = Returns w' \<and> signal_inv w' \<and> sw_turn w' = None \<and> sw_term w' = [] \<and>
    waiting_reports (sw_daemon w') = waiting_reports (sw_daemon w) - n \<and> sw_chld w' = drop n (sw_chld w) \<and>
    sw_usr1 w' = drop n (sw_usr1 w) \<and> sw_pending w' = sw_pending w"
  using assms
proof (induction n arbitrary: w)
  case 0
  then show ?case by simp
next
  case (Suc n)
  have inv: "system_inv (sw_daemon w)" using Suc.prems(1) by (simp add: signal_inv_def)
  have r: "\<not> sigTerm_ready (select_ready w)"
    "booster_ready (select_ready w) \<longleftrightarrow> rx (d_pipe (sw_daemon w)) \<noteq> []"
    using Suc.prems(3) by (simp_all add: select_ready_def)
  obtain d' where d': "main_iteration (Some (select_ready w)) (sw_daemon w) = Returns d'"
    "forks_due d' \<le> length (d_forks d')" "waiting_reports d' = waiting_reports (sw_daemon w) - 1"
    using forks_due_turn [OF inv Suc.prems(4) r] by blast
  then obtain w1 where w1: "and_then (turn_begin w) turn_end = Returns w1" "sw_daemon w1 = d'"
    unfolding turn_is_main_iteration [symmetric] by (auto simp: and_then_eq_Returns)
  note f = turn_fields [OF w1(1)]
  have "signal_inv w1" by (rule signals.steps_inv [OF turn_steps [OF w1(1) Suc.prems(2)] Suc.prems(1)])
  from Suc.IH [OF this f(4)] f Suc.prems(3) d' w1 show ?case by (simp add: drop_Suc)
qed



end
