(* ===== verification/Launch.thy ===== *)
theory Launch
  imports Booster_Safety
begin

text \<open>
  A launch from end to end: the invoker's request, the booster's \<open>initialize\<close> and \<open>run\<close>, the
  call of the application's \<open>main\<close>, and the exit status on its way back. The lemmas give each
  stage's result as a value, in the order of the code: \<open>receive_request\<close>, \<open>initialize_value\<close>,
  \<open>launchProcess_value\<close>, \<open>run_value\<close>.
\<close>

subsection \<open>Receiving\<close>

text \<open>The peer passes the credentials check of \<open>accept\<close>.\<close>

definition peer_accepted :: "platform \<Rightarrow> int \<Rightarrow> bool" where
  "peer_accepted pl fd \<longleftrightarrow> \<not> HAVE_CREDS (pl_creds pl) \<or> DISABLE_VERIFICATION (pl_creds pl) \<or>
     creds_have_p (pl_creds pl) (creds_getpeer (pl_creds pl) fd)"

definition with_peer_creds :: "platform \<Rightarrow> int \<Rightarrow> appdata \<Rightarrow> appdata" where
  "with_peer_creds pl fd a =
     (if HAVE_CREDS (pl_creds pl) then setPeerCreds (creds_getpeer (pl_creds pl) fd) a else a)"

text \<open>A request that waits, whole, on the accepted connection.\<close>

definition incoming_request :: "incoming \<Rightarrow> request \<Rightarrow> bool" where
  "incoming_request inc q \<longleftrightarrow> request_ok q \<and> 0 \<le> in_fd inc \<and>
     rx (in_sock inc) = request_wire q \<and> rplan (in_sock inc) = [] \<and> wplan (in_sock inc) = []"

lemma receive_request:
  assumes "incoming_request inc q" "peer_accepted pl (in_fd inc)" "s \<noteq> -1"
    and "env_ok (c_nomem (in_memory inc)) (rq_environ q)"
  shows "\<exists>c. receiveDataFromInvoker pl s inc b p =
      Returns (True, b\<lparr>b_appData := app_of q (with_peer_creds pl (in_fd inc) (b_appData b)),
          b_connection := Some (if sends_pid q then c else close_conn c)\<rparr>,
        (if sends_pid q then install_fds (in_installed inc) p
         else close_fd (in_fd inc) (install_fds (in_installed inc) p))\<lparr>p_environ := rq_environ q\<rparr>) \<and>
    ready c \<and> c_sendPid c = sends_pid q \<and> c_fd c = in_fd inc \<and>
    tx (c_sock c) = tx (in_sock inc) @ msg_wire INVOKER_MSG_ACK @
      (if sends_pid q then msg_wire INVOKER_MSG_PID @ msg_wire (word_of_int (p_pid p)) else [])"
proof -
  note inc = assms(1) [unfolded incoming_request_def]
  let ?new = "(connection_memory inc p)\<lparr>
      c_testMode := False, c_fd := -1, c_curSocket := s, c_fileName := [], c_argc := 0,
      c_argv := None, c_priority := 0, c_delay := 0, c_sendPid := False, c_io := [-1, -1, -1]\<rparr>"
  let ?c = "?new\<lparr>c_fd := in_fd inc, c_sock := in_sock inc\<rparr>"
  let ?c' = "after_request q [] ?c"
  have new: "Connection_new s False (connection_memory inc p) = Returns ?new"
    using assms(3) by (simp add: Connection_new_def)
  have ready: "ready ?c" "rx (c_sock ?c) = request_wire q @ []"
    using inc by (simp_all add: ready_def live_def)
  have acc: "accept (pl_creds pl) (in_fd inc) (in_sock inc) (b_appData b) ?new
      = (True, with_peer_creds pl (in_fd inc) (b_appData b), ?c)"
    using assms(2) inc by (auto simp: accept_def peer_accepted_def with_peer_creds_def Let_def)
  note fields = after_request_fields [OF ready(1), of q "[]"]
  have env: "c_environ ?c' = rq_environ q"
    using fields(2) fold_env_enter [OF assms(4), of "[]"] by (simp add: connection_memory_def)
  have fd: "c_fd ?c' = in_fd inc"
    using request_effect_ready by (simp add: after_request_def request_effect_def effect_defs
      sendReply_ready ready_def live_def inc)
  note recv = receiveApplicationData_request [OF ready(1) _ ready(2)]
  have close: "close_fd (in_fd inc) (q'\<lparr>p_environ := e\<rparr>) = (close_fd (in_fd inc) q')\<lparr>p_environ := e\<rparr>" for q' e
    by (simp add: sys_close_def split: option.splits)
  have tx: "tx (c_sock ?c') = tx (in_sock inc) @ msg_wire INVOKER_MSG_ACK @
      (if sends_pid q then msg_wire INVOKER_MSG_PID @ msg_wire (word_of_int (p_pid p)) else [])"
    using fields(1) by (simp add: reply_wire_def connection_memory_def)
  define c where "c = ?c'"
  note c = recv [folded c_def] fields(3,5) [folded c_def] env [folded c_def] fd [folded c_def] tx [folded c_def]
  have "0 \<le> in_fd inc" using inc by blast
  then have "receive_accepted inc a ?c b1 p =
      (True, b1\<lparr>b_appData := app_of q a, b_connection := Some (if sends_pid q then c else close_conn c)\<rparr>,
        (if sends_pid q then install_fds (in_installed inc) p
         else close_fd (in_fd inc) (install_fds (in_installed inc) p))\<lparr>p_environ := rq_environ q\<rparr>)" for a b1
    using inc c(1) [of a] c(2-5)
    by (simp add: receive_accepted_def isReportAppExitStatusNeeded_def close_connection_def close)
  then have "receiveDataFromInvoker pl s inc b p =
      Returns (True, b\<lparr>b_appData := app_of q (with_peer_creds pl (in_fd inc) (b_appData b)),
          b_connection := Some (if sends_pid q then c else close_conn c)\<rparr>,
        (if sends_pid q then install_fds (in_installed inc) p
         else close_fd (in_fd inc) (install_fds (in_installed inc) p))\<lparr>p_environ := rq_environ q\<rparr>)"
    by (simp add: receiveDataFromInvoker_def new acc)
  then show ?thesis using c by blast
qed

subsection \<open>Initialising\<close>

text \<open>
  A launcher that runs as root, as the shipped one does; and what filling the caches may do
  to the process: open descriptors and change the environment.
\<close>

definition root_launcher :: "proc \<Rightarrow> bool" where
  "root_launcher p \<longleftrightarrow> p_ruid p = 0 \<and> p_euid p = 0 \<and> p_suid p = 0 \<and>
     p_egid p = p_rgid p \<and> p_sgid p = p_rgid p \<and>
     \<not> p_getpriority_fails p \<and> -20 \<le> p_nice p \<and> p_nice p \<le> 19 \<and> fds_ok p \<and> \<not> p_pipe_broken p"

definition only_opens :: "proc \<Rightarrow> proc \<Rightarrow> bool" where
  "only_opens p q \<longleftrightarrow> q = p\<lparr>p_fds := p_fds q, p_environ := p_environ q\<rparr> \<and> (fds_ok p \<longrightarrow> fds_ok q)"

lemma root_push: "root_launcher p \<Longrightarrow> pushPriority 10 b p =
    (True, b\<lparr>m_oldPriorityOk := True, m_oldPriority := p_nice p\<rparr>, p\<lparr>p_nice := 10\<rparr>)"
  by (simp add: pushPriority_def sys_setpriority_def root_launcher_def)

lemma root_pop: "m_oldPriorityOk b \<Longrightarrow> p_euid p = 0 \<Longrightarrow> -20 \<le> m_oldPriority b \<Longrightarrow> m_oldPriority b \<le> 19 \<Longrightarrow>
    popPriority b p = (True, p\<lparr>p_nice := m_oldPriority b\<rparr>)"
  by (simp add: popPriority_def sys_setpriority_def)

lemma app_of_fields [simp]:
  "m_argc (app_of q a) = int (length (rq_args q))" "m_argv (app_of q a) = Some (map Str (rq_args q))"
  "m_fileName (app_of q a) = rq_exec q" "m_ioDescriptors (app_of q a) = rq_fds q"
  "m_uid (app_of q a) = rq_uid q" "m_gid (app_of q a) = rq_gid q"
  "m_prio (app_of q a) = sint (word_of_int (rq_prio q) :: u32)" "m_appName (app_of q a) = rq_name q"
  "m_options (app_of q a) = rq_options q" "m_delay (app_of q a) = sint (word_of_int (rq_delay q) :: u32)"
  by (simp_all add: app_of_def)

lemma claim_instance_app:
  "claim_instance si (app_of q a) w = claim_instance si (app_of q a') w"
  unfolding claim_instance_def singleInstance_def app_of_fields ..

lemma rename_within:
  assumes "ss \<noteq> []" "os \<noteq> []" "p_args p = mem @ rest" "length mem = length (joined os)"
    and "m_spaceAvailable b = 0 \<and> mem = joined os \<and> (\<forall>s \<in> set os. is_c_str s) \<or>
      m_spaceAvailable b = int (length (joined os))"
  shows "renameProcess (int (length os)) (arg_offsets 0 os) (int (length ss)) (Some (map Str ss)) b p =
    Returns (b\<lparr>m_spaceAvailable := int (length (joined os))\<rparr>,
      p\<lparr>p_args := shown_args (length (joined os)) ss @ rest, p_comm := take 15 (base_name (hd ss)),
        p_environ := sys_setenv ''_'' (hd ss) (p_environ p)\<rparr>)"
proof -
  have n: "0 < length (joined os)" using assms(2) by simp
  have "int (length (joined os)) = (if m_spaceAvailable b = 0
      then arg_space (p_args p) (take (nat (int (length os))) (arg_offsets 0 os)) else m_spaceAvailable b)"
    using assms(5)
  proof
    assume a: "m_spaceAvailable b = 0 \<and> mem = joined os \<and> (\<forall>s \<in> set os. is_c_str s)"
    then show ?thesis using arg_space_joined [of os "[]" rest] assms(3) by simp
  next
    assume "m_spaceAvailable b = int (length (joined os))"
    then show ?thesis using n by simp
  qed
  from renameProcess_value [OF assms(1) _ this] assms(2-4) n show ?thesis by simp
qed

text \<open>The descriptor table after the request: installed, then the ends no longer needed closed.\<close>

definition drop_fd :: "int \<Rightarrow> (int, nat) smap \<Rightarrow> (int, nat) smap" where
  "drop_fd fd m = (if smap_find m fd = None then m else smap_erase fd m)"

lemma close_fd_drop: "close_fd fd p = p\<lparr>p_fds := drop_fd fd (p_fds p)\<rparr>"
  by (simp add: sys_close_def drop_fd_def split: option.splits)

definition fds_after_request :: "incoming \<Rightarrow> request \<Rightarrow> int \<Rightarrow> (int, nat) smap \<Rightarrow> (int, nat) smap" where
  "fds_after_request inc q wr m =
     (let m1 = fold (\<lambda>(fd, f). smap_set fd f) (in_installed inc) m
      in drop_fd wr (if sends_pid q then m1 else drop_fd (in_fd inc) m1))"

text \<open>What the booster tells the daemon of a request.\<close>

definition report_of :: "booster_class \<Rightarrow> incoming \<Rightarrow> request \<Rightarrow> byte list list" where
  "report_of k inc q = [[boosterType k],
     le32 (word_of_int (if sends_pid q then peerPid (in_peer inc) else 0)), le32 (word_of_int (rq_delay q))]"

text \<open>The booster's process once it has taken over name, arguments and environment of a request.\<close>

definition renamed_for :: "request \<Rightarrow> byte list \<Rightarrow> byte list list \<Rightarrow> proc \<Rightarrow> proc" where
  "renamed_for q args sent p = p\<lparr>p_environ := sys_setenv ''_'' (hd (rq_args q)) (rq_environ q),
     p_args := args, p_comm := take 15 (base_name (hd (rq_args q))), p_sent := sent,
     p_pdeathsig := 0, p_dumpable := True\<rparr>"

lemma root_launcher_renamed: "root_launcher p \<Longrightarrow> smap_ok m \<Longrightarrow> root_launcher ((renamed_for q args sent p)\<lparr>p_fds := m\<rparr>)"
  by (simp add: root_launcher_def renamed_for_def fds_ok_def)

text \<open>The process when the booster has filled its caches, which it does not in the boot mode.\<close>

definition preloaded :: "platform \<Rightarrow> booster_class \<Rightarrow> bool \<Rightarrow> proc \<Rightarrow> proc" where
  "preloaded pl k boot p = (if boot then p\<lparr>p_nice := 10\<rparr> else snd (preload pl k (p\<lparr>p_nice := 10\<rparr>)))"

text \<open>
  Everything \<open>initialize\<close> does, in one equation for the process: \<open>os\<close> are the launcher's own
  arguments, \<open>rest\<close> the memory behind them.
\<close>

lemma initialize_value:
  assumes p: "root_launcher p" "p_args p = joined os @ rest" "os \<noteq> []" "\<forall>s \<in> set os. is_c_str s"
    and b: "m_spaceAvailable b = 0"
    and pop: "\<And>j r. only_opens r (populate pl j r)"
    and k: "k = MBooster \<Longrightarrow> boot \<or> in_event inc = InvokerConnected"
    and inc: "incoming_request inc q" "peer_accepted pl (in_fd inc)" "s \<noteq> -1"
      "env_ok (c_nomem (in_memory inc)) (rq_environ q)"
    and claim: "claim_instance si (app_of q AppData_init) w = Returns (si1, w1)"
  shows "\<exists>m b' p' c. (fds_ok p \<longrightarrow> smap_ok m) \<and> m = p_fds (preloaded pl k boot p) \<and>
    initialize pl k (int (length os)) (arg_offsets 0 os) fds s si boot inc w b p
      = Returns (b', si1, w1, p') \<and>
    b_appData b' = app_of q (with_peer_creds pl (in_fd inc) (b_appData b)) \<and>
    b_connection b' = Some (if sends_pid q then c else close_conn c) \<and>
    ready c \<and> c_sendPid c = sends_pid q \<and> c_fd c = in_fd inc \<and>
    tx (c_sock c) = tx (in_sock inc) @ msg_wire INVOKER_MSG_ACK @
      (if sends_pid q then msg_wire INVOKER_MSG_PID @ msg_wire (word_of_int (p_pid p)) else []) \<and>
    p' = (renamed_for q (shown_args (length (joined os)) (rq_args q) @ rest) (p_sent p @ report_of k inc q) p)
      \<lparr>p_fds := fds_after_request inc q (snd fds) m\<rparr>"
proof -
  let ?n = "length (joined os)" and ?offs = "arg_offsets 0 os"
  have n: "0 < ?n" using p(3) by simp
  define b1 where "b1 = b\<lparr>b_bootMode := boot, m_pipeFd := fds, m_oldPriorityOk := True, m_oldPriority := p_nice p\<rparr>"
  have push: "pushPriority 10 (b\<lparr>b_bootMode := boot, m_pipeFd := fds\<rparr>) p = (True, b1, p\<lparr>p_nice := 10\<rparr>)"
    using root_push [OF p(1)] by (simp add: b1_def)
  define p2 where "p2 = (if b_bootMode b1 then p\<lparr>p_nice := 10\<rparr> else snd (preload pl k (p\<lparr>p_nice := 10\<rparr>)))"
  have "only_opens (p\<lparr>p_nice := 10\<rparr>) p2"
    using pop by (cases k) (simp_all add: p2_def preload_def only_opens_def)
  then have "p2 = p\<lparr>p_nice := 10, p_fds := p_fds p2, p_environ := p_environ p2\<rparr>"
    and f: "fds_ok p \<longrightarrow> smap_ok (p_fds p2)"
    by (simp_all add: only_opens_def fds_ok_def)
  then obtain f e where p2: "p2 = p\<lparr>p_nice := 10, p_fds := f, p_environ := e\<rparr>" by blast
  have fds: "fds_ok p \<longrightarrow> smap_ok f" using f by (simp add: p2)
  have "b_bootMode b1 = boot" by (simp add: b1_def)
  then have "p2 = preloaded pl k boot p" by (simp add: p2_def preloaded_def)
  then have "p_fds (preloaded pl k boot p) = p_fds p2" by simp
  then have pre: "f = p_fds (preloaded pl k boot p)" by (simp add: p2)
  let ?name = "boosterTemporaryProcessName k"
  define p3 where "p3 = p2\<lparr>p_args := shown_args ?n [?name] @ rest, p_comm := take 15 (base_name ?name),
    p_environ := sys_setenv ''_'' ?name (p_environ p2)\<rparr>"
  have rename1: "renameProcess (int (length os)) ?offs 1 (Some [Str ?name]) b1 p2
      = Returns (b1\<lparr>m_spaceAvailable := int ?n\<rparr>, p3)"
    using rename_within [of "[?name]" os p2 "joined os" rest b1] p(2-4) b
    unfolding b1_def p3_def by (simp add: p2)
  define b3 where "b3 = b1\<lparr>m_spaceAvailable := int ?n\<rparr>"
  define p4 where "p4 = p3\<lparr>p_nice := p_nice p\<rparr>"
  have popped: "popPriority b3 p3 = (True, p4)"
    using root_pop [of b3 p3] p(1)
    by (simp add: b3_def b1_def p3_def p2 root_launcher_def p4_def)
  obtain c where recv: "receiveDataFromInvoker pl s inc b3 p4 =
      Returns (True, b3\<lparr>b_appData := app_of q (with_peer_creds pl (in_fd inc) (b_appData b3)),
          b_connection := Some (if sends_pid q then c else close_conn c)\<rparr>,
        (if sends_pid q then install_fds (in_installed inc) p4
         else close_fd (in_fd inc) (install_fds (in_installed inc) p4))\<lparr>p_environ := rq_environ q\<rparr>)"
    and c: "ready c" "c_sendPid c = sends_pid q" "c_fd c = in_fd inc"
      "tx (c_sock c) = tx (in_sock inc) @ msg_wire INVOKER_MSG_ACK @
        (if sends_pid q then msg_wire INVOKER_MSG_PID @ msg_wire (word_of_int (p_pid p4)) else [])"
    using receive_request [OF inc, of b3 p4] by blast
  define m1 where "m1 = (let m1 = fold (\<lambda>(fd, f). smap_set fd f) (in_installed inc) f
      in if sends_pid q then m1 else drop_fd (in_fd inc) m1)"
  define b5 where "b5 = b3\<lparr>b_appData := app_of q (with_peer_creds pl (in_fd inc) (b_appData b)),
    b_connection := Some (if sends_pid q then c else close_conn c)\<rparr>"
  define p5 where "p5 = p4\<lparr>p_fds := m1, p_environ := rq_environ q\<rparr>"
  have "p_fds p4 = f" by (simp add: p4_def p3_def p2)
  then have "(if sends_pid q then install_fds (in_installed inc) p4
      else close_fd (in_fd inc) (install_fds (in_installed inc) p4))\<lparr>p_environ := rq_environ q\<rparr> = p5"
    by (simp add: p5_def m1_def install_fds_def close_fd_drop)
  moreover have "virtual_receive k pl s inc b3 p4 = receiveDataFromInvoker pl s inc b3 p4"
    using k by (cases k) (auto simp: virtual_receive_def MBooster_receives_like_default b3_def b1_def)
  moreover have "b_appData b3 = b_appData b" by (simp add: b3_def b1_def)
  ultimately have recv5: "virtual_receive k pl s inc b3 p4 = Returns (True, b5, p5)"
    using recv by (simp add: b5_def)
  have claimed: "claim_instance si (b_appData b5) w = Returns (si1, w1)"
    using claim claim_instance_app [of si q _ w AppData_init] by (simp add: b5_def)
  define p6 where "p6 = p5\<lparr>p_args := shown_args ?n (rq_args q) @ rest,
    p_comm := take 15 (base_name (hd (rq_args q))),
    p_environ := sys_setenv ''_'' (hd (rq_args q)) (rq_environ q)\<rparr>"
  have args: "rq_args q \<noteq> []" using inc(1) by (auto simp: incoming_request_def request_ok_def args_ok_def)
  have space5: "m_spaceAvailable b5 = int ?n" "p_args p5 = shown_args ?n [?name] @ rest"
    "p_environ p5 = rq_environ q"
    by (simp_all add: b5_def b3_def p5_def p4_def p3_def)
  have b5': "b5\<lparr>m_spaceAvailable := int ?n\<rparr> = b5" by (simp add: b5_def b3_def)
  have rename2: "renameProcess (int (length os)) ?offs (int (length (rq_args q))) (Some (map Str (rq_args q))) b5 p5
      = Returns (b5, p6)"
    using rename_within [OF args p(3) space5(2), of b5] space5(1,3) n
    by (simp add: length_shown_args b5' p6_def)
  have conn: "b_connection b5 = Some (if sends_pid q then c else close_conn c)" by (simp add: b5_def)
  then obtain p7 where send: "sendDataToParent k (in_peer inc) b5 p6 = Returns p7"
    by (simp add: sendDataToParent_def invokersPid_def Let_def split_def)
  have "\<not> p_pipe_broken p6"
    using p(1) by (simp add: p6_def p5_def p4_def p3_def p2 root_launcher_def)
  moreover have "p_sent p6 = p_sent p" by (simp add: p6_def p5_def p4_def p3_def p2)
  moreover have "c_sendPid (if sends_pid q then c else close_conn c) = sends_pid q"
    using c(2) by (simp add: close_conn_def)
  moreover have "m_delay (b_appData b5) = sint (word_of_int (rq_delay q) :: u32)" by (simp add: b5_def)
  ultimately have p7: "p7 = p6\<lparr>p_sent := p_sent p @ report_of k inc q\<rparr>"
    using sendDataToParent_value [OF send conn] by (simp add: report_of_def)
  have pipe: "m_pipeFd b5 = fds" "m_pipeFd b3 = fds" by (simp_all add: b5_def b3_def b1_def)
  let ?p' = "(close_fd (snd fds) p7)\<lparr>p_pdeathsig := 0, p_dumpable := True\<rparr>"
  have init: "initialize pl k (int (length os)) ?offs fds s si boot inc w b p = Returns (b5, si1, w1, ?p')"
    unfolding initialize_def Let_def push prod.case p2_def [symmetric] rename1 and_then.simps
      b3_def [symmetric] popped recv5 claimed send pipe
    by (simp add: pipe(2) b5_def rename2 [unfolded b5_def] send [unfolded b5_def] claimed [unfolded b5_def])
  have pid: "p_pid p4 = p_pid p" by (simp add: p4_def p3_def p2)
  have p6: "p6 = p\<lparr>p_fds := m1, p_environ := sys_setenv ''_'' (hd (rq_args q)) (rq_environ q),
      p_args := shown_args ?n (rq_args q) @ rest, p_comm := take 15 (base_name (hd (rq_args q)))\<rparr>"
    by (simp add: p6_def p5_def p4_def p3_def p2)
  have p': "?p' = (renamed_for q (shown_args ?n (rq_args q) @ rest) (p_sent p @ report_of k inc q) p)
      \<lparr>p_fds := fds_after_request inc q (snd fds) f\<rparr>"
    unfolding p7 p6 by (simp add: close_fd_drop fds_after_request_def m1_def renamed_for_def Let_def)
  have app: "b_appData b5 = app_of q (with_peer_creds pl (in_fd inc) (b_appData b))" by (simp add: b5_def)
  show ?thesis
    by (intro exI [of _ f] exI [of _ b5] exI [of _ ?p'] exI [of _ c] conjI init app conn c(1-3))
      (use fds pre p' c(4) pid in \<open>simp_all\<close>)
qed

subsection \<open>Launching\<close>

lemma drop_fd_ok: "smap_ok m \<Longrightarrow> smap_ok (drop_fd fd m)"
  by (simp add: drop_fd_def smap_simps)

lemma drop_fd_find: "smap_ok m \<Longrightarrow> smap_find (drop_fd fd m) k = (if k = fd then None else smap_find m k)"
  by (auto simp: drop_fd_def smap_simps)

text \<open>The kernel installed the connection and the three descriptors of the request.\<close>

lemma fds_after_request_find:
  assumes "smap_ok m" "in_installed inc = [(in_fd inc, g), (d0, f0), (d1, f1), (d2, f2)]"
    and "distinct [in_fd inc, d0, d1, d2]" "wr \<notin> {d0, d1, d2}"
  shows "smap_ok (fds_after_request inc q wr m)"
    "smap_find (fds_after_request inc q wr m) d0 = Some f0"
    "smap_find (fds_after_request inc q wr m) d1 = Some f1"
    "smap_find (fds_after_request inc q wr m) d2 = Some f2"
  using assms
  by (auto simp: fds_after_request_def drop_fd_ok drop_fd_find smap_simps Let_def)

lemma closeAllSockets_others:
  assumes "fds_ok p"
  obtains m where "snd (closeAllSockets sm p) = p\<lparr>p_fds := m\<rparr>" "smap_ok m"
    "\<And>k. smap_find m k = (if k \<in> snd ` set sm \<and> 0 < k then None else fd_file p k)"
proof -
  have "\<exists>m. fold (\<lambda>(_, fd) q. if fd > 0 then close_fd fd q else q) l q = q\<lparr>p_fds := m\<rparr> \<and> smap_ok m \<and>
      (\<forall>k. smap_find m k = (if k \<in> snd ` set l \<and> 0 < k then None else fd_file q k))" if "fds_ok q" for q and l :: socket_hash
    using that
  proof (induction l arbitrary: q)
    case Nil
    then show ?case by (intro exI [of _ "p_fds q"]) (simp add: fds_ok_def)
  next
    case (Cons e l)
    obtain sid fd where e: "e = (sid, fd)" by (cases e)
    let ?q = "if fd > 0 then close_fd fd q else q"
    have "fds_ok ?q" using Cons.prems by simp
    from Cons.IH [OF this] obtain m where
      "fold (\<lambda>(_, fd) q. if fd > 0 then close_fd fd q else q) l ?q = ?q\<lparr>p_fds := m\<rparr>" "smap_ok m"
      "\<forall>k. smap_find m k = (if k \<in> snd ` set l \<and> 0 < k then None else fd_file ?q k)" by blast
    then show ?case
      using Cons.prems by (intro exI [of _ m]) (auto simp: e close_fd_drop drop_fd_find fds_ok_def)
  qed
  from this [OF assms, of sm] that show thesis by (auto simp: closeAllSockets_def)
qed

lemma resetOomAdj_value:
  assumes "fds_ok p"
  obtains m where "resetOomAdj pl p = p\<lparr>p_fds := m, p_oom := (if oom_file pl then ''0'' else p_oom p)\<rparr>"
    "smap_ok m" "\<forall>k. smap_find m k = fd_file p k"
proof (cases "oom_file pl")
  case True
  let ?fd = "lowest_free 0 (p_fds p)"
  let ?m = "drop_fd ?fd (smap_set ?fd 0 (p_fds p))"
  have ok: "smap_ok (p_fds p)" using assms by (simp add: fds_ok_def)
  show thesis
  proof (rule that [of ?m])
    show "resetOomAdj pl p = p\<lparr>p_fds := ?m, p_oom := (if oom_file pl then ''0'' else p_oom p)\<rparr>"
      using True by (simp add: resetOomAdj_def sys_install_def close_fd_drop Let_def)
    show "smap_ok ?m" using ok by (simp add: drop_fd_ok smap_simps)
    show "\<forall>k. smap_find ?m k = fd_file p k"
      using ok lowest_free_free [OF ok, of 0] by (auto simp: drop_fd_find smap_simps)
  qed
next
  case False
  then show thesis using that [of "p_fds p"] assms by (simp add: resetOomAdj_def fds_ok_def)
qed

lemma dup_descriptors_fds: "\<exists>m. dup_descriptors i ds p = p\<lparr>p_fds := m\<rparr>"
proof (induction i ds p rule: dup_descriptors.induct)
  case (1 i p)
  show ?case by (intro exI [of _ "p_fds p"]) simp
next
  case (2 i d ds p)
  have "\<exists>m. (if d > 0 then close_fd d (snd (sys_dup2 d i p)) else p) = p\<lparr>p_fds := m\<rparr>"
  proof (cases "d > 0")
    case True
    then show ?thesis
      by (cases "fd_file p d") (auto simp: sys_dup2_def close_fd_drop)
  next
    case False
    then show ?thesis by (intro exI [of _ "p_fds p"]) simp
  qed
  with "2.IH" show ?case by auto
qed

text \<open>
  What a request asks of the process that runs the application, given the process \<open>p\<close> the
  booster was forked as: nothing but the descriptor table is left open by the equation, and the standard descriptors are those of the request.
\<close>

definition taken_identity :: "request \<Rightarrow> proc \<Rightarrow> proc" where
  "taken_identity q p =
     (if rq_uid q = 0 then p\<lparr>p_rgid := rq_gid q, p_egid := rq_gid q, p_sgid := rq_gid q\<rparr>
      else p\<lparr>p_ruid := rq_uid q, p_euid := rq_uid q, p_suid := rq_uid q\<rparr>)"

definition working_directory :: "platform \<Rightarrow> string list \<Rightarrow> string \<Rightarrow> string" where
  "working_directory pl env d = (case sys_getenv ''PWD'' env of
       Some pwd \<Rightarrow> if is_dir pl pwd then pwd else d
     | None \<Rightarrow> d)"

definition prepared :: "platform \<Rightarrow> request \<Rightarrow> nat list \<Rightarrow> proc \<Rightarrow> proc \<Rightarrow> bool" where
  "prepared pl q files p r \<longleftrightarrow>
     map (fd_file r) [0, 1, 2] = map Some files \<and> (\<forall>d \<in> set (rq_fds q). fd_file r d = None) \<and>
     (\<exists>fds. r = (taken_identity q p)\<lparr>p_fds := fds,
        p_nice := max (p_nice p) (min 19 (sint (word_of_int (rq_prio q) :: u32))),
        p_oom := (if oom_file pl then ''0'' else p_oom p),
        p_cwd := working_directory pl (p_environ p) (p_cwd p)\<rparr>)"

text \<open>The program can be loaded and has a \<open>main\<close>.\<close>

definition loadable :: "platform \<Rightarrow> request \<Rightarrow> nat \<Rightarrow> bool" where
  "loadable pl q e \<longleftrightarrow>
     (case dl_open pl (rq_exec q) (dlopenFlags (app_of q AppData_init)) of
        Some module \<Rightarrow> dl_sym pl module ''main'' = Some (Some e) | None \<Rightarrow> False) \<and>
     (HAVE_CREDS (pl_creds pl) \<longrightarrow> (\<forall>cr. 0 \<le> creds_confine2 pl (rq_exec q) cr)) \<and>
     strstr (hd (rq_args q)) ''skypeplugin.launch'' = None"

abbreviation run_main :: "platform \<Rightarrow> request \<Rightarrow> nat \<Rightarrow> proc \<Rightarrow> int \<times> proc" where
  "run_main pl q e r \<equiv> app_main pl e (int (length (rq_args q))) (Some (map Str (rq_args q))) r"

lemma app_of_setters:
  "deletePeerCreds (app_of q a) = app_of q (deletePeerCreds a)"
  "setEntry e (app_of q a) = app_of q (setEntry e a)"
  "m_entry (app_of q a) = m_entry a"
  "setArgv (Some (map Str (rq_args q))) (app_of q a) = app_of q a"
  by (simp_all add: app_of_def appdata_setters)

lemma deleteArgv_app: "deleteArgv (app_of q a) = Returns ((app_of q a)\<lparr>m_argv := None\<rparr>)"
  by (rule deleteArgv_ok) (auto simp: argv_ok_def)

lemma no_skype: "ss \<noteq> [] \<Longrightarrow> strstr (hd ss) ''skypeplugin.launch'' = None \<Longrightarrow>
    skype_workaround (Some (map Str ss)) = Returns (Some (map Str ss))"
  by (cases ss) (simp_all add: skype_workaround_def)

lemma dlopenFlags_app: "dlopenFlags (app_of q a) = dlopenFlags (app_of q a')"
  by (simp add: dlopenFlags_def dlopenGlobal_def dlopenDeep_def)

lemma set_nice:
  assumes "p_euid p = 0" "\<not> p_getpriority_fails p" "-20 \<le> p_nice p" "p_nice p \<le> 19"
  shows "(if \<not> p_getpriority_fails p \<and> p_nice p < n then snd (sys_setpriority n p) else p)
    = p\<lparr>p_nice := max (p_nice p) (min 19 n)\<rparr>"
proof (cases "p_nice p < n")
  case True
  then have "max (-20) (min 19 n) = max (p_nice p) (min 19 n)" using assms by (auto simp: max_def min_def)
  then show ?thesis using True assms by (simp add: sys_setpriority_def Let_def)
next
  case False
  then have "max (p_nice p) (min 19 n) = p_nice p" by (simp add: max_def min_def)
  then show ?thesis using False by simp
qed

lemma launchProcess_value:
  assumes p: "root_launcher p"
    and b: "b_appData b = app_of q a" "rq_args q \<noteq> []"
    and fds: "rq_fds q = [d0, d1, d2]" "distinct [d0, d1, d2]" "2 < d0" "2 < d1" "2 < d2"
      "fd_file p d0 = Some f0" "fd_file p d1 = Some f1" "fd_file p d2 = Some f2"
    and load: "loadable pl q e"
  shows "\<exists>r b'. prepared pl q [f0, f1, f2] p r \<and> b_connection b' = b_connection b \<and>
    m_argv (b_appData b') = None \<and>
    (\<forall>k. k \<notin> {0, 1, 2, d0, d1, d2} \<longrightarrow> fd_file r k = fd_file p k) \<and>
    launchProcess pl b p = (case run_main pl q e r of (status, r') \<Rightarrow> Returns (status, b', r'))"
proof -
  note root = p [unfolded root_launcher_def]
  let ?nice = "max (p_nice p) (min 19 (sint (word_of_int (rq_prio q) :: u32)))"
  let ?p1 = "p\<lparr>p_nice := ?nice\<rparr>"
  have nice: "(if \<not> p_getpriority_fails p \<and> p_nice p < m_prio (b_appData b)
      then snd (sys_setpriority (m_prio (b_appData b)) p) else p) = ?p1"
    using set_nice [of p "m_prio (b_appData b)"] root b(1) by simp
  have ident: "switch_identity b ?p1 = (taken_identity q p)\<lparr>p_nice := ?nice\<rparr>"
    using switch_identity_value [of ?p1 b] root b(1) by (simp add: taken_identity_def)
  have ok: "fds_ok ((taken_identity q p)\<lparr>p_nice := ?nice\<rparr>)"
    "p_fds (taken_identity q p) = p_fds p" "p_oom (taken_identity q p) = p_oom p"
    "p_environ (taken_identity q p) = p_environ p" "p_cwd (taken_identity q p) = p_cwd p"
    using root by (simp_all add: taken_identity_def fds_ok_def)
  let ?T = "(taken_identity q p)\<lparr>p_nice := ?nice\<rparr>"
  obtain m where oom: "resetOomAdj pl ?T
      = ?T\<lparr>p_fds := m, p_oom := (if oom_file pl then ''0'' else p_oom ?T)\<rparr>"
    and m: "smap_ok m" "\<forall>k. smap_find m k = fd_file ?T k"
    using resetOomAdj_value [OF ok(1), of pl] by blast
  define p2 where "p2 = (taken_identity q p)\<lparr>p_nice := ?nice, p_fds := m,
    p_oom := (if oom_file pl then ''0'' else p_oom p)\<rparr>"
  have p2: "resetOomAdj pl (switch_identity b ?p1) = p2"
    unfolding ident oom p2_def using ok(3) by simp
  obtain m' where dup: "dup_descriptors 0 [d0, d1, d2] p2 = p2\<lparr>p_fds := m'\<rparr>"
    using dup_descriptors_fds by blast
  have m': "smap_find m' k = (if k = 0 then Some f0 else if k = 1 then Some f1 else if k = 2 then Some f2
       else if k = d0 \<or> k = d1 \<or> k = d2 then None else fd_file p k)" for k
    using dup_descriptors_value [of p2 d0 d1 d2 f0 f1 f2 k] fds m dup ok(2) by (simp add: p2_def fds_ok_def)
  define r where "r = p2\<lparr>p_fds := m', p_cwd := working_directory pl (p_environ p) (p_cwd p)\<rparr>"
  have cwd: "(case sys_getenv ''PWD'' (p_environ (p2\<lparr>p_fds := m'\<rparr>)) of
      Some pwd \<Rightarrow> if is_dir pl pwd then (p2\<lparr>p_fds := m'\<rparr>)\<lparr>p_cwd := pwd\<rparr> else p2\<lparr>p_fds := m'\<rparr>
    | None \<Rightarrow> p2\<lparr>p_fds := m'\<rparr>) = r"
    using ok by (simp add: r_def p2_def working_directory_def split: option.split)
  have prep: "prepared pl q [f0, f1, f2] p r"
    unfolding prepared_def
  proof (intro conjI exI [of _ m'])
    show "map (fd_file r) [0, 1, 2] = map Some [f0, f1, f2]" using m' by (simp add: r_def)
    show "\<forall>d \<in> set (rq_fds q). fd_file r d = None" using m' fds by (auto simp: r_def)
  qed (simp add: r_def p2_def)
  obtain module where dl0: "dl_open pl (rq_exec q) (dlopenFlags (app_of q AppData_init)) = Some module"
      "dl_sym pl module ''main'' = Some (Some e)"
    using load by (auto simp: loadable_def split: option.splits)
  have dl: "dl_open pl (rq_exec q) (dlopenFlags (app_of q a')) = Some module" for a'
    using dl0(1) dlopenFlags_app [of q a' AppData_init] by simp
  define b1 where "b1 = (if HAVE_CREDS (pl_creds pl) then b\<lparr>b_appData := deletePeerCreds (b_appData b)\<rparr> else b)"
  define a1 where "a1 = (if HAVE_CREDS (pl_creds pl) then deletePeerCreds a else a)"
  have b1: "b_appData b1 = app_of q a1" "b_connection b1 = b_connection b"
    using b(1) by (auto simp: b1_def a1_def app_of_setters)
  define b2 where "b2 = b1\<lparr>b_appData := app_of q (setEntry (Some e) a1)\<rparr>"
  have main: "loadMain pl b1 = Returns (module, b2)"
    using dl dl0(2) by (simp add: loadMain_def b1 app_of_setters b2_def)
  have creds: "\<not> (HAVE_CREDS (pl_creds pl) \<and> creds_confine2 pl (rq_exec q) cr < 0)" for cr
    using load unfolding loadable_def by (auto simp: not_less)
  have skype: "skype_workaround (Some (map Str (rq_args q))) = Returns (Some (map Str (rq_args q)))"
    using no_skype [OF b(2)] load by (simp add: loadable_def)
  have b2: "b_appData b2 = app_of q (setEntry (Some e) a1)" by (simp add: b2_def)
  have io: "dup_descriptors 0 (rq_fds q) p2 = p2\<lparr>p_fds := m'\<rparr>" unfolding fds(1) by (rule dup)
  have "launchProcess pl b p = (case run_main pl q e r of (status, r') \<Rightarrow>
      Returns (status, b2\<lparr>b_appData := (app_of q (setEntry (Some e) a1))\<lparr>m_argv := None\<rparr>\<rparr>, r'))"
    unfolding launchProcess_def Let_def nice p2 b1_def [symmetric]
    using creds
    by (simp add: main skype io cwd [simplified] b(1) b2 app_of_setters deleteArgv_app setEntry_def
        split: prod.split cong: option.case_cong if_cong)
  moreover have "b_connection (b2\<lparr>b_appData := x\<rparr>) = b_connection b" for x
    by (simp add: b2_def b1)
  moreover have "\<forall>k. k \<notin> {0, 1, 2, d0, d1, d2} \<longrightarrow> fd_file r k = fd_file p k" using m' by (simp add: r_def)
  moreover have "m_argv (b_appData (b2\<lparr>b_appData := a'\<lparr>m_argv := None\<rparr>\<rparr>)) = None" for a' by simp
  ultimately show ?thesis using prep by blast
qed

lemma prepared_fds: "prepared pl q files (p\<lparr>p_fds := m\<rparr>) r = prepared pl q files p r"
  by (simp add: prepared_def taken_identity_def)

lemma close_conn_fields [simp]:
  "c_sendPid (close_conn c) = c_sendPid c" "c_sock (close_conn c) = c_sock c" "c_fd (close_conn c) = -1"
  by (simp_all add: close_conn_def)

text \<open>The process as \<open>run\<close> leaves it behind, after the application's \<open>main\<close> returned.\<close>

definition left_behind :: "request \<Rightarrow> int \<Rightarrow> socket_hash \<Rightarrow> proc \<Rightarrow> proc" where
  "left_behind q fd sm r =
     (if sends_pid q then snd (closeAllSockets sm (close_fd fd r)) else r)"

lemma run_value:
  assumes p: "root_launcher p"
    and b: "b_appData b = app_of q a" "rq_args q \<noteq> []" "rq_exec q \<noteq> []"
    and c: "b_connection b = Some (if sends_pid q then c else close_conn c)"
      "ready c" "c_sendPid c = sends_pid q"
    and fds: "rq_fds q = [d0, d1, d2]" "distinct [d0, d1, d2]" "2 < d0" "2 < d1" "2 < d2"
      "fd_file p d0 = Some f0" "fd_file p d1 = Some f1" "fd_file p d2 = Some f2"
    and sm: "snd ` set sm \<inter> {d0, d1, d2} = {}"
    and load: "loadable pl q e"
  shows "\<exists>r. prepared pl q [f0, f1, f2] p r \<and>
    (\<forall>k. k \<notin> {0, 1, 2, d0, d1, d2} \<longrightarrow> fd_file r k =
       (if \<not> sends_pid q \<and> k \<in> snd ` set sm \<and> 0 < k then None else fd_file p k)) \<and>
    (case run_main pl q e r of (status, r') \<Rightarrow>
    \<exists>b' c'. run pl (Some sm) b p = Returns (Some [], b', left_behind q (c_fd c) sm r') \<and>
      b_connection b' = Some c' \<and> c_fd c' = -1 \<and> m_argv (b_appData b') = None \<and>
      tx (c_sock c') = tx (c_sock c) @
        (if sends_pid q then msg_wire INVOKER_MSG_EXIT @ msg_wire (word_of_int status) else []))"
proof (cases "sends_pid q")
  case True
  obtain r b' where r: "prepared pl q [f0, f1, f2] p r" "b_connection b' = b_connection b" "m_argv (b_appData b') = None"
      "\<forall>k. k \<notin> {0, 1, 2, d0, d1, d2} \<longrightarrow> fd_file r k = fd_file p k"
    and l: "launchProcess pl b p = (case run_main pl q e r of (status, r') \<Rightarrow> Returns (status, b', r'))"
    using launchProcess_value [OF p b(1,2) fds load] by blast
  obtain status r' where m: "run_main pl q e r = (status, r')" by (cases "run_main pl q e r")
  obtain c1 where exit: "sendAppExitStatus status c = (True, c1)" "ready c1"
      "tx (c_sock c1) = tx (c_sock c) @ msg_wire INVOKER_MSG_EXIT @ msg_wire (word_of_int status)"
      "c_fd c1 = c_fd c"
    using c(2) by (simp add: sendAppExitStatus_def sendMsg_ready)
  have "c_fd c1 \<noteq> -1" using exit(2) by (auto simp: ready_def live_def)
  then have "run pl (Some sm) b p = Returns (Some [], b'\<lparr>b_connection := Some (close_conn c1)\<rparr>,
      left_behind q (c_fd c) sm r')"
    using True c b l m exit
    by (simp add: run_def isReportAppExitStatusNeeded_def close_connection_def left_behind_def
        closeAllSockets_def)
  with r m True exit(3) show ?thesis by (intro exI [of _ r]) simp
next
  case False
  obtain m where m: "snd (closeAllSockets sm p) = p\<lparr>p_fds := m\<rparr>" "smap_ok m"
    "\<And>k. smap_find m k = (if k \<in> snd ` set sm \<and> 0 < k then None else fd_file p k)"
    using closeAllSockets_others [of p sm] p by (auto simp: root_launcher_def)
  let ?p = "p\<lparr>p_fds := m\<rparr>"
  have root: "root_launcher ?p" using p m(2) by (simp add: root_launcher_def fds_ok_def)
  have d: "d0 \<notin> snd ` set sm" "d1 \<notin> snd ` set sm" "d2 \<notin> snd ` set sm" using sm by auto
  have files: "fd_file ?p d0 = Some f0" "fd_file ?p d1 = Some f1" "fd_file ?p d2 = Some f2"
    using m(3) d fds(6-8) by simp_all
  obtain r b' where r: "prepared pl q [f0, f1, f2] ?p r" "b_connection b' = b_connection b" "m_argv (b_appData b') = None"
      "\<forall>k. k \<notin> {0, 1, 2, d0, d1, d2} \<longrightarrow> fd_file r k = fd_file ?p k"
    and l: "launchProcess pl b ?p = (case run_main pl q e r of (status, r') \<Rightarrow> Returns (status, b', r'))"
    using launchProcess_value [OF root b(1,2) fds(1-5) files load] by blast
  obtain status r' where main: "run_main pl q e r = (status, r')" by (cases "run_main pl q e r")
  have all: "closeAllSockets sm p = ([], ?p)" using m(1) by (simp add: closeAllSockets_def)
  have "run pl (Some sm) b p = Returns (Some [], b', left_behind q (c_fd c) sm r')"
    using False c b(3) l main all b(1)
    by (simp add: run_def isReportAppExitStatusNeeded_def left_behind_def)
  with r m(3) main False c show ?thesis by (intro exI [of _ r]) (simp add: prepared_fds)
qed

lemma invoke_remote_answered:
  assumes "can_send i" "argv \<noteq> []" "rplan (i_sock i) = []"
  shows "\<exists>i'. invoke_remote argv (Some prog) opts w respawn (i\<lparr>i_sock := (i_sock i)\<lparr>rx := msg_wire INVOKER_MSG_ACK @
      (if w then msg_wire INVOKER_MSG_PID @ msg_wire pid @ msg_wire INVOKER_MSG_EXIT @ msg_wire st
       else [])\<rparr>\<rparr>) = Returns (if w then sint st else 0, i')"
  using invoke_remote_reply [of "i\<lparr>i_sock := (i_sock i)\<lparr>rx := msg_wire INVOKER_MSG_ACK @
      (if w then msg_wire INVOKER_MSG_PID @ msg_wire pid @ msg_wire INVOKER_MSG_EXIT @ msg_wire st
       else [])\<rparr>\<rparr>" argv w pid st prog opts respawn] assms
  by (auto simp: can_send_def)

subsection \<open>From the invoker to the application and back\<close>

text \<open>
  The booster's side of a launch in one equation, with the descriptor table \<open>main\<close> finds: apart from
  the standard descriptors and the received ones it is that of the booster with full caches, after
  the request, and without the sockets if the invoker does not wait.
\<close>

lemma launch_value:
  assumes "root_launcher p" "p_args p = joined os @ rest" "os \<noteq> []" "\<forall>s \<in> set os. is_c_str s"
    and "m_spaceAvailable b = 0" "\<And>j r. only_opens r (populate pl j r)"
    and k: "k = MBooster \<longrightarrow> boot \<or> in_event inc = InvokerConnected"
    and inc: "incoming_request inc q" "tx (in_sock inc) = []" "rq_exec q \<noteq> []" "rq_fds q = [d0, d1, d2]"
      "env_ok (c_nomem (in_memory inc)) (rq_environ q)" "s \<noteq> -1" "peer_accepted pl (in_fd inc)"
      "in_installed inc = [(in_fd inc, g), (d0, f0), (d1, f1), (d2, f2)]"
    and ds: "distinct [in_fd inc, d0, d1, d2]" "2 < d0" "2 < d1" "2 < d2"
      "snd fds \<notin> {d0, d1, d2}" "snd ` set sm \<inter> {d0, d1, d2} = {}"
    and "claim_instance si (app_of q AppData_init) w = Returns (si1, w1)" and load: "loadable pl q e"
  shows "\<exists>b1 p1 r. initialize pl k (int (length os)) (arg_offsets 0 os) fds s si boot inc w b p
      = Returns (b1, si1, w1, p1) \<and>
    prepared pl q [f0, f1, f2]
      (renamed_for q (shown_args (length (joined os)) (rq_args q) @ rest) (p_sent p @ report_of k inc q) p) r \<and>
    (\<forall>j. j \<notin> {0, 1, 2, d0, d1, d2} \<longrightarrow> fd_file r j =
       (if \<not> sends_pid q \<and> j \<in> snd ` set sm \<and> 0 < j then None
        else smap_find (fds_after_request inc q (snd fds) (p_fds (preloaded pl k boot p))) j)) \<and>
    (case run_main pl q e r of (status, r') \<Rightarrow> \<exists>b2 c.
      run pl (Some sm) b1 p1 = Returns (Some [], b2, left_behind q (in_fd inc) sm r') \<and>
      b_connection b2 = Some c \<and> c_fd c = -1 \<and> m_argv (b_appData b2) = None \<and>
      tx (c_sock c) = msg_wire INVOKER_MSG_ACK @
        (if sends_pid q then msg_wire INVOKER_MSG_PID @ msg_wire (word_of_int (p_pid p)) @
           msg_wire INVOKER_MSG_EXIT @ msg_wire (word_of_int status) else []))"
proof -
  have k': "k = MBooster \<Longrightarrow> boot \<or> in_event inc = InvokerConnected" using k by blast
  from initialize_value [OF assms(1-6) k' inc(1,7,6,5) assms(22), where fds = fds]
  obtain m b1 p1 c where m: "fds_ok p \<longrightarrow> smap_ok m" "m = p_fds (preloaded pl k boot p)"
    and init: "initialize pl k (int (length os)) (arg_offsets 0 os) fds s si boot inc w b p
      = Returns (b1, si1, w1, p1)"
    and b1: "b_appData b1 = app_of q (with_peer_creds pl (in_fd inc) (b_appData b))"
      "b_connection b1 = Some (if sends_pid q then c else close_conn c)"
    and c: "ready c" "c_sendPid c = sends_pid q" "c_fd c = in_fd inc"
      "tx (c_sock c) = tx (in_sock inc) @ msg_wire INVOKER_MSG_ACK @
        (if sends_pid q then msg_wire INVOKER_MSG_PID @ msg_wire (word_of_int (p_pid p)) else [])"
    and p1: "p1 = (renamed_for q (shown_args (length (joined os)) (rq_args q) @ rest) (p_sent p @ report_of k inc q) p)
      \<lparr>p_fds := fds_after_request inc q (snd fds) m\<rparr>"
    by blast
  let ?P = "renamed_for q (shown_args (length (joined os)) (rq_args q) @ rest) (p_sent p @ report_of k inc q) p"
  have "smap_ok m" using m(1) assms(1) by (simp add: root_launcher_def)
  note found = fds_after_request_find [OF this inc(8) ds(1,5), of q]
  have root: "root_launcher p1"
    unfolding p1 by (rule root_launcher_renamed [OF assms(1) found(1)])
  have files: "fd_file p1 d0 = Some f0" "fd_file p1 d1 = Some f1" "fd_file p1 d2 = Some f2"
    unfolding p1 by (simp_all add: found(2-4))
  have "distinct [d0, d1, d2]" "rq_args q \<noteq> []"
    using ds(1) inc(1) by (auto simp: incoming_request_def request_ok_def args_ok_def)
  from run_value [OF root b1(1) this(2) inc(3) b1(2) c(1,2) inc(4) this(1) ds(2-4) files ds(6) load]
  obtain r where r: "prepared pl q [f0, f1, f2] p1 r"
    and table: "\<forall>j. j \<notin> {0, 1, 2, d0, d1, d2} \<longrightarrow> fd_file r j =
       (if \<not> sends_pid q \<and> j \<in> snd ` set sm \<and> 0 < j then None else fd_file p1 j)"
    and out: "case run_main pl q e r of (status, r') \<Rightarrow>
      \<exists>b' c'. run pl (Some sm) b1 p1 = Returns (Some [], b', left_behind q (c_fd c) sm r') \<and>
      b_connection b' = Some c' \<and> c_fd c' = -1 \<and> m_argv (b_appData b') = None \<and> tx (c_sock c') = tx (c_sock c) @
        (if sends_pid q then msg_wire INVOKER_MSG_EXIT @ msg_wire (word_of_int status) else [])"
    by (elim exE conjE) (rule that)
  obtain status r' where main: "run_main pl q e r = (status, r')" by (cases "run_main pl q e r")
  with out obtain b2 c2 where run: "run pl (Some sm) b1 p1 = Returns (Some [], b2, left_behind q (in_fd inc) sm r')"
    and c2: "b_connection b2 = Some c2" "c_fd c2 = -1" "m_argv (b_appData b2) = None"
    and tx: "tx (c_sock c2) = msg_wire INVOKER_MSG_ACK @
      (if sends_pid q then msg_wire INVOKER_MSG_PID @ msg_wire (word_of_int (p_pid p)) @
         msg_wire INVOKER_MSG_EXIT @ msg_wire (word_of_int status) else [])"
    using c(3,4) inc(2) by auto
  have "prepared pl q [f0, f1, f2] ?P r" using r unfolding p1 prepared_fds .
  then show ?thesis
    using init run c2 tx main table [unfolded p1 m(2)]
    by (intro exI [of _ b1] exI [of _ p1] exI [of _ r]) auto
qed

text \<open>
  C3. A launch from end to end, with a launcher that runs as root, of a program that can be
  loaded, for any of the three boosters. If the bytes of the invoker's request are what waits at
  the socket a booster accepts (with the three descriptors installed under numbers above 2,
  which are not the booster's own), then \<open>initialize\<close> and \<open>run\<close> both return: no exit, no
  undefined behaviour. In between, \<open>main\<close> of the program is called with the invoker's argument
  vector in a process that is the forked one except as \<open>prepared\<close> and \<open>renamed_for\<close> say: 0, 1
  and 2 are the invoker's files and the received numbers are closed; the environment is the
  invoker's with \<open>_\<close> set; memory and process name show the command line; identity, priority,
  OOM score and working directory are the request's; the daemon's death no longer kills it; and
  it has told the daemon, once, its type, the waiting invoker and the delay.
  Afterwards the connection is closed and has carried exactly what makes the invoker's
  \<open>invoke_remote\<close> return the status of \<open>main\<close>, or 0 at once if it does not wait. The plugin's
  \<open>preload\<close> may open descriptors and change the environment, nothing else.
\<close>

theorem application_runs_for_invoker:
  assumes "root_launcher p" "p_args p = joined os @ rest" "os \<noteq> []" "\<forall>s \<in> set os. is_c_str s"
    and "m_spaceAvailable b = 0" "\<And>j r. only_opens r (populate pl j r)"
    and "k = MBooster \<Longrightarrow> boot \<or> in_event inc = InvokerConnected"
    and "q = (request_of argv prog opts respawn i)\<lparr>rq_fds := [d0, d1, d2]\<rparr>"
    and "can_send i" "rplan (i_sock i) = []" "opts AND INVOKER_MSG_MAGIC_OPTION_MASK = opts"
    and "args_ok argv" "hd argv \<noteq> []" "str_ok prog" "prog \<noteq> []"
    and "args_ok (i_environ i)" "env_ok (c_nomem (in_memory inc)) (i_environ i)"
    and "in_sock inc = \<lparr>rx = request_wire q, tx = [], rplan = [], wplan = []\<rparr>"
    and "0 \<le> in_fd inc" "s \<noteq> -1" "peer_accepted pl (in_fd inc)"
    and "in_installed inc = [(in_fd inc, g), (d0, f0), (d1, f1), (d2, f2)]"
    and "distinct [in_fd inc, d0, d1, d2]" "2 < d0" "2 < d1" "2 < d2"
    and "snd fds \<notin> {d0, d1, d2}" "snd ` set sm \<inter> {d0, d1, d2} = {}"
    and "claim_instance si (app_of q AppData_init) w = Returns (si1, w1)" "loadable pl q e"
  shows "\<exists>b1 p1 r. initialize pl k (int (length os)) (arg_offsets 0 os) fds s si boot inc w b p
      = Returns (b1, si1, w1, p1) \<and>
    prepared pl q [f0, f1, f2]
      (renamed_for q (shown_args (length (joined os)) argv @ rest) (p_sent p @ report_of k inc q) p) r \<and>
    (case run_main pl q e r of (status, r') \<Rightarrow> \<exists>b2 c i'.
      run pl (Some sm) b1 p1 = Returns (Some [], b2, left_behind q (in_fd inc) sm r') \<and>
      b_connection b2 = Some c \<and> c_fd c = -1 \<and>
      invoke_remote argv (Some prog) opts (sends_pid q) respawn
          (i\<lparr>i_sock := (i_sock i)\<lparr>rx := tx (c_sock c)\<rparr>\<rparr>)
        = Returns (if sends_pid q then sint (word_of_int status :: u32) else 0, i'))"
proof -
  have q: "rq_args q = argv" "rq_exec q = prog" "rq_environ q = i_environ i" "rq_fds q = [d0, d1, d2]"
    using assms(8) by (simp_all add: request_of_def)
  have "request_ok q"
    using request_okI [OF assms(11-14,16), of respawn] assms(8) by (simp add: request_ok_def)
  then have inc: "incoming_request inc q" "tx (in_sock inc) = []" "rq_exec q \<noteq> []"
    "env_ok (c_nomem (in_memory inc)) (rq_environ q)" "argv \<noteq> []"
    using assms(12,15,17-19) q by (auto simp: incoming_request_def args_ok_def)
  have k: "k = MBooster \<longrightarrow> boot \<or> in_event inc = InvokerConnected" using assms(7) by blast
  obtain b1 p1 r where l: "initialize pl k (int (length os)) (arg_offsets 0 os) fds s si boot inc w b p
      = Returns (b1, si1, w1, p1)" "prepared pl q [f0, f1, f2]
      (renamed_for q (shown_args (length (joined os)) (rq_args q) @ rest) (p_sent p @ report_of k inc q) p) r"
    and run: "case run_main pl q e r of (status, r') \<Rightarrow> \<exists>b2 c.
      run pl (Some sm) b1 p1 = Returns (Some [], b2, left_behind q (in_fd inc) sm r') \<and>
      b_connection b2 = Some c \<and> c_fd c = -1 \<and> m_argv (b_appData b2) = None \<and> tx (c_sock c) = msg_wire INVOKER_MSG_ACK @
        (if sends_pid q then msg_wire INVOKER_MSG_PID @ msg_wire (word_of_int (p_pid p)) @
           msg_wire INVOKER_MSG_EXIT @ msg_wire (word_of_int status) else [])"
    using launch_value [OF assms(1-6) k inc(1-3) q(4) inc(4) assms(20-30)]
    by (elim exE conjE) (rule that)
  obtain status r' where main: "run_main pl q e r = (status, r')" by (cases "run_main pl q e r")
  with run obtain b2 c where r: "run pl (Some sm) b1 p1 = Returns (Some [], b2, left_behind q (in_fd inc) sm r')"
    "b_connection b2 = Some c" "c_fd c = -1" and tx: "tx (c_sock c) = msg_wire INVOKER_MSG_ACK @
        (if sends_pid q then msg_wire INVOKER_MSG_PID @ msg_wire (word_of_int (p_pid p)) @
           msg_wire INVOKER_MSG_EXIT @ msg_wire (word_of_int status) else [])" by auto
  obtain i' where "invoke_remote argv (Some prog) opts (sends_pid q) respawn
      (i\<lparr>i_sock := (i_sock i)\<lparr>rx := tx (c_sock c)\<rparr>\<rparr>)
      = Returns (if sends_pid q then sint (word_of_int status :: u32) else 0, i')"
    unfolding tx using invoke_remote_answered [OF assms(9) inc(5) assms(10)] by blast
  with l [unfolded q(1)] r main show ?thesis
    by (intro exI [of _ b1] exI [of _ p1] exI [of _ r] conjI) auto
qed

definition launch_platform :: platform where
  "launch_platform = example_platform\<lparr>app_main := (\<lambda>_ _ _ p. (7, p))\<rparr>"

definition launch_request :: request where
  "launch_request = (request_of [''app'', ''-x''] ''/bin/app'' 1 3 (example_invoker []))\<lparr>rq_fds := [10, 11, 12]\<rparr>"

definition launch_incoming :: incoming where
  "launch_incoming = example_incoming\<lparr>in_sock := \<lparr>rx = request_wire launch_request, tx = [], rplan = [], wplan = []\<rparr>\<rparr>"

lemma launch_request_fields:
  "rq_args launch_request = [''app'', ''-x'']" "rq_exec launch_request = ''/bin/app''"
  "sends_pid launch_request" "rq_options launch_request = 1"
  by (simp_all add: launch_request_def request_of_def sends_pid_def option_defs)

lemma launch_platform_fields:
  "peer_accepted launch_platform fd" "only_opens r (populate launch_platform j r)"
  "loadable launch_platform launch_request 2"
  "app_main launch_platform e n a r = (7, r)"
  by (simp_all add: launch_platform_def example_platform_def peer_accepted_def only_opens_def
      loadable_def launch_request_fields)

lemma launch_proc: "root_launcher example_proc" "\<forall>s \<in> set [''applauncherd'', ''--boot-mode'']. is_c_str s"
  by (simp_all add: root_launcher_def example_proc_def fds_ok_def smap_ok_def)

lemma launch_incoming_fields:
  "in_fd launch_incoming = 9" "in_event launch_incoming = InvokerConnected"
  "in_sock launch_incoming = \<lparr>rx = request_wire launch_request, tx = [], rplan = [], wplan = []\<rparr>"
  "in_installed launch_incoming = [(9, 90), (10, 70), (11, 71), (12, 72)]"
  "\<not> c_nomem (in_memory launch_incoming) v"
  by (simp_all add: launch_incoming_def example_incoming_def example_connection_def)

lemma launch_claim: "claim_instance None (app_of q AppData_init) w = Returns (None, w)"
  by (simp add: claim_instance_def)

theorem application_runs_for_invoker_witness:
  "\<exists>b1 p1 b2 p2 c i'. initialize launch_platform MBooster 2 (arg_offsets 0 [''applauncherd'', ''--boot-mode''])
      (5, 6) 4 None True launch_incoming () (Booster_example 0) example_proc = Returns (b1, None, (), p1) \<and>
    run launch_platform (Some [(''/tmp/boostm'', 3)]) b1 p1 = Returns (Some [], b2, p2) \<and>
    b_connection b2 = Some c \<and> c_fd c = -1 \<and>
    invoke_remote [''app'', ''-x''] (Some ''/bin/app'') 1 True 3
      ((example_invoker [])\<lparr>i_sock := (i_sock (example_invoker []))\<lparr>rx := tx (c_sock c)\<rparr>\<rparr>) = Returns (7, i')"
proof -
  have opts: "(1 :: u32) AND INVOKER_MSG_MAGIC_OPTION_MASK = 1" by (simp add: option_defs)
  have ok: "args_ok [''app'', ''-x'']" "str_ok ''/bin/app''" "args_ok (i_environ (example_invoker []))"
    "env_ok (c_nomem (in_memory launch_incoming)) (i_environ (example_invoker []))"
    by (simp_all add: args_ok_def str_ok_def env_ok_def launch_incoming_fields putenv_sanitize_def env_name_def)
  show ?thesis
    using application_runs_for_invoker [OF launch_proc(1) example_args _ launch_proc(2) _ launch_platform_fields(2)
        _ launch_request_def _ _ opts ok(1) _ ok(2) _ ok(3,4) launch_incoming_fields(3) _ _ launch_platform_fields(1)
        _ _ _ _ _ _ _ launch_claim launch_platform_fields(3),
        of "Booster_example 0" MBooster True 4 90 70 71 72 "(5, 6)" "[(''/tmp/boostm'', 3)]" "()"]
    by (force simp: launch_incoming_fields launch_platform_fields launch_request_fields Booster_example_def)
qed

end
