(* ===== verification/Applications.thy ===== *)
theory Applications
  imports Daemon_Turns
begin

text \<open>
  The daemon together with what its children are: boosters that wait, and the applications they
  have become. The daemon only knows pids and reports; here every child has its role, and every
  report in the pipe its sender. The steps are those of Daemon_System, except that only a waiting
  booster reports, once, when it becomes an application, and that no process ends while its own
  report is unread (Daemon_Pipe shows what goes wrong otherwise).
\<close>

subsection \<open>Roles and steps\<close>

text \<open>
  A booster that waits for an invoker; a process that has become an application of a booster
  type, with the pid it reported: the invoker's, or 0 if the invoker does not wait.
\<close>

datatype role = Waiting char | Launched char int

record apps =
  a_daemon :: daemon
  a_role :: "int \<Rightarrow> role"
  a_unread :: "(int \<times> char \<times> u32 \<times> u32) list"

text \<open>The children forked in a turn are boosters of the type the daemon has noted for them.\<close>

definition roles_after :: "daemon \<Rightarrow> daemon \<Rightarrow> (int \<Rightarrow> role) \<Rightarrow> int \<Rightarrow> role" where
  "roles_after d d' f c =
     (if c \<in> set (m_children d') \<and> c \<notin> set (m_children d) then Waiting (boosterTypeForPid c d') else f c)"

definition reads_report :: "ready_fds option \<Rightarrow> bool" where
  "reads_report sel = (case sel of None \<Rightarrow> False | Some r \<Rightarrow> booster_ready r)"

inductive app_step :: "apps \<Rightarrow> apps \<Rightarrow> bool" where
  process_ends: "c \<in> set (m_children d) \<Longrightarrow> smap_find (d_ended d) c = None \<Longrightarrow> c \<notin> fst ` set u \<Longrightarrow>
     app_step \<lparr>a_daemon = d, a_role = f, a_unread = u\<rparr>
       \<lparr>a_daemon = d\<lparr>d_ended := smap_set c st (d_ended d)\<rparr>, a_role = f, a_unread = u\<rparr>"
| launches: "c \<in> set (m_children d) \<Longrightarrow> smap_find (d_ended d) c = None \<Longrightarrow> f c = Waiting t \<Longrightarrow>
     app_step \<lparr>a_daemon = d, a_role = f, a_unread = u\<rparr>
       \<lparr>a_daemon = d\<lparr>d_pipe := (d_pipe d)\<lparr>rx := rx (d_pipe d) @ reports [(t, p, w)]\<rparr>\<rparr>,
        a_role = f(c := Launched t (sint p)), a_unread = u @ [(c, t, p, w)]\<rparr>"
| pids_granted: "distinct ps \<Longrightarrow> \<forall>p \<in> set ps. 0 < p \<and> p \<notin> set (d_kernel d) \<Longrightarrow>
     app_step \<lparr>a_daemon = d, a_role = f, a_unread = u\<rparr>
       \<lparr>a_daemon = d\<lparr>d_forks := ps\<rparr>, a_role = f, a_unread = u\<rparr>"
| turns: "main_iteration sel d = Returns d' \<Longrightarrow>
     app_step \<lparr>a_daemon = d, a_role = f, a_unread = u\<rparr>
       \<lparr>a_daemon = d', a_role = roles_after d d' f, a_unread = (if reads_report sel then tl u else u)\<rparr>"

text \<open>A launcher that has just started: its children are the boosters it has forked.\<close>

definition apps_started :: "apps \<Rightarrow> bool" where
  "apps_started w \<longleftrightarrow> started (a_daemon w) \<and> registry_ok (d_registry (a_daemon w)) \<and> a_unread w = [] \<and>
     (\<forall>c. a_role w c = Waiting (boosterTypeForPid c (a_daemon w)))"

subsection \<open>The books of the daemon agree with the roles\<close>

text \<open>
  A process counts as booster of its type until its report is read; from then on, if its
  invoker waits, the daemon has noted it.
\<close>

definition accounted :: "daemon \<Rightarrow> (int \<Rightarrow> role) \<Rightarrow> int set \<Rightarrow> int \<Rightarrow> bool" where
  "accounted d f unread c = (case f c of
       Waiting t \<Rightarrow> smap_find (m_boosterTypeToPid d) t = Some c \<and> smap_find (m_boosterPidToInvokerPid d) c = None
     | Launched t i \<Rightarrow> if c \<in> unread
         then smap_find (m_boosterTypeToPid d) t = Some c \<and> smap_find (m_boosterPidToInvokerPid d) c = None
         else (\<forall>t. smap_find (m_boosterTypeToPid d) t \<noteq> Some c) \<and>
           smap_find (m_boosterPidToInvokerPid d) c = (if i = 0 then None else Some i))"

definition apps_ok :: "daemon \<Rightarrow> (int \<Rightarrow> role) \<Rightarrow> (int \<times> char \<times> u32 \<times> u32) list \<Rightarrow> bool" where
  "apps_ok d f u \<longleftrightarrow> system_inv d \<and> rx (d_pipe d) = reports (map snd u) \<and> distinct (map fst u) \<and>
     (\<forall>c \<in> set (m_children d). accounted d f (fst ` set u) c) \<and>
     (\<forall>(c, t, p, w) \<in> set u. c \<in> set (m_children d) \<and> smap_find (d_ended d) c = None \<and> f c = Launched t (sint p))"

lemma apps_okD:
  assumes "apps_ok d f u"
  shows "system_inv d" "pids_ok d" "maps_ok d" "forks_fresh d" "daemon_inv d"
    "rx (d_pipe d) = reports (map snd u)" "distinct (map fst u)"
    "c \<in> set (m_children d) \<Longrightarrow> accounted d f (fst ` set u) c"
    "(c, t, p, s) \<in> set u \<Longrightarrow> c \<in> set (m_children d) \<and> smap_find (d_ended d) c = None \<and> f c = Launched t (sint p)"
  using assms by (auto simp: apps_ok_def system_inv_def daemon_inv_def)

lemma apps_okI:
  assumes "system_inv d" "rx (d_pipe d) = reports (map snd u)" "distinct (map fst u)"
    and "\<And>c. c \<in> set (m_children d) \<Longrightarrow> accounted d f (fst ` set u) c"
    and "\<And>c t p s. (c, t, p, s) \<in> set u \<Longrightarrow>
      c \<in> set (m_children d) \<and> smap_find (d_ended d) c = None \<and> f c = Launched t (sint p)"
  shows "apps_ok d f u"
  using assms unfolding apps_ok_def by blast

text \<open>Only the roles of children matter.\<close>

lemma accounted_cong:
  "f c = f' c \<Longrightarrow> m_boosterTypeToPid d = m_boosterTypeToPid d' \<Longrightarrow>
     smap_find (m_boosterPidToInvokerPid d) c = smap_find (m_boosterPidToInvokerPid d') c \<Longrightarrow>
     c \<in> u \<longleftrightarrow> c \<in> u' \<Longrightarrow> accounted d f u c = accounted d' f' u' c"
  by (cases "f' c") (simp_all add: accounted_def)

lemma apps_ok_roles:
  assumes "apps_ok d f u" "\<forall>c \<in> set (m_children d). f' c = f c"
  shows "apps_ok d f' u"
proof -
  have "accounted d f' (fst ` set u) c = accounted d f (fst ` set u) c" if "c \<in> set (m_children d)" for c
    using assms(2) that by (intro accounted_cong) auto
  with assms show ?thesis unfolding apps_ok_def by (fastforce split: prod.splits)
qed

text \<open>A new booster takes over the type; whoever had it is no longer accounted for, all others are.\<close>

lemma fork_accounts:
  assumes f: "forkBooster t s d = Returns d'" "smap_ok (m_boosterTypeToPid d)"
  shows "\<exists>pid pids. d_forks d = pid # pids \<and> d_forks d' = pids \<and> m_children d' = m_children d @ [pid] \<and>
    d_kernel d' = d_kernel d @ [pid] \<and> d_ended d' = d_ended d \<and> d_pipe d' = d_pipe d \<and>
    m_boosterPidToInvokerPid d' = m_boosterPidToInvokerPid d \<and> d_kills d' = d_kills d \<and> m_bootMode d' = m_bootMode d \<and>
    (\<forall>k. smap_find (m_boosterTypeToPid d') k = (if k = t then Some pid else smap_find (m_boosterTypeToPid d) k)) \<and>
    (smap_find (m_boosterPidToInvokerPid d) pid = None \<longrightarrow> accounted d' (g(pid := Waiting t)) u pid) \<and>
    (\<forall>x. x \<noteq> pid \<longrightarrow> smap_find (m_boosterTypeToPid d) t \<noteq> Some x \<longrightarrow> accounted d g u x \<longrightarrow>
       accounted d' (g(pid := Waiting t)) u x)"
proof -
  obtain pid pids where p: "d_forks d = pid # pids" "d_forks d' = pids" "m_children d' = m_children d @ [pid]"
    "d_kernel d' = d_kernel d @ [pid]" "d_ended d' = d_ended d" "d_pipe d' = d_pipe d"
    "m_boosterPidToInvokerPid d' = m_boosterPidToInvokerPid d" "d_kills d' = d_kills d" "m_bootMode d' = m_bootMode d"
    "\<And>k. smap_find (m_boosterTypeToPid d') k = (if k = t then Some pid else smap_find (m_boosterTypeToPid d) k)"
    using forkBooster_pid [OF f] by metis
  have "accounted d' (g(pid := Waiting t)) u x"
    if "x \<noteq> pid" "smap_find (m_boosterTypeToPid d) t \<noteq> Some x" "accounted d g u x" for x
    using that p(7,10) by (auto simp: accounted_def split: role.splits if_splits)
  moreover have "accounted d' (g(pid := Waiting t)) u pid" if "smap_find (m_boosterPidToInvokerPid d) pid = None"
    using that p(7,10) by (simp add: accounted_def)
  ultimately show ?thesis using p by (intro exI [of _ pid] exI [of _ pids]) simp
qed

text \<open>Of the roles after some forks: old children keep theirs, new ones wait and have new pids.\<close>

definition roles_follow :: "daemon \<Rightarrow> daemon \<Rightarrow> (int \<Rightarrow> role) \<Rightarrow> (int \<Rightarrow> role) \<Rightarrow> bool" where
  "roles_follow d d' f f' \<longleftrightarrow> set (d_forks d') \<subseteq> set (d_forks d) \<and>
     (\<forall>c \<in> set (m_children d'). if c \<in> set (m_children d) then f' c = f c
        else c \<in> set (d_forks d) \<and> (\<exists>t. f' c = Waiting t))"

lemma roles_follow_trans:
  assumes "roles_follow d d1 f f1" "roles_follow d1 d2 f1 f2" "pids_ok d" "forks_fresh d"
  shows "roles_follow d d2 f f2"
proof -
  have "c \<notin> set (d_forks d)" if "c \<in> set (m_children d)" for c
    using that assms(3,4) by (auto simp: pids_ok_def forks_fresh_def)
  with assms(1,2) show ?thesis unfolding roles_follow_def by (metis subsetD subset_trans)
qed

lemma roles_follow_refl: "roles_follow d d f f"
  by (simp add: roles_follow_def)

lemma roles_follow_after:
  assumes "roles_follow d d' f f'" "apps_ok d' f' u"
  shows "apps_ok d' (roles_after d d' f) u"
proof (rule apps_ok_roles [OF assms(2)], rule ballI)
  fix c
  assume c: "c \<in> set (m_children d')"
  note ok = apps_okD [OF assms(2)]
  show "roles_after d d' f c = f' c"
  proof (cases "c \<in> set (m_children d)")
    case True
    then show ?thesis using assms(1) c by (simp add: roles_after_def roles_follow_def)
  next
    case False
    then obtain t where t: "f' c = Waiting t" using assms(1) c unfolding roles_follow_def by metis
    then have "smap_find (m_boosterTypeToPid d') t = Some c" using ok(8) [OF c] by (simp add: accounted_def)
    then have "boosterTypeForPid c d' = t" using boosterTypeForPid_iff [OF ok(3)] by blast
    with t c False show ?thesis by (simp add: roles_after_def)
  qed
qed

text \<open>Reading the report of the oldest unread: its sender becomes an application in the books.\<close>

lemma read_apps_ok:
  assumes ok: "apps_ok d f u" and r: "readFromBoosterPipe d = Returns d'"
  shows "\<exists>f'. apps_ok d' f' (tl u) \<and> roles_follow d d' f f' \<and> d_kills d' = d_kills d \<and>
    d_ended d' = d_ended d \<and> m_bootMode d' = m_bootMode d \<and>
    (\<exists>new. m_children d' = m_children d @ new \<and> set new \<inter> set (d_kernel d) = {})"
proof (cases u)
  case Nil
  then have "rx (d_pipe d) = []" using apps_okD(6) [OF ok] by simp
  moreover have "pipe_ok d" using apps_okD(1) [OF ok] by (simp add: system_inv_def)
  ultimately have "d' = d"
    using r by (cases rule: readFromBoosterPipe_value [OF \<open>pipe_ok d\<close>]) (auto simp: report_bytes_def plain_def)
  then show ?thesis using ok Nil roles_follow_refl by auto
next
  case (Cons e rest)
  obtain c t p s where e: "e = (c, t, p, s)" by (cases e)
  note inv = apps_okD [OF ok]
  have c: "c \<in> set (m_children d)" "smap_find (d_ended d) c = None" "f c = Launched t (sint p)"
    using inv(9) [of c t p s] Cons e by simp_all
  have acc: "smap_find (m_boosterTypeToPid d) t = Some c" "smap_find (m_boosterPidToInvokerPid d) c = None"
    using inv(8) [OF c(1)] c(3) Cons e by (simp_all add: accounted_def)
  have pos: "0 < c" using c(1) pids_okD(2,5) [OF inv(2)] by blast
  let ?n = "note_invoker t (sint p) d"
  let ?d = "?n\<lparr>d_pipe := (d_pipe d)\<lparr>rx := reports (map snd rest)\<rparr>\<rparr>"
  have rx: "rx (d_pipe d) = plain (report_bytes t p s) @ reports (map snd rest)"
    using inv(6) Cons e by simp
  have plan: "rplan (d_pipe d) = []" using inv(1) by (simp add: system_inv_def pipe_ok_def)
  have fork: "forkBooster t (sint s) ?d = Returns d'"
    using r readFromBoosterPipe_report [OF plan rx] by simp
  have t: "boosterPidForType t d = c" using acc(1) by (simp add: boosterPidForType_def)
  have noted: "smap_find (m_boosterPidToInvokerPid ?n) x =
      (if x = c \<and> sint p \<noteq> 0 then Some (sint p) else smap_find (m_boosterPidToInvokerPid d) x)" for x
    using pos maps_okD(2) [OF inv(3)] by (simp add: note_invoker_def t smap_simps)
  have "smap_ok (m_boosterTypeToPid ?d)" using maps_okD(1) [OF inv(3)] by simp
  from fork_accounts [OF fork this, of f "fst ` set rest"]
  obtain pid pids where p: "d_forks d = pid # pids" "d_forks d' = pids" "m_children d' = m_children d @ [pid]"
    "d_kernel d' = d_kernel d @ [pid]" "d_ended d' = d_ended d" "d_pipe d' = d_pipe ?d"
    "m_boosterPidToInvokerPid d' = m_boosterPidToInvokerPid ?n"
    and types: "\<forall>k. smap_find (m_boosterTypeToPid d') k = (if k = t then Some pid else smap_find (m_boosterTypeToPid d) k)"
    and new: "smap_find (m_boosterPidToInvokerPid ?n) pid = None \<longrightarrow> accounted d' (f(pid := Waiting t)) (fst ` set rest) pid"
    and old: "\<forall>x. x \<noteq> pid \<longrightarrow> smap_find (m_boosterTypeToPid d) t \<noteq> Some x \<longrightarrow>
      accounted ?d f (fst ` set rest) x \<longrightarrow> accounted d' (f(pid := Waiting t)) (fst ` set rest) x"
    by (elim exE conjE) (rule that; simp)
  have fresh: "pid \<notin> set (d_kernel d)" "pid \<notin> set (m_children d)"
    using p(1) inv(2,4) by (auto simp: forks_fresh_def pids_ok_def)
  let ?f = "f(pid := Waiting t)"
  have dist: "c \<notin> fst ` set rest" "distinct (map fst rest)"
    using inv(7) Cons e by (auto simp: image_iff)
  have inv': "system_inv d'" by (rule readFromBoosterPipe_inv [OF inv(1) r])
  have free: "pid \<noteq> c" "smap_find (m_boosterPidToInvokerPid d) pid = None"
    using fresh(2) c(1) maps_okD(5) [OF inv(3), of pid] by blast+
  have "smap_find (m_boosterTypeToPid d') k \<noteq> Some c" for k
    unfolding types [rule_format] using free(1) maps_okD(4) [OF inv(3) acc(1), of k] by (auto split: if_splits)
  moreover have "smap_find (m_boosterPidToInvokerPid d') c = (if sint p = 0 then None else Some (sint p))"
    unfolding p(7) noted using acc(2) by simp
  ultimately have "accounted d' ?f (fst ` set rest) c"
    using c(3) dist(1) free(1) by (simp add: accounted_def)
  moreover have "accounted d' ?f (fst ` set rest) pid" using new noted [of pid] free by simp
  moreover have "accounted d' ?f (fst ` set rest) x" if x: "x \<in> set (m_children d)" "x \<noteq> c" for x
  proof (rule old [rule_format])
    show "x \<noteq> pid" using x fresh(2) by blast
    show "smap_find (m_boosterTypeToPid d) t \<noteq> Some x" using acc(1) x(2) by simp
    have "accounted d f (fst ` set u) x" by (rule inv(8) [OF x(1)])
    moreover have "x \<in> fst ` set u \<longleftrightarrow> x \<in> fst ` set rest" using Cons e x(2) by auto
    ultimately show "accounted ?d f (fst ` set rest) x"
      using noted [of x] x(2) by (subst accounted_cong [of f x f _ d _ "fst ` set u"]) simp_all
  qed
  ultimately have "\<forall>x \<in> set (m_children d'). accounted d' ?f (fst ` set rest) x" unfolding p(3) by auto
  moreover have "x \<in> set (m_children d') \<and> smap_find (d_ended d') x = None \<and> ?f x = Launched k (sint i)"
    if "(x, k, i, l) \<in> set rest" for x k i l
    using inv(9) [of x k i l] that Cons fresh(2) unfolding p(3,5) by auto
  moreover have "rx (d_pipe d') = reports (map snd rest)" by (simp add: p(6))
  ultimately have "apps_ok d' ?f (tl u)"
    unfolding Cons list.sel using inv' dist(2) by (intro apps_okI) blast+
  moreover have "roles_follow d d' f ?f"
    using fresh(2) unfolding roles_follow_def p(1-3) by auto
  moreover have "d_kills d' = d_kills d" "m_bootMode d' = m_bootMode d"
    using fork by (auto simp: forkBooster_Returns)
  ultimately show ?thesis using p(3,5) fresh(1) by auto
qed

text \<open>Reaping a child: a dead booster is replaced, a dead application is forgotten.\<close>

lemma bury_system_inv:
  assumes "system_inv d" "c \<in> set (m_children d)" "smap_find (d_ended d) c = Some st" "reap_child c d = Returns d'"
  shows "system_inv d'"
proof -
  have inv: "daemon_inv d" "pipe_ok d" "served d" using assms(1) by (simp_all add: system_inv_def)
  note dead = reap_child_dead_inv [OF inv(1) assms(2-4)]
  then show ?thesis using inv by (simp add: system_inv_def pipe_ok_def served_def)
qed

lemma reap_child_apps_ok:
  assumes ok: "apps_ok d f u" and c: "c \<in> set (m_children d)" and r: "reap_child c d = Returns d'"
  shows "\<exists>f'. apps_ok d' f' u \<and> roles_follow d d' f f'"
proof (cases "smap_find (d_ended d) c")
  case None
  have "c \<in> set (d_kernel d)" using c pids_okD(2) [OF apps_okD(2) [OF ok]] by blast
  then have "d' = d" using r reap_child_alive [OF _ None] by simp
  then show ?thesis using ok roles_follow_refl by blast
next
  case (Some st)
  note inv = apps_okD [OF ok]
  let ?b = "bury c st d"
  let ?U = "fst ` set u"
  have k: "c \<in> set (d_kernel d)" "0 < c" using pids_okD(2,5) [OF inv(2)] c by auto
  have restart: "restart_booster c ?b = Returns d'" using r by (simp add: reap_child_dead [OF k(1) Some k(2)])
  have out: "c \<notin> ?U" using inv(9) [of c] Some by fastforce
  have inv': "system_inv d'" by (rule bury_system_inv [OF inv(1) c Some r])
  have ch: "set (remove1 c (m_children d)) = set (m_children d) - {c}"
    using pids_okD(1) [OF inv(2)] by (simp add: set_remove1_eq)
  have e: "smap_find (d_ended ?b) x = (if x = c then None else smap_find (d_ended d) x)" for x
    using pids_okD(4) [OF inv(2)] by (simp add: smap.find_erase)
  note inq = bury_invokers [OF maps_okD(2) [OF inv(3)], of c st]
  have left: "accounted ?b f ?U x" if "x \<in> set (m_children d)" "x \<noteq> c" for x
    using inv(8) [OF that(1)] inq that(2) by (subst accounted_cong [of f x f _ d _ ?U]) simp_all
  have unread: "x \<in> set (m_children d) - {c} \<and> smap_find (d_ended ?b) x = None \<and> f x = Launched t (sint p)"
    if "(x, t, p, s) \<in> set u" for x t p s
    using inv(9) [OF that] e Some by auto
  show ?thesis
  proof (cases "f c")
    case (Waiting t)
    have t: "smap_find (m_boosterTypeToPid d) t = Some c"
      using inv(8) [OF c] Waiting by (simp add: accounted_def)
    then have "boosterTypeForPid c d = t" "t \<noteq> NUL" using boosterTypeForPid_iff [OF inv(3)] by blast+
    then have fork: "forkBooster t m_boosterSleepTime ?b = Returns d'"
      using restart by (simp add: restart_booster_def boosterTypeForPid_def)
    have "smap_ok (m_boosterTypeToPid ?b)" using maps_okD(1) [OF inv(3)] by simp
    from fork_accounts [OF fork this, of f ?U]
    obtain pid pids where p: "d_forks ?b = pid # pids" "d_forks d' = pids" "m_children d' = m_children ?b @ [pid]"
      "d_ended d' = d_ended ?b" "d_pipe d' = d_pipe ?b"
      and new: "smap_find (m_boosterPidToInvokerPid ?b) pid = None \<longrightarrow> accounted d' (f(pid := Waiting t)) ?U pid"
      and old: "\<forall>x. x \<noteq> pid \<longrightarrow> smap_find (m_boosterTypeToPid ?b) t \<noteq> Some x \<longrightarrow> accounted ?b f ?U x \<longrightarrow>
        accounted d' (f(pid := Waiting t)) ?U x"
      by (elim exE conjE) (rule that)
    have fresh: "pid \<notin> set (m_children d)" using p(1) inv(2,4) by (auto simp: forks_fresh_def pids_ok_def)
    then have "smap_find (m_boosterPidToInvokerPid d) pid = None" using maps_okD(5) [OF inv(3), of pid] by blast
    then have "smap_find (m_boosterPidToInvokerPid ?b) pid = None" using inq by simp
    then have "accounted d' (f(pid := Waiting t)) ?U x" if x: "x \<in> set (m_children d')" for x
    proof (cases "x = pid")
      case False
      then have "x \<in> set (m_children d)" "x \<noteq> c" using x unfolding p(3) bury_fields set_append ch by auto
      with False t old left [OF this] show ?thesis by simp
    qed (use new in simp)
    moreover have "x \<in> set (m_children d') \<and> smap_find (d_ended d') x = None \<and> (f(pid := Waiting t)) x = Launched k (sint i)"
      if "(x, k, i, l) \<in> set u" for x k i l
      using unread [OF that] fresh unfolding p(3,4) bury_fields(1) set_append ch by auto
    moreover have "rx (d_pipe d') = reports (map snd u)" using inv(6) by (simp add: p(5))
    ultimately have "apps_ok d' (f(pid := Waiting t)) u" using inv' inv(7) by (intro apps_okI) blast+
    moreover have "roles_follow d d' f (f(pid := Waiting t))"
      using fresh p(1,2) unfolding roles_follow_def p(3) bury_fields set_append ch by auto
    ultimately show ?thesis by blast
  next
    case (Launched t i)
    then have "\<forall>t. smap_find (m_boosterTypeToPid d) t \<noteq> Some c"
      using inv(8) [OF c] out by (simp add: accounted_def)
    then have "boosterTypeForPid c d = NUL" using boosterTypeForPid_iff [OF inv(3), of c] by blast
    then have d': "d' = ?b" using restart by (simp add: restart_booster_def boosterTypeForPid_def)
    have "apps_ok d' f u"
    proof (rule apps_okI)
      show "accounted d' f ?U x" if "x \<in> set (m_children d')" for x
        using that left unfolding d' bury_fields ch by blast
      show "x \<in> set (m_children d') \<and> smap_find (d_ended d') x = None \<and> f x = Launched k (sint i)"
        if "(x, k, i, l) \<in> set u" for x k i l
        using unread [OF that] unfolding d' bury_fields(1) ch by blast
    qed (use inv' inv(6,7) d' in simp_all)
    moreover have "roles_follow d d' f f" unfolding roles_follow_def d' bury_fields ch by auto
    ultimately show ?thesis by blast
  qed
qed

lemma reap_pass_apps_ok:
  assumes "apps_ok d f u" "reap_pass cs d = Returns d'" "distinct cs" "set cs \<subseteq> set (m_children d)"
  shows "\<exists>f'. apps_ok d' f' u \<and> roles_follow d d' f f'"
  using assms
proof (induction cs arbitrary: d f)
  case Nil
  then show ?case using roles_follow_refl by auto
next
  case (Cons c cs)
  from Cons.prems(2) obtain d1 where r: "reap_child c d = Returns d1" "reap_pass cs d1 = Returns d'"
    by (auto simp: and_then_eq_Returns)
  note inv = apps_okD [OF Cons.prems(1)]
  have c: "c \<in> set (m_children d)" using Cons.prems(4) by simp
  obtain f1 where f1: "apps_ok d1 f1 u" "roles_follow d d1 f f1"
    using reap_child_apps_ok [OF Cons.prems(1) c r(1)] by blast
  have "set cs \<subseteq> set (m_children d1)"
    using Cons.prems(3,4) reap_child_step(2) [OF inv(5) c r(1)] by auto
  then obtain f2 where "apps_ok d' f2 u" "roles_follow d1 d' f1 f2"
    using Cons.IH [OF f1(1) r(2)] Cons.prems(3) by auto
  then show ?case using roles_follow_trans [OF f1(2) _ inv(2,4)] by blast
qed

subsection \<open>A turn of the loop\<close>

lemma apps_ok_kills: "apps_ok (d\<lparr>m_bootMode := m, d_kills := ks\<rparr>) f u = apps_ok d f u"
proof -
  have "accounted (d\<lparr>m_bootMode := m, d_kills := ks\<rparr>) f U c = accounted d f U c" for U c
    by (rule accounted_cong) simp_all
  then show ?thesis by (simp add: apps_ok_def system_inv_kills)
qed

lemma reap_child_mode: "reap_child c d = Returns d' \<Longrightarrow> m_bootMode d' = m_bootMode d"
  by (auto simp: reap_child_def sys_waitpid_def restart_booster_def forkBooster_Returns forward_signal_def
      sys_kill_def Let_def split: prod.splits if_splits option.splits wait_status.splits)

lemma reap_pass_mode: "reap_pass cs d = Returns d' \<Longrightarrow> m_bootMode d' = m_bootMode d"
  by (induction cs arbitrary: d) (auto simp: and_then_eq_Returns dest!: reap_child_mode)

lemma enterNormalMode_apps_ok: "apps_ok d f u \<Longrightarrow> apps_ok (enterNormalMode d) f u"
  using enterNormalMode_frame [of d] apps_ok_kills by auto

text \<open>What the invoker of an ended process is told: the signal, if it waits for an application.\<close>

definition death_note :: "daemon \<Rightarrow> (int \<Rightarrow> role) \<Rightarrow> int \<Rightarrow> (int \<times> int) list" where
  "death_note d f c = (case smap_find (d_ended d) c of
       Some (Signaled s) \<Rightarrow> (case f c of Launched t i \<Rightarrow> if i = 0 then [] else [(i, s)] | Waiting t \<Rightarrow> [])
     | _ \<Rightarrow> [])"

lemma forwarded_note:
  assumes "apps_ok d f u" "c \<in> set (m_children d)"
  shows "forwarded d c = death_note d f c"
proof (cases "smap_find (d_ended d) c")
  case None
  then show ?thesis by (simp add: forwarded_def death_note_def)
next
  case (Some st)
  have "c \<notin> fst ` set u" using apps_okD(9) [OF assms(1), of c] Some by fastforce
  with apps_okD(8) [OF assms] Some show ?thesis
    by (auto simp: forwarded_def death_note_def accounted_def split: role.splits wait_status.splits if_splits)
qed

lemma turn_apps:
  assumes ok: "apps_ok d f u" and turn: "main_iteration (Some r) d = Returns d'"
  shows "apps_ok d' (roles_after d d' f) (if booster_ready r then tl u else u)"
    "sigChld_ready r \<Longrightarrow> \<forall>c \<in> set (m_children d'). smap_find (d_ended d') c = None"
    "\<exists>ks. d_kills d' = d_kills d @ (if sigChld_ready r then concat (map (death_note d f) (m_children d)) else []) @ ks \<and>
       (sigUsr1_ready r \<and> m_bootMode d \<or> ks = []) \<and> snd ` set ks \<subseteq> {SIGTERM}"
proof -
  let ?u = "if booster_ready r then tl u else u"
  obtain d1 d2 where 1: "(if booster_ready r then readFromBoosterPipe d else Returns d) = Returns d1"
    and 2: "(if sigChld_ready r then reapZombies d1 else Returns d1) = Returns d2"
    and 3: "d' = (if sigUsr1_ready r then enterNormalMode d2 else d2)"
    using turn by (rule main_iteration_stages)
  note inv = apps_okD [OF ok]
  have "\<exists>f1. apps_ok d1 f1 ?u \<and> roles_follow d d1 f f1 \<and> d_kills d1 = d_kills d \<and> d_ended d1 = d_ended d \<and>
      m_bootMode d1 = m_bootMode d \<and> (\<exists>new. m_children d1 = m_children d @ new \<and> set new \<inter> set (d_kernel d) = {})"
  proof (cases "booster_ready r")
    case True
    with 1 read_apps_ok [OF ok, of d1] show ?thesis by simp
  next
    case False
    with 1 ok roles_follow_refl [of d f] show ?thesis by auto
  qed
  then obtain f1 new where f1: "apps_ok d1 f1 ?u" "roles_follow d d1 f f1"
    and d1: "d_kills d1 = d_kills d" "d_ended d1 = d_ended d" "m_bootMode d1 = m_bootMode d"
      "m_children d1 = m_children d @ new" "set new \<inter> set (d_kernel d) = {}" by blast
  note inv1 = apps_okD [OF f1(1)]
  have reaped: "(\<exists>f2. apps_ok d2 f2 ?u \<and> roles_follow d1 d2 f1 f2) \<and> m_bootMode d2 = m_bootMode d1 \<and>
      d_kills d2 = d_kills d1 @ (if sigChld_ready r then concat (map (forwarded d1) (m_children d1)) else []) \<and>
      (sigChld_ready r \<longrightarrow> (\<forall>c \<in> set (m_children d2). smap_find (d_ended d2) c = None))"
  proof (cases "sigChld_ready r")
    case True
    then have r2: "reapZombies d1 = Returns d2" "reap_pass (m_children d1) d1 = Returns d2"
      using 2 reapZombies_pass [OF inv1(5)] by simp_all
    have dist: "distinct (m_children d1)" by (rule pids_okD(1) [OF inv1(2)])
    show ?thesis
      using reap_pass_apps_ok [OF f1(1) r2(2) dist subset_refl] reap_pass_kills [OF inv1(5) r2(2) dist subset_refl]
        reapZombies_inv [OF inv1(5) r2(1)] reap_pass_mode [OF r2(2)] True by simp
  next
    case False
    with 2 f1(1) roles_follow_refl [of d1 f1] show ?thesis by auto
  qed
  then obtain f2 where f2: "apps_ok d2 f2 ?u" "roles_follow d1 d2 f1 f2" by blast
  have same: "m_children (enterNormalMode d2) = m_children d2" "d_forks (enterNormalMode d2) = d_forks d2"
    "d_ended (enterNormalMode d2) = d_ended d2"
    using enterNormalMode_frame [of d2] by auto
  have "roles_follow d d' f f2"
    using roles_follow_trans [OF f1(2) f2(2) inv(2,4)] same by (simp add: 3 roles_follow_def)
  moreover have "apps_ok d' f2 ?u"
    unfolding 3 using f2(1) enterNormalMode_apps_ok [OF f2(1)]
    by (cases "sigUsr1_ready r") (simp_all only: if_True if_False)
  ultimately show "apps_ok d' (roles_after d d' f) ?u" by (rule roles_follow_after)
  show "\<forall>c \<in> set (m_children d'). smap_find (d_ended d') c = None" if "sigChld_ready r"
    using reaped that same by (simp add: 3)
  have "forwarded d1 c = death_note d f c" if c: "c \<in> set (m_children d)" for c
  proof -
    have "forwarded d1 c = death_note d1 f1 c" using forwarded_note [OF f1(1)] c d1(4) by simp
    moreover have "f1 c = f c" using f1(2) c d1(4) by (simp add: roles_follow_def)
    ultimately show ?thesis by (simp add: death_note_def d1(2) split: option.split wait_status.split)
  qed
  moreover have "forwarded d1 c = []" if "c \<in> set new" for c
  proof -
    have "smap_find (d_ended d) c = None" using that d1(5) pids_okD(6) [OF inv(2), of c] by blast
    then show ?thesis by (simp add: forwarded_def d1(2))
  qed
  ultimately have fw: "concat (map (forwarded d1) (m_children d1)) = concat (map (death_note d f) (m_children d))"
    unfolding d1(4) map_append concat_append by (simp cong: map_cong)
  obtain ks where ks: "d_kills d' = d_kills d2 @ ks" "sigUsr1_ready r \<and> m_bootMode d2 \<or> ks = []"
    "snd ` set ks \<subseteq> {SIGTERM}"
  proof (cases "sigUsr1_ready r \<and> m_bootMode d2")
    case True
    let ?ks = "map (\<lambda>(_, pid). (pid, SIGTERM)) (filter (\<lambda>(_, pid). pid \<noteq> 0) (m_boosterTypeToPid d2))"
    have "snd ` set ?ks \<subseteq> {SIGTERM}" by (auto split: prod.splits)
    moreover have "d_kills d' = d_kills d2 @ ?ks"
      using True unfolding 3 by (simp add: enterNormalMode_def killBoosters_kills)
    ultimately show thesis using that True by blast
  next
    case False
    then show thesis using that [of "[]"] unfolding 3 by (auto simp: enterNormalMode_def)
  qed
  show "\<exists>ks. d_kills d' = d_kills d @ (if sigChld_ready r then concat (map (death_note d f) (m_children d)) else []) @ ks \<and>
       (sigUsr1_ready r \<and> m_bootMode d \<or> ks = []) \<and> snd ` set ks \<subseteq> {SIGTERM}"
    using reaped ks d1(1,3) fw by (intro exI [of _ ks]) auto
qed

subsection \<open>The system\<close>

definition apps_inv :: "apps \<Rightarrow> bool" where
  "apps_inv w \<longleftrightarrow> apps_ok (a_daemon w) (a_role w) (a_unread w)"

lemma launch_apps_ok:
  assumes ok: "apps_ok d f u" and c: "c \<in> set (m_children d)" "smap_find (d_ended d) c = None" "f c = Waiting t"
  shows "apps_ok (d\<lparr>d_pipe := (d_pipe d)\<lparr>rx := rx (d_pipe d) @ reports [(t, p, w)]\<rparr>\<rparr>)
    (f(c := Launched t (sint p))) (u @ [(c, t, p, w)])"
proof -
  note inv = apps_okD [OF ok]
  let ?d = "d\<lparr>d_pipe := (d_pipe d)\<lparr>rx := rx (d_pipe d) @ reports [(t, p, w)]\<rparr>\<rparr>"
  let ?f = "f(c := Launched t (sint p))" and ?u = "u @ [(c, t, p, w)]"
  have out: "c \<notin> fst ` set u" using inv(9) [of c] c(3) by fastforce
  have acc: "smap_find (m_boosterTypeToPid d) t = Some c" "smap_find (m_boosterPidToInvokerPid d) c = None"
    using inv(8) [OF c(1)] c(3) by (simp_all add: accounted_def)
  have "t \<noteq> NUL" using maps_okD(3) [OF inv(3) acc(1)] by simp
  then have "daemon_step d ?d" by (rule booster_reports)
  from daemon_step_inv [OF this inv(1)] have "system_inv ?d" .
  moreover have "rx (d_pipe ?d) = reports (map snd ?u)" using inv(6) by simp
  moreover have "distinct (map fst ?u)" using inv(7) out by simp
  moreover have "accounted ?d ?f (fst ` set ?u) x" if "x \<in> set (m_children ?d)" for x
  proof (cases "x = c")
    case True
    then show ?thesis using acc by (simp add: accounted_def)
  next
    case False
    have "accounted d f (fst ` set u) x" using inv(8) that by simp
    then show ?thesis using False by (subst accounted_cong [of ?f x f _ d _ "fst ` set u"]) simp_all
  qed
  moreover have "x \<in> set (m_children ?d) \<and> smap_find (d_ended ?d) x = None \<and> ?f x = Launched k (sint i)"
    if "(x, k, i, l) \<in> set ?u" for x k i l
    using that inv(9) [of x k i l] out c(1,2) by (auto simp: image_iff)
  ultimately show ?thesis by (intro apps_okI) blast+
qed

lemma app_step_inv: "app_step w w' \<Longrightarrow> apps_inv w \<Longrightarrow> apps_inv w'"
proof (induction rule: app_step.induct)
  case (process_ends c d u f st)
  then have ok: "apps_ok d f u" by (simp add: apps_inv_def)
  note inv = apps_okD [OF ok]
  let ?d = "d\<lparr>d_ended := smap_set c st (d_ended d)\<rparr>"
  have "daemon_step d ?d" using process_ends(1,2) pids_okD(2) [OF inv(2)] by (intro child_ends) auto
  from daemon_step_inv [OF this inv(1)] have "system_inv ?d" .
  moreover have "accounted ?d f (fst ` set u) x" if "x \<in> set (m_children ?d)" for x
    using inv(8) [of x] that by (subst accounted_cong [of f x f _ d _ "fst ` set u"]) simp_all
  moreover have "x \<in> set (m_children ?d) \<and> smap_find (d_ended ?d) x = None \<and> f x = Launched k (sint i)"
    if "(x, k, i, l) \<in> set u" for x k i l
    using that inv(9) [OF that] process_ends(3) smap.find_set [OF pids_okD(4) [OF inv(2)]]
    by (auto simp: image_iff)
  moreover have "rx (d_pipe ?d) = reports (map snd u)" using inv(6) by simp
  ultimately have "apps_ok ?d f u" using inv(7) by (intro apps_okI) blast+
  then show ?case by (simp add: apps_inv_def)
next
  case (launches c d f t u p w)
  then show ?case using launch_apps_ok by (simp add: apps_inv_def)
next
  case (pids_granted ps d f u)
  then have ok: "apps_ok d f u" by (simp add: apps_inv_def)
  note inv = apps_okD [OF ok]
  let ?d = "d\<lparr>d_forks := ps\<rparr>"
  from daemon_step_inv [OF pids_free [OF pids_granted(1,2)] inv(1)] have "system_inv ?d" .
  moreover have "accounted ?d f (fst ` set u) x" if "x \<in> set (m_children ?d)" for x
    using inv(8) [of x] that by (subst accounted_cong [of f x f _ d _ "fst ` set u"]) simp_all
  moreover have "x \<in> set (m_children ?d) \<and> smap_find (d_ended ?d) x = None \<and> f x = Launched k (sint i)"
    if "(x, k, i, l) \<in> set u" for x k i l using inv(9) [OF that] by simp
  moreover have "rx (d_pipe ?d) = reports (map snd u)" using inv(6) by simp
  ultimately have "apps_ok ?d f u" using inv(7) by (intro apps_okI) blast+
  then show ?case by (simp add: apps_inv_def)
next
  case (turns sel d d' f u)
  then have ok: "apps_ok d f u" by (simp add: apps_inv_def)
  show ?case
  proof (cases sel)
    case None
    then have "d' = d" using turns(1) by (simp add: main_iteration_def)
    moreover have "roles_after d d f = f" by (simp add: roles_after_def fun_eq_iff)
    ultimately show ?thesis using None ok by (simp add: apps_inv_def reads_report_def)
  next
    case (Some r)
    with turn_apps(1) [OF ok, of r d'] turns(1) show ?thesis by (simp add: apps_inv_def reads_report_def)
  qed
qed

text \<open>Forgetting the roles, the steps are those of the daemon among its processes.\<close>

lemma app_step_refines: "app_step w w' \<Longrightarrow> apps_inv w \<Longrightarrow> daemon_step (a_daemon w) (a_daemon w')"
proof (induction rule: app_step.induct)
  case (process_ends c d u f st)
  then have "pids_ok d" by (simp add: apps_inv_def apps_okD)
  with process_ends(1,2) show ?case using pids_okD(2) by (auto intro: child_ends)
next
  case (launches c d f t u p w)
  then have ok: "apps_ok d f u" by (simp add: apps_inv_def)
  have "smap_find (m_boosterTypeToPid d) t = Some c"
    using apps_okD(8) [OF ok launches(1)] launches(3) by (simp add: accounted_def)
  then have "t \<noteq> NUL" using maps_okD(3) [OF apps_okD(3) [OF ok]] by blast
  then show ?case using booster_reports by simp
next
  case (pids_granted ps d f u)
  then show ?case using pids_free by simp
next
  case (turns sel d d' f u)
  then show ?case using daemon_turns by simp
qed

subsection \<open>The start\<close>

lemma forkBoosters_types:
  assumes "forkBoosters_from es d = Returns d'" "daemon_inv d" "\<forall>e \<in> set es. pe_type e \<noteq> NUL" "registry_ok es"
    and "\<forall>c \<in> set (m_children d). \<exists>t. smap_find (m_boosterTypeToPid d) t = Some c \<and> t \<notin> pe_type ` set es"
  shows "(\<forall>c \<in> set (m_children d'). \<exists>t. smap_find (m_boosterTypeToPid d') t = Some c) \<and>
    m_boosterPidToInvokerPid d' = m_boosterPidToInvokerPid d"
  using assms
proof (induction es arbitrary: d)
  case Nil
  then show ?case by auto
next
  case (Cons e es)
  from Cons.prems(1) obtain d1 where f: "forkBooster (pe_type e) 0 d = Returns d1"
    "forkBoosters_from es d1 = Returns d'" by (auto simp: and_then_eq_Returns)
  have ok: "pids_ok d" "maps_ok d" "forks_fresh d" using Cons.prems(2) by (simp_all add: daemon_inv_def)
  have t: "pe_type e \<noteq> NUL" "pe_type e \<notin> pe_type ` set es" "registry_ok es"
    using Cons.prems(3,4) by (auto simp: registry_ok_def)
  note invs = forkBooster_invs [OF f(1) t(1) ok(1) maps_ok_but [OF ok(2)] ok(3)]
  obtain pid where d1: "m_children d1 = m_children d @ [pid]" "m_boosterPidToInvokerPid d1 = m_boosterPidToInvokerPid d"
    "\<And>k. smap_find (m_boosterTypeToPid d1) k = (if k = pe_type e then Some pid else smap_find (m_boosterTypeToPid d) k)"
    using forkBooster_pid [OF f(1) maps_okD(1) [OF ok(2)]] by metis
  have "\<exists>k. smap_find (m_boosterTypeToPid d1) k = Some c \<and> k \<notin> pe_type ` set es" if "c \<in> set (m_children d1)" for c
  proof (cases "c = pid")
    case True
    then show ?thesis using d1(3) t(2) by auto
  next
    case False
    then have "c \<in> set (m_children d)" using that d1(1) by simp
    with Cons.prems(5) obtain k where "smap_find (m_boosterTypeToPid d) k = Some c" "k \<noteq> pe_type e" "k \<notin> pe_type ` set es"
      by auto
    then show ?thesis using d1(3) by auto
  qed
  moreover have "daemon_inv d1" using invs by (simp add: daemon_inv_def)
  ultimately show ?case using Cons.IH [OF f(2)] Cons.prems(3) t(3) d1(2) by auto
qed

lemma apps_started_inv: "apps_started w \<Longrightarrow> apps_inv w"
proof -
  assume w: "apps_started w"
  let ?d = "a_daemon w"
  have s: "started ?d" "registry_ok (d_registry ?d)" using w by (simp_all add: apps_started_def)
  from s(1) obtain d1 where d1: "forkBoosters_from (d_registry ?d) d1 = Returns ?d" "daemon_inv d1" "m_children d1 = []"
    "m_boosterPidToInvokerPid d1 = []" "\<forall>e \<in> set (d_registry ?d). pe_type e \<noteq> NUL"
    by (rule started_forks)
  from forkBoosters_types [OF d1(1,2,5) s(2)] d1(3,4)
  have types: "\<forall>c \<in> set (m_children ?d). \<exists>t. smap_find (m_boosterTypeToPid ?d) t = Some c"
    and none: "m_boosterPidToInvokerPid ?d = []" by simp_all
  have inv: "system_inv ?d" by (rule started_inv [OF s(1)])
  then have maps: "maps_ok ?d" by (simp add: system_inv_def daemon_inv_def)
  have "accounted ?d (a_role w) (fst ` set (a_unread w)) c" if c: "c \<in> set (m_children ?d)" for c
  proof -
    obtain t where t: "smap_find (m_boosterTypeToPid ?d) t = Some c" using types c by blast
    then have "a_role w c = Waiting t"
      using boosterTypeForPid_iff [OF maps] w by (auto simp: apps_started_def)
    then show ?thesis using t none by (simp add: accounted_def)
  qed
  then show "apps_inv w"
    using inv w started_pipe [OF s(1)] unfolding apps_inv_def by (intro apps_okI) (simp_all add: apps_started_def)
qed

interpretation apps: simulation apps_started app_step apps_inv a_daemon daemon_step
  by unfold_locales (blast intro: apps_started_inv app_step_inv app_step_refines)+

text \<open>Who stands for a booster type: a waiting booster, or one whose report is not read yet.\<close>

definition stands_for :: "apps \<Rightarrow> char \<Rightarrow> int \<Rightarrow> bool" where
  "stands_for w t c \<longleftrightarrow> c \<in> set (m_children (a_daemon w)) \<and>
     (a_role w c = Waiting t \<or> c \<in> fst ` set (a_unread w) \<and> (\<exists>i. a_role w c = Launched t i))"

lemma stands_for_iff:
  assumes "apps_inv w"
  shows "stands_for w t c \<longleftrightarrow> smap_find (m_boosterTypeToPid (a_daemon w)) t = Some c"
proof -
  note inv = apps_okD [OF assms [unfolded apps_inv_def]]
  show ?thesis
  proof
    assume s: "stands_for w t c"
    then have "accounted (a_daemon w) (a_role w) (fst ` set (a_unread w)) c" by (intro inv(8)) (simp add: stands_for_def)
    note acc = this
    from s consider "a_role w c = Waiting t" | i where "a_role w c = Launched t i" "c \<in> fst ` set (a_unread w)"
      by (auto simp: stands_for_def)
    then show "smap_find (m_boosterTypeToPid (a_daemon w)) t = Some c"
      by cases (use acc in \<open>simp_all add: accounted_def\<close>)
  next
    assume t: "smap_find (m_boosterTypeToPid (a_daemon w)) t = Some c"
    then have c: "c \<in> set (m_children (a_daemon w))" using maps_okD(3) [OF inv(3)] by blast
    have same: "k = t" if "smap_find (m_boosterTypeToPid (a_daemon w)) k = Some c" for k
      by (rule maps_okD(4) [OF inv(3) that t])
    show "stands_for w t c"
    proof (cases "a_role w c")
      case (Waiting k)
      then show ?thesis using inv(8) [OF c] same [of k] c by (simp add: stands_for_def accounted_def)
    next
      case (Launched k i)
      have "c \<in> fst ` set (a_unread w)"
        using inv(8) [OF c] t Launched by (simp add: accounted_def split: if_splits)
      then show ?thesis using inv(8) [OF c] same [of k] c Launched by (simp add: stands_for_def accounted_def)
    qed
  qed
qed

lemma books_hold:
  assumes "apps_inv w"
  shows "(\<forall>e \<in> set (d_registry (a_daemon w)). (\<exists>!c. stands_for w (pe_type e) c) \<and>
      stands_for w (pe_type e) (boosterPidForType (pe_type e) (a_daemon w))) \<and>
    (\<forall>c i. smap_find (m_boosterPidToInvokerPid (a_daemon w)) c = Some i \<longleftrightarrow>
      c \<in> set (m_children (a_daemon w)) \<and> c \<notin> fst ` set (a_unread w) \<and> i \<noteq> 0 \<and> (\<exists>t. a_role w c = Launched t i))"
proof -
  note inv = apps_okD [OF assms [unfolded apps_inv_def]]
  have "(\<exists>!c. stands_for w (pe_type e) c) \<and> stands_for w (pe_type e) (boosterPidForType (pe_type e) (a_daemon w))"
    if "e \<in> set (d_registry (a_daemon w))" for e
    using inv(1) that unfolding stands_for_iff [OF assms]
    by (auto simp: system_inv_def served_def boosterPidForType_def)
  moreover have "smap_find (m_boosterPidToInvokerPid (a_daemon w)) c = Some i \<longleftrightarrow>
      c \<in> set (m_children (a_daemon w)) \<and> c \<notin> fst ` set (a_unread w) \<and> i \<noteq> 0 \<and> (\<exists>t. a_role w c = Launched t i)" for c i
  proof (cases "c \<in> set (m_children (a_daemon w))")
    case True
    with inv(8) [OF True] show ?thesis
      by (cases "a_role w c"; cases "c \<in> fst ` set (a_unread w)") (simp_all add: accounted_def, auto)
  next
    case False
    then show ?thesis using maps_okD(5) [OF inv(3), of c] by auto
  qed
  ultimately show ?thesis by blast
qed

text \<open>
  A run for the examples: the Qt booster becomes an application for the invoker 4242, its report
  is read, and it dies of a segmentation fault.
\<close>

lemma apps_eta: "\<lparr>a_daemon = a_daemon w, a_role = a_role w, a_unread = a_unread w\<rparr> = (w :: apps)"
  by (cases w) simp

lemma grant_pids:
  obtains w' where "app_step w w'" "n \<le> length (d_forks (a_daemon w'))"
    "a_daemon w' = (a_daemon w)\<lparr>d_forks := d_forks (a_daemon w')\<rparr>" "a_role w' = a_role w" "a_unread w' = a_unread w"
proof -
  obtain ps where ps: "distinct ps" "length ps = n" "\<forall>p \<in> set ps. 0 < p \<and> p \<notin> set (d_kernel (a_daemon w))"
    using new_pids by blast
  obtain d f u where w: "w = \<lparr>a_daemon = d, a_role = f, a_unread = u\<rparr>" by (cases w) auto
  from pids_granted [OF ps(1), of d f u] ps w
  show thesis by (intro that [of "\<lparr>a_daemon = d\<lparr>d_forks := ps\<rparr>, a_role = f, a_unread = u\<rparr>"]) simp_all
qed

lemma turn_with_pids:
  assumes "apps_inv w" "Suc (length (m_children (a_daemon w))) \<le> length (d_forks (a_daemon w))" "\<not> sigTerm_ready r"
  shows "\<exists>d'. main_iteration (Some r) (a_daemon w) = Returns d'"
proof -
  have inv: "system_inv (a_daemon w)" using assms(1) by (simp add: apps_inv_def apps_okD)
  have "length (to_replace (a_daemon w) (m_children (a_daemon w))) \<le> length (m_children (a_daemon w))"
    by (simp add: to_replace_def)
  then have "forks_needed r (a_daemon w) \<le> Suc (length (m_children (a_daemon w)))"
    unfolding forks_needed_def Let_def
    by (auto intro: order_trans [OF length_filter_le] le_SucI)
  with main_iteration_exact [OF inv, of r] assms(2,3) show ?thesis by (auto split: if_splits)
qed

lemma apps_example:
  "\<exists>w0 w c. apps_started w0 \<and> app_step\<^sup>*\<^sup>* w0 w \<and> a_unread w = [] \<and>
     c \<in> set (m_children (a_daemon w)) \<and> a_role w c = Launched (CHR ''q'') 4242 \<and>
     smap_find (d_ended (a_daemon w)) c = Some (Signaled 11) \<and>
     Suc (length (m_children (a_daemon w))) \<le> length (d_forks (a_daemon w))"
proof -
  obtain d where d: "started d" "d_registry d = shipped_registry" "d_ended d = []" using fresh_starts by blast
  define w0 where "w0 = \<lparr>a_daemon = d, a_role = \<lambda>c. Waiting (boosterTypeForPid c d), a_unread = []\<rparr>"
  have "registry_ok shipped_registry" using registered.types_distinct by (simp add: registry_ok_def)
  then have w0: "apps_started w0" using d by (simp add: apps_started_def w0_def)
  let ?c = "boosterPidForType (pe_type (entry_of QtBooster)) d"
  have "entry_of QtBooster \<in> set (d_registry d)" by (simp add: d(2) shipped_registry_eq)
  from books_hold [OF apps_started_inv [OF w0]] this have c0: "stands_for w0 (CHR ''q'') ?c"
    by (auto simp: w0_def entry_of_def)
  then have c: "?c \<in> set (m_children d)" "boosterTypeForPid ?c d = CHR ''q''"
    by (simp_all add: stands_for_def w0_def)
  have t: "smap_find (m_boosterTypeToPid d) (CHR ''q'') = Some ?c"
    using stands_for_iff [OF apps_started_inv [OF w0]] c0 by (simp add: w0_def)
  define w1 where "w1 = \<lparr>a_daemon = d\<lparr>d_pipe := (d_pipe d)\<lparr>rx := rx (d_pipe d) @ reports [(CHR ''q'', 4242, 0)]\<rparr>\<rparr>,
    a_role = (a_role w0)(?c := Launched (CHR ''q'') (sint (4242 :: u32))), a_unread = a_unread w0 @ [(?c, CHR ''q'', 4242, 0)]\<rparr>"
  have s1: "app_step w0 w1"
    using launches [of ?c d "a_role w0" "CHR ''q''" "[]" 4242 0] c d(3) by (simp add: w0_def w1_def)
  obtain w2 where s2: "app_step w1 w2" "Suc (length (m_children d)) \<le> length (d_forks (a_daemon w2))"
    "a_daemon w2 = (a_daemon w1)\<lparr>d_forks := d_forks (a_daemon w2)\<rparr>" "a_role w2 = a_role w1" "a_unread w2 = a_unread w1"
    by (rule grant_pids)
  have r2: "app_step\<^sup>*\<^sup>* w0 w2" using s1 s2(1) by (meson converse_rtranclp_into_rtranclp r_into_rtranclp)
  have i2: "apps_inv w2" by (rule apps.reachable_inv [OF w0 r2])
  have f2: "m_children (a_daemon w2) = m_children d" "d_ended (a_daemon w2) = []" "d_registry (a_daemon w2) = shipped_registry"
    using d(2,3) by (subst s2(3), simp add: w1_def)+
  obtain d3 where d3: "main_iteration (Some select_pipe) (a_daemon w2) = Returns d3"
    using turn_with_pids [OF i2, of select_pipe] s2(2) f2(1) by (auto simp: select_pipe_def)
  then have "readFromBoosterPipe (a_daemon w2) = Returns d3"
    by (auto simp: main_iteration_def select_pipe_def and_then_eq_Returns)
  from read_apps_ok [OF i2 [unfolded apps_inv_def] this] obtain new where
    f3: "d_ended d3 = []" "m_children d3 = m_children d @ new" using f2 by auto
  define w3 where "w3 = \<lparr>a_daemon = d3, a_role = roles_after (a_daemon w2) d3 (a_role w2), a_unread = tl (a_unread w2)\<rparr>"
  have s3: "app_step w2 w3"
    using turns [OF d3, of "a_role w2" "a_unread w2"] by (simp add: apps_eta w3_def reads_report_def select_pipe_def)
  have u3: "a_unread w3 = []" "a_role w3 ?c = Launched (CHR ''q'') 4242"
    using c(1) by (simp_all add: w3_def s2(4,5) w1_def w0_def roles_after_def f2(1))
  define w4 where "w4 = w3\<lparr>a_daemon := d3\<lparr>d_ended := smap_set ?c (Signaled 11) (d_ended d3)\<rparr>\<rparr>"
  have s4: "app_step w3 w4"
    using process_ends [of ?c d3 "a_unread w3" "a_role w3" "Signaled 11"] c(1) f3 u3(1) by (simp add: w3_def w4_def)
  obtain w5 where s5: "app_step w4 w5" "Suc (length (m_children d3)) \<le> length (d_forks (a_daemon w5))"
    "a_daemon w5 = (a_daemon w4)\<lparr>d_forks := d_forks (a_daemon w5)\<rparr>" "a_role w5 = a_role w4" "a_unread w5 = a_unread w4"
    by (rule grant_pids)
  have f5: "m_children (a_daemon w5) = m_children d3" "d_ended (a_daemon w5) = [(?c, Signaled 11)]"
    using f3(1) by (subst s5(3), simp add: w4_def)+
  have "app_step\<^sup>*\<^sup>* w0 w5"
    using r2 s3 s4 s5(1) by (meson rtranclp.rtrancl_into_rtrancl)
  moreover have "a_unread w5 = []" "a_role w5 ?c = Launched (CHR ''q'') 4242"
    using u3 by (simp_all add: s5(4,5) w4_def)
  ultimately show ?thesis using w0 f5 s5(2) f3(2) c(1) by (intro exI [of _ w0] exI [of _ w5] exI [of _ ?c]) simp
qed





end
