(* ===== verification/Inheritance.thy ===== *)
theory Inheritance
  imports Launch Launcher_Start Applications
begin

text \<open>
  What an application inherits of the launcher: the launcher's pipes, its lock and the listening
  sockets are closed on the way from the launcher over the forked booster to the application's
  \<open>main\<close>, in \<open>Daemon::forkBooster\<close>, \<open>Booster::initialize\<close> and \<open>Booster::run\<close>.
\<close>

subsection \<open>The launcher's own descriptors\<close>

text \<open>Where a process shows files of a set.\<close>

definition leaks :: "nat set \<Rightarrow> proc \<Rightarrow> int set" where
  "leaks L p = {k. \<exists>f \<in> L. fd_file p k = Some f}"

abbreviation own_socket :: "booster_class \<Rightarrow> daemon \<Rightarrow> int" where
  "own_socket k d \<equiv> findSocket (socketId k) (d_sockets d)"

lemma smap_single:
  assumes "smap_ok m" "\<And>x. smap_find m x = (if x = s then Some v else None)"
  shows "m = [(s, v)]"
proof -
  have "set m = {(s, v)}" using smap_entries_find [OF assms(1)] assms(2) by (auto split: if_splits)
  moreover have "distinct m" using assms(1) by (auto simp: smap_ok_def strict_sorted_iff distinct_map)
  ultimately show ?thesis using distinct_card [of m] by (cases m; cases "tl m") auto
qed

lemma socket_of_class:
  assumes "launcher_fds_ok d"
  shows "smap_find (d_sockets d) (socketId k) = Some (own_socket k d)"
    "snd ` set (d_sockets d) = range (\<lambda>j. own_socket j d)" "fds_distinct (d_sockets d)"
    "own_socket j d = own_socket k d \<longleftrightarrow> j = k"
proof -
  have ok: "smap_ok (d_sockets d)" "distinct (map snd (d_sockets d))" "fst ` set (d_sockets d) = range socketId"
    using assms by (simp_all add: launcher_fds_ok_def internal_fds_def)
  have 1: "smap_find (d_sockets d) (socketId k) = Some (own_socket k d)" for k
    using ok(3) by (auto simp: findSocket_def smap_find_map_of map_of_eq_None_iff split: option.splits)
  have 2: "\<exists>j. s = socketId j \<and> fd = own_socket j d" if "(s, fd) \<in> set (d_sockets d)" for s fd
  proof -
    have "s \<in> range socketId" unfolding ok(3) [symmetric] using that by force
    then obtain j where "s = socketId j" by blast
    with that 1 [of j] smap_entries_find [OF ok(1)] show ?thesis by auto
  qed
  have 3: "(socketId j, own_socket j d) \<in> set (d_sockets d)" for j
    using 1 smap_entries_find [OF ok(1)] by blast
  show "snd ` set (d_sockets d) = range (\<lambda>j. own_socket j d)" using 2 3 by force
  show "fds_distinct (d_sockets d)"
    using ok(1,2) unfolding fds_distinct_def smap_entries_find [OF ok(1), symmetric]
    by (fastforce simp: distinct_map inj_on_def)
  from fds_distinctD [OF this 1 [of j], of "socketId k"] 1 [of k]
  show "own_socket j d = own_socket k d \<longleftrightarrow> j = k" by auto
  show "smap_find (d_sockets d) (socketId k) = Some (own_socket k d)" by (rule 1)
qed

text \<open>The sockets of the other boosters.\<close>

definition other_sockets :: "booster_class \<Rightarrow> daemon \<Rightarrow> int set" where
  "other_sockets k d = {own_socket j d | j. j \<noteq> k}"

lemma closeUnusedSockets_value:
  assumes d: "launcher_fds_ok d" and p: "fds_ok p"
  shows "\<exists>m. closeUnusedSockets (boosterType k) (d_registry d) (d_sockets d) p
      = ([(socketId k, own_socket k d)], p\<lparr>p_fds := m\<rparr>) \<and> smap_ok m \<and>
    (\<forall>fd. smap_find m fd = (if fd \<in> other_sockets k d then None else fd_file p fd))"
proof -
  have wf: "smap_ok (d_sockets d)" "fst ` set (d_sockets d) = range socketId" and reg: "d_registry d = shipped_registry"
    using d by (simp_all add: launcher_fds_ok_def)
  note s = socket_of_class [OF d]
  obtain sm q where u: "closeUnusedSockets (boosterType k) (d_registry d) (d_sockets d) p = (sm, q)" by fastforce
  have others: "s \<in> socketNameFunc ` {e \<in> set (d_registry d). pe_type e \<noteq> boosterType k} \<longleftrightarrow> (\<exists>j. j \<noteq> k \<and> s = socketId j)" for s
    by (force simp: reg shipped_registry_eq entry_of_def)
  note c = closeUnusedSockets_find [where type = "boosterType k" and reg = "d_registry d", OF wf(1) p s(3),
      unfolded u prod.case others]
  have "smap_find sm x = (if x = socketId k then Some (own_socket k d) else None)" for x
  proof (cases "x \<in> range socketId")
    case False
    then have "smap_find (d_sockets d) x = None" using wf(2) by (simp add: smap_find_None_notin)
    with c False show ?thesis by auto
  next
    case True
    with c s(1) show ?thesis by auto
  qed
  with c have sm: "sm = [(socketId k, own_socket k d)]" by (intro smap_single) auto
  have "fd_file q fd = (if fd \<in> other_sockets k d then None else fd_file p fd)" for fd
  proof (cases "\<exists>j. fd = own_socket j d")
    case True
    then obtain j where j: "fd = own_socket j d" by blast
    with c s(1) [of j] have "fd_file q fd = (if j \<noteq> k then None else fd_file p fd)" by auto
    with j s(4) show ?thesis by (auto simp: other_sockets_def)
  next
    case False
    have "smap_find (d_sockets d) x \<noteq> Some fd" for x
      using False s(2) smap_entries_find [OF wf(1)] by force
    from closeUnusedSockets_other [OF this u wf(1) p] False show ?thesis by (auto simp: other_sockets_def)
  qed
  moreover have "q = p\<lparr>p_fds := p_fds q\<rparr>"
  proof -
    have "q' = p'\<lparr>p_fds := p_fds q'\<rparr>" if "closeUnusedSockets t reg m p' = (m', q')" for t reg m p' m' q'
      using that
    proof (induction reg arbitrary: m p')
      case (Cons e reg)
      obtain m1 p1 where 1: "(if pe_type e \<noteq> t then closeSocket (socketNameFunc e) m p' else (m, p')) = (m1, p1)"
        by fastforce
      then have "p1 = p'\<lparr>p_fds := p_fds p1\<rparr>"
        by (auto simp: closeSocket_def close_fd_drop split: if_splits option.splits)
      moreover have "q' = p1\<lparr>p_fds := p_fds q'\<rparr>"
        using Cons 1 by (simp add: closeUnusedSockets_def)
      ultimately obtain f g where "p1 = p'\<lparr>p_fds := f\<rparr>" "q' = p1\<lparr>p_fds := g\<rparr>" by blast
      then show ?case by simp
    qed (simp add: closeUnusedSockets_def)
    from this [OF u] show ?thesis .
  qed
  ultimately show ?thesis using c u sm by (intro exI [of _ "p_fds q"]) (simp add: fds_ok_def)
qed

text \<open>A launcher when its start has reached the loop.\<close>

definition launched :: "daemon \<Rightarrow> bool" where
  "launched d \<longleftrightarrow> (\<exists>lf st args offs nr nw fs a b c pids d0. bare_system d0 \<and> d_forks d0 = a # b # c # pids \<and>
     \<not> st_instance st \<and> null_devices st nr nw \<and> st_pipes st = map Some fs \<and> length fs = 4 \<and>
     \<not> given HELP args \<and> (given DAEMON args \<longrightarrow> detaches st) \<and>
     launcher_main (Some lf) False st args offs APPLAUNCHERD_DIR shipped_libs [] d0 = Returns d)"

lemma launched_fds: "launched d \<Longrightarrow> launcher_fds_ok d"
proof -
  assume "launched d"
  then obtain lf st args offs nr nw fs a b c pids d0 where
    0: "bare_system d0" "d_forks d0 = a # b # c # pids" "\<not> st_instance st" "null_devices st nr nw"
      "st_pipes st = map Some fs" "length fs = 4" "\<not> given HELP args" "given DAEMON args \<longrightarrow> detaches st"
    and d: "launcher_main (Some lf) False st args offs APPLAUNCHERD_DIR shipped_libs [] d0 = Returns d"
    unfolding launched_def by (elim exE conjE) (rule that)
  obtain d1 where "launcher_main (Some lf) False st args offs APPLAUNCHERD_DIR shipped_libs [] d0 = main_loop [] d1"
    "launcher_fds_ok d1" using start_value [OF 0, of lf offs "[]"] by (elim exE conjE) (rule that)
  with d show ?thesis by simp
qed

text \<open>The loop touches neither its process's descriptors nor what it knows of them.\<close>

definition fd_state :: "daemon \<Rightarrow> proc \<times> socket_hash \<times> registry \<times> int list" where
  "fd_state d = (d_proc d, d_sockets d, d_registry d, internal_fds d)"

lemmas fd_state_defs = fd_state_def internal_fds_def pipe_fds_def

lemma forkBooster_fd_state: "forkBooster t s d = Returns d' \<Longrightarrow> fd_state d' = fd_state d"
  by (auto simp: forkBooster_Returns fd_state_defs)

lemma readFromBoosterPipe_fd_state: "readFromBoosterPipe d = Returns d' \<Longrightarrow> fd_state d' = fd_state d"
  by (auto simp: readFromBoosterPipe_def pipe_read_def fd_state_defs forkBooster_Returns Let_def
      split: prod.splits if_splits)

lemma reap_loop_fd_state: "reap_loop i d = Returns d' \<Longrightarrow> fd_state d' = fd_state d"
proof (induction i d rule: reap_loop.induct)
  case (1 i d)
  show ?case
  proof (cases "i < length (m_children d)")
    case False
    with "1.prems" show ?thesis by (simp add: reap_loop.simps [of i d])
  next
    case True
    obtain pid st d1 where w: "sys_waitpid (m_children d ! i) d = (pid, st, d1)" by (cases "sys_waitpid (m_children d ! i) d")
    have d1: "fd_state d1 = fd_state d"
      using w by (auto simp: sys_waitpid_def fd_state_defs split: if_splits option.splits)
    show ?thesis
    proof (cases "pid = 0")
      case z: True
      with "1.prems" True w have "reap_loop (Suc i) d1 = Returns d'" by (simp add: reap_loop.simps [of i d])
      with "1.IH"(2) [OF True w [symmetric] refl refl] z d1 show ?thesis by simp
    next
      case False
      let ?b = "forward_signal pid st (d1\<lparr>m_children := erase_at i (m_children d1)\<rparr>)"
      from "1.prems" True w False obtain d2 where
        r: "restart_booster pid ?b = Returns d2" "reap_loop i d2 = Returns d'"
        by (auto simp: reap_loop.simps [of i d] and_then_eq_Returns)
      have "fd_state ?b = fd_state d1"
        by (auto simp: forward_signal_def sys_kill_def fd_state_defs Let_def split: option.splits wait_status.splits)
      moreover have "fd_state d2 = fd_state ?b"
        using r(1) by (auto simp: restart_booster_def Let_def split: if_splits dest: forkBooster_fd_state)
      ultimately show ?thesis
        using "1.IH"(1) [OF True w [symmetric] refl refl False r] d1 by simp
    qed
  qed
qed

lemma main_iteration_fd_state:
  assumes "main_iteration sel d = Returns d'"
  shows "fd_state d' = fd_state d"
proof (cases sel)
  case None
  with assms show ?thesis by (simp add: main_iteration_def)
next
  case (Some r)
  obtain d1 d2 where "(if booster_ready r then readFromBoosterPipe d else Returns d) = Returns d1"
    "(if sigChld_ready r then reapZombies d1 else Returns d1) = Returns d2"
    "d' = (if sigUsr1_ready r then enterNormalMode d2 else d2)"
    using assms unfolding Some by (rule main_iteration_stages)
  moreover have "fd_state (enterNormalMode d2) = fd_state d2"
    using enterNormalMode_frame [of d2] by (auto simp: fd_state_defs)
  ultimately show ?thesis
    by (auto simp: reapZombies_def split: if_splits dest!: readFromBoosterPipe_fd_state reap_loop_fd_state)
qed

lemma daemon_step_fd_state: "daemon_step d d' \<Longrightarrow> fd_state d' = fd_state d"
  by (induction rule: daemon_step.induct) (auto simp: fd_state_defs dest: main_iteration_fd_state [unfolded fd_state_defs])

lemma launcher_fds_cong: "fd_state d' = fd_state d \<Longrightarrow> launcher_fds_ok d' = launcher_fds_ok d"
  by (simp add: launcher_fds_ok_def fd_state_def)

interpretation launcher_fds: transition_system launched daemon_step launcher_fds_ok
  by unfold_locales (simp_all add: launched_fds launcher_fds_cong [OF daemon_step_fd_state])

subsection \<open>The forked booster\<close>

definition kept_in_child :: "booster_class \<Rightarrow> daemon \<Rightarrow> int set" where
  "kept_in_child k d = {snd (m_boosterPipeFd d), own_socket k d}"

lemma pipe_fds_list:
  "pipe_fds d = [fst (m_boosterPipeFd d), snd (m_boosterPipeFd d), fst (m_sigChldPipeFd d), snd (m_sigChldPipeFd d),
     fst (m_sigTermPipeFd d), snd (m_sigTermPipeFd d), fst (m_sigUsr1PipeFd d), snd (m_sigUsr1PipeFd d)]"
  by (simp add: pipe_fds_def pipe_ends_def split: prod.splits)

lemma internal_fds_set:
  assumes "launcher_fds_ok d"
  shows "set (internal_fds d) - kept_in_child k d = {m_lockFd d, fst (m_boosterPipeFd d), fst (m_sigChldPipeFd d),
    snd (m_sigChldPipeFd d), fst (m_sigTermPipeFd d), snd (m_sigTermPipeFd d), fst (m_sigUsr1PipeFd d),
    snd (m_sigUsr1PipeFd d)} \<union> other_sockets k d"
proof -
  note s = socket_of_class [OF assms]
  have socks: "set (map snd (d_sockets d)) = insert (own_socket k d) (other_sockets k d)"
    using s(2) by (auto simp: other_sockets_def)
  have own: "own_socket k d \<in> set (map snd (d_sockets d))" "own_socket k d \<notin> other_sockets k d"
    unfolding socks using s(4) by (auto simp: other_sockets_def)
  let ?ks = "m_lockFd d # pipe_fds d"
  have all: "internal_fds d = ?ks @ map snd (d_sockets d)" by (simp add: internal_fds_def)
  have "distinct (?ks @ map snd (d_sockets d))"
    using assms unfolding launcher_fds_ok_def all by simp
  then have dist: "distinct ?ks" "set ?ks \<inter> insert (own_socket k d) (other_sockets k d) = {}"
    unfolding distinct_append socks by blast+
  have "set (internal_fds d) = set ?ks \<union> insert (own_socket k d) (other_sockets k d)"
    unfolding all set_append socks ..
  with dist own(2) have "set (internal_fds d) - kept_in_child k d = (set ?ks - {snd (m_boosterPipeFd d)}) \<union> other_sockets k d"
    by (auto simp: kept_in_child_def pipe_fds_list)
  also have "set ?ks - {snd (m_boosterPipeFd d)} = {m_lockFd d, fst (m_boosterPipeFd d), fst (m_sigChldPipeFd d),
    snd (m_sigChldPipeFd d), fst (m_sigTermPipeFd d), snd (m_sigTermPipeFd d), fst (m_sigUsr1PipeFd d),
    snd (m_sigUsr1PipeFd d)}"
    using dist(1) by (auto simp: pipe_fds_list)
  finally show ?thesis .
qed

lemma own_socket_fd:
  assumes "launcher_fds_ok d"
  shows "2 < own_socket k d" "own_socket k d \<noteq> snd (m_boosterPipeFd d)" "own_socket k d \<in> set (internal_fds d)"
proof -
  have own: "own_socket k d \<in> set (map snd (d_sockets d))" using socket_of_class(2) [OF assms] by auto
  then show int: "own_socket k d \<in> set (internal_fds d)"
    unfolding internal_fds_def by (simp only: list.set set_append Un_iff insert_iff simp_thms)
  have "list_all (\<lambda>k. 2 < k) (internal_fds d)" using assms by (simp add: launcher_fds_ok_def)
  with int show "2 < own_socket k d" by (simp add: list_all_iff)
  have "distinct (m_lockFd d # pipe_fds d @ map snd (d_sockets d))"
    using assms by (simp add: launcher_fds_ok_def internal_fds_def)
  then have "set (pipe_fds d) \<inter> set (map snd (d_sockets d)) = {}"
    by (simp only: distinct.simps distinct_append)
  moreover have "snd (m_boosterPipeFd d) \<in> set (pipe_fds d)" by (simp add: pipe_fds_list)
  ultimately show "own_socket k d \<noteq> snd (m_boosterPipeFd d)" using own by (metis disjoint_iff)
qed

lemma drop_fds_find:
  "smap_ok m \<Longrightarrow> smap_ok (fold drop_fd ks m) \<and>
     smap_find (fold drop_fd ks m) j = (if j \<in> set ks then None else smap_find m j)"
  by (induction ks arbitrary: m) (auto simp: drop_fd_ok drop_fd_find)

lemma child_setup_value:
  assumes d: "launcher_fds_ok d"
  shows "\<exists>m. child_setup (boosterType k) sleepTime pid d = d\<lparr>d_sockets := [(socketId k, own_socket k d)], m_lockFd := -1,
      d_proc := (d_proc d)\<lparr>p_pid := pid, p_dfl := [SIGCHLD, SIGTERM, SIGUSR1], p_pdeathsig := SIGHUP, p_sid := pid,
        p_slept := (if \<not> m_bootMode d \<and> sleepTime \<noteq> 0 then p_slept (d_proc d) @ [sleepTime] else p_slept (d_proc d)),
        p_fds := m\<rparr>\<rparr> \<and> smap_ok m \<and>
    (\<forall>j. smap_find m j = (if j \<in> set (internal_fds d) - kept_in_child k d then None else fd_file (d_proc d) j))"
proof -
  let ?p = "(d_proc d)\<lparr>p_pid := pid, p_dfl := [SIGCHLD, SIGTERM, SIGUSR1], p_pdeathsig := SIGHUP\<rparr>"
  have ok: "smap_ok (p_fds (d_proc d))" using d by (simp add: launcher_fds_ok_def fds_ok_def)
  let ?ks = "[fst (m_boosterPipeFd d), fst (m_sigChldPipeFd d), snd (m_sigChldPipeFd d), fst (m_sigTermPipeFd d),
    snd (m_sigTermPipeFd d), fst (m_sigUsr1PipeFd d), snd (m_sigUsr1PipeFd d)]"
  define f where "f = fold drop_fd ?ks (p_fds (d_proc d))"
  have f: "smap_ok f" "smap_find f j = (if j \<in> set ?ks then None else fd_file (d_proc d) j)" for j
    using drop_fds_find [OF ok] by (simp_all only: f_def)
  have fok: "fds_ok (?p\<lparr>p_fds := f\<rparr>)" using f(1) by (simp add: fds_ok_def)
  from closeUnusedSockets_value [OF d fok, of k] obtain m where
    c: "closeUnusedSockets (boosterType k) (d_registry d) (d_sockets d) (?p\<lparr>p_fds := f\<rparr>)
      = ([(socketId k, own_socket k d)], ?p\<lparr>p_fds := f\<rparr>\<lparr>p_fds := m\<rparr>)" and
    m: "smap_ok m" "\<forall>fd. smap_find m fd = (if fd \<in> other_sockets k d then None else fd_file (?p\<lparr>p_fds := f\<rparr>) fd)"
    by blast
  have p5: "close_fd (snd (m_sigUsr1PipeFd d)) (close_fd (fst (m_sigUsr1PipeFd d))
      (close_fd (snd (m_sigTermPipeFd d)) (close_fd (fst (m_sigTermPipeFd d))
      (close_fd (snd (m_sigChldPipeFd d)) (close_fd (fst (m_sigChldPipeFd d))
      (close_fd (fst (m_boosterPipeFd d)) ?p)))))) = ?p\<lparr>p_fds := f\<rparr>"
    by (simp add: close_fd_drop f_def)
  have "m_lockFd d \<noteq> -1" using d by (auto simp: launcher_fds_ok_def internal_fds_def)
  then have "child_setup (boosterType k) sleepTime pid d = d\<lparr>d_sockets := [(socketId k, own_socket k d)], m_lockFd := -1,
      d_proc := (d_proc d)\<lparr>p_pid := pid, p_dfl := [SIGCHLD, SIGTERM, SIGUSR1], p_pdeathsig := SIGHUP, p_sid := pid,
        p_slept := (if \<not> m_bootMode d \<and> sleepTime \<noteq> 0 then p_slept (d_proc d) @ [sleepTime] else p_slept (d_proc d)),
        p_fds := drop_fd (m_lockFd d) m\<rparr>\<rparr>"
    unfolding child_setup_def Let_def p5 c prod.case by (simp add: unlock_def close_fd_drop)
  moreover have "smap_find (drop_fd (m_lockFd d) m) j =
      (if j \<in> set (internal_fds d) - kept_in_child k d then None else fd_file (d_proc d) j)" for j
    unfolding internal_fds_set [OF d] using m(2) by (simp add: drop_fd_find [OF m(1)] f(2))
  ultimately show ?thesis using m(1) drop_fd_ok by blast
qed

subsection \<open>From the fork to the application\<close>

text \<open>
  Filling the caches opens descriptors and closes none, and does not open the files \<open>L\<close>.
\<close>

definition caches_keep :: "nat set \<Rightarrow> platform \<Rightarrow> bool" where
  "caches_keep L pl \<longleftrightarrow> (\<forall>j r. only_opens r (populate pl j r) \<and> leaks L (populate pl j r) \<subseteq> leaks L r \<and>
     (\<forall>k. fd_file r k \<noteq> None \<longrightarrow> fd_file (populate pl j r) k = fd_file r k))"

lemma leaks_fds: "p_fds p = p_fds q \<Longrightarrow> leaks L p = leaks L q"
  by (simp add: leaks_def)

lemma preloaded_keeps:
  assumes "caches_keep L pl"
  shows "leaks L (preloaded pl k boot p) \<subseteq> leaks L p"
    "fd_file p j \<noteq> None \<Longrightarrow> fd_file (preloaded pl k boot p) j = fd_file p j"
    "fds_ok p \<Longrightarrow> fds_ok (preloaded pl k boot p)"
proof -
  let ?p = "p\<lparr>p_nice := 10\<rparr>"
  have "fds_ok p \<Longrightarrow> fds_ok (populate pl k ?p)"
    using assms by (auto simp: caches_keep_def only_opens_def fds_ok_def)
  then show "fds_ok p \<Longrightarrow> fds_ok (preloaded pl k boot p)"
    by (cases k) (simp_all add: preloaded_def preload_def fds_ok_def)
  have same: "leaks L ?p = leaks L p" "fd_file ?p j = fd_file p j" by (simp_all add: leaks_def)
  have "leaks L (populate pl k ?p) \<subseteq> leaks L ?p"
    "fd_file ?p j \<noteq> None \<longrightarrow> fd_file (populate pl k ?p) j = fd_file ?p j"
    using assms unfolding caches_keep_def by blast+
  then show "leaks L (preloaded pl k boot p) \<subseteq> leaks L p"
    "fd_file p j \<noteq> None \<Longrightarrow> fd_file (preloaded pl k boot p) j = fd_file p j"
    using same by (cases k; auto simp: preloaded_def preload_def leaks_def)+
qed

lemma fds_after_request_table:
  assumes "smap_ok m" "in_installed inc = [(in_fd inc, g), (d0, f0), (d1, f1), (d2, f2)]"
    and "distinct [in_fd inc, d0, d1, d2]" "wr \<noteq> in_fd inc" "j \<notin> {d0, d1, d2}"
  shows "smap_find (fds_after_request inc q wr m) j =
    (if j = wr then None else if j = in_fd inc then (if sends_pid q then Some g else None) else smap_find m j)"
  using assms by (auto simp: fds_after_request_def drop_fd_ok drop_fd_find smap_simps Let_def)

lemma convertStringsToCreds_space: "m_spaceAvailable (convertStringsToCreds pl ss b) = m_spaceAvailable b"
  by (induction pl ss b rule: convertStringsToCreds.induct) (simp_all split: option.splits)

lemma Booster_new_space: "m_spaceAvailable (Booster_new pl old) = 0"
  by (simp add: Booster_new_def convertStringsToCreds_space Let_def)

lemma factory_shipped: "BoosterFactory_create (boosterType k) shipped_registry = Some k"
  by (cases k) (simp_all add: BoosterFactory_create_def shipped_registry_eq shipped_classes_def entry_of_def)

text \<open>
  What the application shows of the launcher's files, for any set \<open>L\<close> of files that the launcher has
  open at its own descriptors only.
\<close>

lemma application_table:
  assumes d: "launcher_fds_ok d" "leaks L (d_proc d) \<subseteq> set (internal_fds d)"
    and p: "fds_ok p" "\<forall>j. fd_file p j = (if j \<in> set (internal_fds d) - kept_in_child k d then None else fd_file (d_proc d) j)"
    and pl: "caches_keep L pl" "{g, f0, f1, f2} \<inter> L = {}"
    and inc: "in_installed inc = [(in_fd inc, g), (d0, f0), (d1, f1), (d2, f2)]" "distinct [in_fd inc, d0, d1, d2]"
      "2 < in_fd inc" "{in_fd inc, d0, d1, d2} \<inter> kept_in_child k d = {}"
    and r: "map (fd_file r) [0, 1, 2] = map Some [f0, f1, f2]" "\<forall>j \<in> {d0, d1, d2}. fd_file r j = None"
      "\<forall>j. j \<notin> {0, 1, 2, d0, d1, d2} \<longrightarrow> fd_file r j = (if \<not> sends_pid q \<and> j = own_socket k d then None
        else smap_find (fds_after_request inc q (snd (m_boosterPipeFd d)) (p_fds (preloaded pl k boot p))) j)"
  shows "leaks L r = (if sends_pid q then leaks L (d_proc d) \<inter> {own_socket k d} else {})"
    "fd_file r (in_fd inc) = (if sends_pid q then Some g else None)"
proof -
  let ?wr = "snd (m_boosterPipeFd d)" and ?own = "own_socket k d" and ?m = "p_fds (preloaded pl k boot p)"
  have own: "2 < ?own" "?own \<noteq> ?wr" using own_socket_fd [OF d(1)] by simp_all
  have ok: "smap_ok ?m" using preloaded_keeps(3) [OF pl(1) p(1)] by (simp add: fds_ok_def)
  have new: "?wr \<noteq> in_fd inc" "?own \<notin> {in_fd inc, d0, d1, d2}"
    using inc(4) by (auto simp: kept_in_child_def)
  have table: "fd_file r j = (if \<not> sends_pid q \<and> j = ?own then None else if j = ?wr then None
      else if j = in_fd inc then (if sends_pid q then Some g else None) else smap_find ?m j)"
    if "j \<notin> {0, 1, 2, d0, d1, d2}" for j
    using r(3) that fds_after_request_table [OF ok inc(1,2) new(1), of j q] by simp
  show "fd_file r (in_fd inc) = (if sends_pid q then Some g else None)"
    using table [of "in_fd inc"] inc(2,3) new by auto
  have "j = ?own \<and> sends_pid q \<and> j \<in> leaks L (d_proc d)" if j: "j \<in> leaks L r" for j
  proof -
    obtain f where f: "f \<in> L" "fd_file r j = Some f" using j by (auto simp: leaks_def)
    have out: "j \<notin> {0, 1, 2, d0, d1, d2}" using f r(1,2) pl(2) by auto
    have "j \<noteq> in_fd inc" using table [OF out] f pl(2) by (auto split: if_splits)
    then have "j \<noteq> ?wr" "smap_find ?m j = Some f" "sends_pid q \<or> j \<noteq> ?own"
      using table [OF out] f by (auto split: if_splits)
    then have "j \<in> leaks L (preloaded pl k boot p)" using f(1) by (auto simp: leaks_def)
    then have "j \<in> leaks L p" using preloaded_keeps(1) [OF pl(1)] by blast
    then have "j \<in> leaks L (d_proc d)" "j \<notin> set (internal_fds d) - kept_in_child k d"
      using p(2) by (auto simp: leaks_def split: if_splits)
    with d(2) \<open>j \<noteq> ?wr\<close> \<open>sends_pid q \<or> j \<noteq> ?own\<close> show ?thesis by (auto simp: kept_in_child_def)
  qed
  moreover have "?own \<in> leaks L r" if sp: "sends_pid q" and sh: "?own \<in> leaks L (d_proc d)"
  proof -
    obtain f where f: "f \<in> L" "fd_file (d_proc d) ?own = Some f" using sh by (auto simp: leaks_def)
    then have "fd_file p ?own = Some f" using p(2) by (simp add: kept_in_child_def)
    then have "smap_find ?m ?own = Some f" using preloaded_keeps(2) [OF pl(1)] by simp
    then have "fd_file r ?own = Some f"
      using table [of ?own] own new sp by simp
    with f(1) show ?thesis by (auto simp: leaks_def)
  qed
  ultimately show "leaks L r = (if sends_pid q then leaks L (d_proc d) \<inter> {own_socket k d} else {})" by auto
qed

text \<open>
  What a booster writes for a request is, in the pipe, one report; and so a waiting booster that
  handles a request makes a step of the system of Applications.
\<close>

lemma report_of_reports:
  "plain (concat (report_of k inc q)) =
     reports [(boosterType k, word_of_int (if sends_pid q then peerPid (in_peer inc) else 0), word_of_int (rq_delay q))]"
  by (simp add: report_of_def report_bytes_def)

lemma request_launches:
  assumes "c \<in> set (m_children d)" "smap_find (d_ended d) c = None" "f c = Waiting (boosterType k)"
    and "p = word_of_int (if sends_pid q then peerPid (in_peer inc) else 0)"
  shows "app_step \<lparr>a_daemon = d, a_role = f, a_unread = u\<rparr>
    \<lparr>a_daemon = d\<lparr>d_pipe := (d_pipe d)\<lparr>rx := rx (d_pipe d) @ plain (concat (report_of k inc q))\<rparr>\<rparr>,
     a_role = f(c := Launched (boosterType k) (sint p)), a_unread = u @ [(c, boosterType k, p, word_of_int (rq_delay q))]\<rparr>"
  unfolding report_of_reports assms(4) [symmetric] using assms(1-3) by (rule launches)

text \<open>
  C4. What an application inherits. A booster of any class, forked by a running launcher,
  receives a request with three descriptors and becomes the application. Of the files that only
  the launcher's own descriptors show (the four pipes, the lock, the three listening sockets), the
  process in which \<open>main\<close> runs shows none if the invoker does not wait. If it waits, exactly the
  listening socket of its own booster type is left, and the connection to the invoker, until
  \<open>main\<close> returns. The daemon has then got one report of the request, and in the end the process
  exits with status 0 whatever \<open>main\<close> returned.
\<close>

theorem application_inherits:
  assumes reach: "launched l" "daemon_step\<^sup>*\<^sup>* l d"
    and d: "leaks L (d_proc d) \<subseteq> set (internal_fds d)"
      "root_launcher (d_proc d)" "p_args (d_proc d) = joined os @ rest" "os \<noteq> []" "\<forall>s \<in> set os. is_c_str s"
      "m_initialArgc d = int (length os)" "m_initialArgv d = arg_offsets 0 os"
    and pl: "caches_keep L pl" "{g, f0, f1, f2} \<inter> L = {}" "loadable pl q e"
    and inc: "incoming_request inc q" "tx (in_sock inc) = []" "rq_exec q \<noteq> []" "rq_fds q = [d0, d1, d2]"
      "env_ok (c_nomem (in_memory inc)) (rq_environ q)" "peer_accepted pl (in_fd inc)"
      "in_installed inc = [(in_fd inc, g), (d0, f0), (d1, f1), (d2, f2)]" "distinct [in_fd inc, d0, d1, d2]"
      "2 < in_fd inc" "2 < d0" "2 < d1" "2 < d2" "{in_fd inc, d0, d1, d2} \<inter> kept_in_child k d = {}"
      "in_event inc = InvokerConnected"
    and claim: "claim_instance si (app_of q AppData_init) w = Returns (si1, w1)"
  shows "\<exists>r b2 p2. leaks L r = (if sends_pid q then leaks L (d_proc d) \<inter> {own_socket k d} else {}) \<and>
    fd_file r (in_fd inc) = (if sends_pid q then Some g else None) \<and>
    map (fd_file r) [0, 1, 2] = map Some [f0, f1, f2] \<and>
    booster_child pl (boosterType k) sleepTime pid si inc w old d = Returns (Some [], b2, p2) \<and>
    booster_process pl (boosterType k) sleepTime pid si inc w old d = Exits EXIT_SUCCESS \<and>
    p_sent r = p_sent (d_proc d) @ report_of k inc q \<and>
    p2 = left_behind q (in_fd inc) [(socketId k, own_socket k d)] (snd (run_main pl q e r))"
proof -
  have ok: "launcher_fds_ok d" by (rule launcher_fds.reachable_inv [OF reach])
  obtain m where c: "child_setup (boosterType k) sleepTime pid d = d\<lparr>d_sockets := [(socketId k, own_socket k d)], m_lockFd := -1,
      d_proc := (d_proc d)\<lparr>p_pid := pid, p_dfl := [SIGCHLD, SIGTERM, SIGUSR1], p_pdeathsig := SIGHUP, p_sid := pid,
        p_slept := (if \<not> m_bootMode d \<and> sleepTime \<noteq> 0 then p_slept (d_proc d) @ [sleepTime] else p_slept (d_proc d)),
        p_fds := m\<rparr>\<rparr>" (is "_ = ?d") and m: "smap_ok m"
    "\<forall>j. smap_find m j = (if j \<in> set (internal_fds d) - kept_in_child k d then None else fd_file (d_proc d) j)"
    using child_setup_value [OF ok] by blast
  let ?p = "d_proc ?d" and ?sm = "[(socketId k, own_socket k d)]"
  have p: "root_launcher ?p" "p_args ?p = joined os @ rest" "fds_ok ?p"
    using d(2,3) m(1) by (simp_all add: root_launcher_def fds_ok_def)
  note own = own_socket_fd [OF ok, of k]
  have fds: "snd (m_boosterPipeFd d) \<notin> {d0, d1, d2}" "snd ` set ?sm \<inter> {d0, d1, d2} = {}"
    using inc(13) by (auto simp: kept_in_child_def)
  have opens: "only_opens r (populate pl j r)" for j r using pl(1) by (simp add: caches_keep_def)
  have "own_socket k d \<noteq> -1" using own(1) by simp
  note launch = launch_value [where k = k and boot = "m_bootMode d" and b = "Booster_new pl old", OF p(1,2) d(4,5) Booster_new_space opens impI [OF disjI2 [OF inc(14)]]
      inc(1-5) this inc(6,7,8,10-12) fds claim pl(3)]
  from launch obtain b1 p1 r where i: "initialize pl k (int (length os)) (arg_offsets 0 os) (m_boosterPipeFd d)
      (own_socket k d) si (m_bootMode d) inc w (Booster_new pl old) ?p = Returns (b1, si1, w1, p1)"
    and prep: "prepared pl q [f0, f1, f2]
      (renamed_for q (shown_args (length (joined os)) (rq_args q) @ rest) (p_sent ?p @ report_of k inc q) ?p) r"
    and table: "\<forall>j. j \<notin> {0, 1, 2, d0, d1, d2} \<longrightarrow> fd_file r j =
       (if \<not> sends_pid q \<and> j \<in> snd ` set ?sm \<and> 0 < j then None
        else smap_find (fds_after_request inc q (snd (m_boosterPipeFd d)) (p_fds (preloaded pl k (m_bootMode d) ?p))) j)"
    and run: "case run_main pl q e r of (status, r') \<Rightarrow> \<exists>b2 c.
      run pl (Some ?sm) b1 p1 = Returns (Some [], b2, left_behind q (in_fd inc) ?sm r') \<and>
      b_connection b2 = Some c \<and> c_fd c = -1 \<and> m_argv (b_appData b2) = None \<and>
      tx (c_sock c) = msg_wire INVOKER_MSG_ACK @
        (if sends_pid q then msg_wire INVOKER_MSG_PID @ msg_wire (word_of_int (p_pid ?p)) @
           msg_wire INVOKER_MSG_EXIT @ msg_wire (word_of_int status) else [])"
    by (elim exE conjE) (rule that)
  have r: "map (fd_file r) [0, 1, 2] = map Some [f0, f1, f2]" "\<forall>j \<in> {d0, d1, d2}. fd_file r j = None"
    using prep inc(4) by (simp_all add: prepared_def)
  have find: "\<forall>j. fd_file ?p j = (if j \<in> set (internal_fds d) - kept_in_child k d then None else fd_file (d_proc d) j)"
    using m(2) by simp
  have table': "\<forall>j. j \<notin> {0, 1, 2, d0, d1, d2} \<longrightarrow> fd_file r j = (if \<not> sends_pid q \<and> j = own_socket k d then None
      else smap_find (fds_after_request inc q (snd (m_boosterPipeFd d)) (p_fds (preloaded pl k (m_bootMode d) ?p))) j)"
    using table own(1) by simp
  note app = application_table [OF ok d(1) p(3) find pl(1,2) inc(7-9,13) r table']
  obtain status r' where main: "run_main pl q e r = (status, r')" by (cases "run_main pl q e r")
  with run obtain b2 where b2: "run pl (Some ?sm) b1 p1 = Returns (Some [], b2, left_behind q (in_fd inc) ?sm r')"
    "m_argv (b_appData b2) = None" by auto
  obtain a where "AppData_delete (HAVE_CREDS (pl_creds pl)) (b_appData b2) = Returns a"
    using AppData_delete_released [OF b2(2)] by blast
  then have del: "Booster_delete pl b2 = Returns ()" by (simp add: Booster_delete_def)
  have sent: "p_sent r = p_sent (d_proc d) @ report_of k inc q"
    using prep by (auto simp: prepared_def taken_identity_def renamed_for_def)
  have "d_registry ?d = shipped_registry" "findSocket (socketId k) (d_sockets ?d) = own_socket k d"
    using ok by (simp_all add: launcher_fds_ok_def findSocket_def)
  then have child: "booster_child pl (boosterType k) sleepTime pid si inc w old d
      = Returns (Some [], b2, left_behind q (in_fd inc) ?sm r')"
    using i b2(1) d(6,7) by (simp add: booster_child_def c factory_shipped)
  then have "booster_process pl (boosterType k) sleepTime pid si inc w old d = Exits EXIT_SUCCESS"
    by (simp add: booster_process_def del)
  with child app r(1) main sent show ?thesis by (intro exI [of _ r] exI [of _ b2] exI) (simp split: prod.split)
qed

text \<open>A launch by the launcher that \<open>fresh_daemon\<close> becomes, of a program whose invoker waits.\<close>

theorem application_inherits_witness:
  "\<exists>d q inc r b2 p2. launched d \<and> sends_pid q \<and> leaks {50} r \<subseteq> {own_socket MBooster d} \<and>
     fd_file r (in_fd inc) = Some 0 \<and>
     booster_child launch_platform (boosterType MBooster) 0 110 None inc () (Booster_example 0) d = Returns (Some [], b2, p2)"
proof -
  let ?os = "[''applauncherd'', ''--boot-mode'']"
  have bare: "bare_system fresh_daemon" "d_forks fresh_daemon = 101 # 102 # 103 # []"
    by (rule fresh_bare)+
  have st: "\<not> st_instance example_startup" "null_devices example_startup 30 31"
    "st_pipes example_startup = map Some [40, 42, 44, 46]" "length [40 :: nat, 42, 44, 46] = 4"
    "\<not> given HELP ?os" "given DAEMON ?os \<longrightarrow> detaches example_startup" "\<not> given DAEMON ?os" "\<not> given QUIET ?os"
    by (simp_all add: example_startup_def null_devices_def)
  obtain d where run: "launcher_main (Some 50) False example_startup ?os (arg_offsets 0 ?os) APPLAUNCHERD_DIR shipped_libs []
      fresh_daemon = Returns d"
    and d: "m_initialArgc d = int (length ?os)" "m_initialArgv d = arg_offsets 0 ?os"
    "\<forall>k. k \<notin> {0, 1, 2} \<longrightarrow> k \<notin> set (internal_fds d) \<longrightarrow> fd_file (d_proc d) k = fd_file (d_proc fresh_daemon) k"
    "std_fds (given QUIET ?os \<or> given DAEMON ?os) 30 31 (d_proc fresh_daemon) (d_proc d)"
    "d_proc d = (if given DAEMON ?os then detached example_startup (d_proc fresh_daemon) else d_proc fresh_daemon)
        \<lparr>p_fds := p_fds (d_proc d), p_environ := sys_unsetenv ''LD_BIND_NOW'' (p_environ (d_proc fresh_daemon))\<rparr>"
    "launcher_fds_ok d"
    using start_value [OF bare st(1-6), of 50 "arg_offsets 0 ?os" "[]"]
    by (elim exE conjE) (rule that; simp only: main_loop.simps)
  have launched: "launched d"
    unfolding launched_def using bare st(1-6) run by blast
  define n where "n = max 3 (max (snd (m_boosterPipeFd d)) (own_socket MBooster d) + 1)"
  define q where "q = launch_request\<lparr>rq_fds := [n, n + 1, n + 2]\<rparr>"
  define inc where "inc = launch_incoming\<lparr>in_fd := n + 3,
    in_sock := \<lparr>rx = request_wire q, tx = [], rplan = [], wplan = []\<rparr>,
    in_installed := [(n + 3, 0), (n, 0), (n + 1, 0), (n + 2, 0)]\<rparr>"
  have fresh: "p_fds (d_proc fresh_daemon) = [(0, 0), (1, 0), (2, 0), (3, 1)]"
    by (simp add: fresh_daemon_def with_pipe_def example_daemon_def example_proc_def)
  have "fd_file (d_proc d) k \<noteq> Some 50" if "k \<notin> set (internal_fds d)" for k
    using d(3,4) st(7,8) that fresh by (cases "k \<in> {0, 1, 2}") (auto simp: std_fds_def)
  then have leak: "leaks {50} (d_proc d) \<subseteq> set (internal_fds d)" by (auto simp: leaks_def)
  have "d_proc fresh_daemon = example_proc" by (simp add: fresh_daemon_def with_pipe_def example_daemon_def)
  then have "d_proc d = example_proc\<lparr>p_fds := p_fds (d_proc d),
      p_environ := sys_unsetenv ''LD_BIND_NOW'' (p_environ example_proc)\<rparr>" using d(5) st(7) by simp
  then obtain m e where pd: "d_proc d = example_proc\<lparr>p_fds := m, p_environ := e\<rparr>" by blast
  have p: "root_launcher (d_proc d)" "p_args (d_proc d) = joined ?os @ []"
    using launch_proc(1) d(6) example_args by (auto simp: root_launcher_def pd launcher_fds_ok_def fds_ok_def)
  have big: "3 \<le> n" "snd (m_boosterPipeFd d) < n" "own_socket MBooster d < n" by (auto simp: n_def)
  have qf: "rq_args q = [''app'', ''-x'']" "rq_exec q = ''/bin/app''" "sends_pid q" "rq_fds q = [n, n + 1, n + 2]"
    "rq_options q = 1" "rq_environ q = rq_environ launch_request"
    using launch_request_fields by (simp_all add: q_def sends_pid_def)
  have ok: "request_ok q"
    by (simp add: request_ok_def q_def launch_request_def request_of_def option_defs str_ok_def args_ok_def)
  have inc: "incoming_request inc q" "tx (in_sock inc) = []" "rq_exec q \<noteq> []"
    "env_ok (c_nomem (in_memory inc)) (rq_environ q)" "peer_accepted launch_platform (in_fd inc)"
    "in_installed inc = [(in_fd inc, 0), (n, 0), (n + 1, 0), (n + 2, 0)]" "distinct [in_fd inc, n, n + 1, n + 2]"
    "2 < in_fd inc" "2 < n" "2 < n + 1" "2 < n + 2" "{in_fd inc, n, n + 1, n + 2} \<inter> kept_in_child MBooster d = {}"
    "in_event inc = InvokerConnected"
    using ok big launch_incoming_fields launch_platform_fields(1)
    by (auto simp: inc_def incoming_request_def qf kept_in_child_def env_ok_def launch_request_def request_of_def
        putenv_sanitize_def env_name_def)
  have pl: "caches_keep {50} launch_platform" "{0, 0, 0, 0} \<inter> {50 :: nat} = {}" "loadable launch_platform q 2"
    using launch_platform_fields(3)
    by (auto simp: caches_keep_def launch_platform_def example_platform_def only_opens_def loadable_def qf)
  have os: "?os \<noteq> []" "\<forall>s \<in> set ?os. is_c_str s" using launch_proc(2) by simp_all
  obtain r b2 p2 where r: "leaks {50} r = (if sends_pid q then leaks {50} (d_proc d) \<inter> {own_socket MBooster d} else {})"
    "fd_file r (in_fd inc) = (if sends_pid q then Some 0 else None)"
    "booster_child launch_platform (boosterType MBooster) 0 110 None inc () (Booster_example 0) d = Returns (Some [], b2, p2)"
    using application_inherits [OF launched rtranclp.rtrancl_refl leak p os d(1,2) pl inc(1-3) qf(4) inc(4-) launch_claim,
        of 0 110 "()" "Booster_example 0"] by blast
  then have "leaks {50} r \<subseteq> {own_socket MBooster d}" "fd_file r (in_fd inc) = Some 0" using qf(3) by auto
  with launched qf(3) r(3) show ?thesis by blast
qed

end
