(* ===== verification/Spec2Isabelle.thy ===== *)
theory Spec2Isabelle
  imports Signal_Pipes Launcher_Lock Invoker_Safety Signals Single_Instance_Safety Launcher
    Event_Handler Declarative_Cache Logging Launcher_Start Daemon_Turns Inheritance
    Applications
begin

text \<open>
  A model of applauncherd, which starts applications fast by forking them from processes that
  have the common libraries loaded and initialised already.

  \<^bold>\<open>The program.\<close> The executable \<open>applauncherd\<close> (\<open>src/launcher\<close>) preloads libraries and runs the
  launcher library (\<open>src/launcherlib\<close>), whose \<^emph>\<open>daemon\<close> loads booster plugins, opens one
  listening socket per plugin and forks one \<^emph>\<open>booster\<close> per plugin. A booster (\<open>src/mbooster\<close>,
  \<open>src/qtbooster\<close>, \<open>src/qdeclarativebooster\<close>) initialises what its kind of application needs and
  waits at its socket. The \<^emph>\<open>invoker\<close> (\<open>src/invoker\<close>) is run in place of the application: it
  parses its options, finds the program, connects to the socket of the requested type and
  sends options, name, program, arguments, priority, delay, ids, descriptors and environment
  in the protocol of \<open>src/common/protocol.h\<close>. The booster acknowledges, reports to the
  daemon through a pipe that all boosters share (the daemon then forks the next booster), takes
  over name, arguments, descriptors, identity and environment, and jumps into the program's
  \<open>main\<close>; if the invoker waits, it gets the pid, forwards signals and returns the exit status. The
  daemon reaps its children, replaces dead boosters, and passes on signals that killed an
  application. \<open>src/single-instance\<close>, loaded as a plugin or run as a program, lets one
  instance of an application run and raises its window instead of starting a second.

  \<^bold>\<open>Foundations.\<close> \<open>Prelude\<close>: \<open>outcome\<close> (a call returns, ends the process with a status, or is
  undefined behaviour), bytes and little-endian words, C strings. \<open>Std_Map\<close>: \<open>std::map\<close> as a
  sorted association list, with the locale \<open>std_map\<close>. \<open>Process\<close>: the process record and the
  system calls on it (descriptors, identity, environment, pipe). \<open>Channel\<close>: one end of a
  stream socket, with short and failing reads and writes and control messages as plans.
  \<open>Transition\<close>: transition systems with an invariant, and their simulation, as locales.

  \<^bold>\<open>Conversation.\<close> \<open>Protocol\<close> (\<open>protocol.h\<close>), \<open>AppData\<close> (\<open>appdata.cpp\<close>), \<open>Connection\<close>
  (\<open>connection.cpp\<close>: class \<open>Connection\<close> as a record, one definition per member, the receive loop
  by recursion on the input left), \<open>Invoker\<close> (\<open>invokelib.c\<close> and the sending and receiving functions
  of \<open>invoker.c\<close>). \<open>Wire\<close> states what a receiving operation owes to an encoder as the locales
  \<open>wire_format\<close> and \<open>action_format\<close>, interpreted for every action; \<open>Handshake\<close> puts both sides
  together; \<open>Connection_Safety\<close> is about arbitrary peers.

  \<^bold>\<open>Boosters and daemon.\<close> \<open>Registry\<close> (plugin registry, factory, single-instance holder, the members
  of the three booster classes), \<open>Socket_Manager\<close> (\<open>socketmanager.cpp\<close>), \<open>Booster\<close>
  (\<open>booster.cpp\<close>, \<open>mbooster.cpp\<close>) with \<open>Booster_Safety\<close> and \<open>Launch\<close> (a launch from
  invoker to application and back), \<open>Event_Handler\<close> (\<open>eventhandler.cpp\<close>),
  \<open>Declarative_Cache\<close> (\<open>mdeclarativecache.cpp\<close>), \<open>Daemon\<close> (\<open>daemon.cpp\<close>, \<open>main.cpp\<close>) with
  \<open>Daemon_Safety\<close> (reaping, bookkeeping), \<open>Daemon_Pipe\<close> (the pipe between boosters and daemon),
  \<open>Daemon_System\<close> (the daemon among its processes as a transition system),
  \<open>Applications\<close> (the same with what each process is, a waiting booster or an application, which
  refines it), \<open>Signal_Pipes\<close> (the signal handlers and the pipes that wake the loop, which refine it), \<open>Daemon_Turns\<close> (what a
  turn of the loop costs and how it ends, and that the loop catches up),
  \<open>Launcher_Lock\<close> (who holds the launcher's lock), \<open>Launcher_Start\<close> (from \<open>main\<close> to the main
  loop) and \<open>Inheritance\<close> (which of the launcher's files an application still has, and that a
  booster's work on a request is a step of \<open>Applications\<close>);
  \<open>Launcher\<close> (\<open>launcher.c\<close>, \<open>preload.h\<close>), \<open>Logging\<close> (\<open>report.c\<close>, \<open>logger.cpp\<close>).

  \<^bold>\<open>Command line.\<close> \<open>Getopt\<close> (the option scan with the tables of \<open>invoker.c\<close>), \<open>Search\<close>
  (\<open>search.c\<close>), \<open>Invoker_Main\<close> (\<open>main\<close>, \<open>invoke\<close> and what they call) with \<open>Invoker_Safety\<close>,
  \<open>Signals\<close> (what becomes of signals to a waiting invoker).

  \<^bold>\<open>Single instance.\<close> \<open>Single_Instance\<close> (\<open>single-instance/main.cpp\<close> on directories, record locks,
  descriptors and windows), \<open>Lock_Path\<close> (\<open>mkpath\<close> and \<open>lock\<close>), \<open>Single_Instance_Safety\<close> (the
  system of instances; the locale \<open>instance_plugin\<close> is what a booster relies on).

  \<^bold>\<open>What is shown.\<close> A launch from end to end: a booster that gets an invoker's request runs the
  program's \<open>main\<close> in the process the request describes and the invoker returns its status; and the
  launcher from its own \<open>main\<close> to the main loop. Round
  trips: a request, a status, a report and a command line arrive as they were sent. Liveness: the
  loop of the daemon loses no wake-up, replaces dead boosters within a turn, and empties its
  pipes in as many turns as the fullest has entries. Invariants over
  all inputs and all reachable states: strings, vectors and environments within their limits
  whatever a peer sends; every plugin has a booster; one instance per lock file; the socket map
  well formed on every branch; no file of the launcher in an application without a waiting
  invoker. Refinement: the
  interleaved loop of the daemon refines its atomic turns, and so does the system of boosters and
  applications, in which the daemon's books are true and a killed application's signal reaches its
  invoker; the instances refine a table of exclusive entries. Functional
  descriptions of reaping, sockets, renaming, descriptors, identity, priority, program search,
  preloading and caching. Error behaviour: rejected peers, oversized requests, exit statuses, and
  when a turn of the loop ends the launcher.
  Where the code does something else than it means to, the theorem states what it does (the version
  check that never refuses, a refused argument count that crashes, mixed reports, the order of
  \<open>setuid\<close> and \<open>setgid\<close>, argument lists walked twice, the lock of a detached launcher, the
  listening socket left open in the application of a waiting invoker, forwarding that ends with
  the first signal).

  \<^bold>\<open>Inputs and bounds.\<close> What the kernel and libraries answer is an input of the state or an
  argument: the plans of a \<open>sock\<close>, pids of forks, ended children, results of \<open>select\<close>, \<open>dlopen\<close>,
  \<open>dlsym\<close>, \<open>stat\<close>, the credentials library, the X server, Qt's constructions. Uninitialised
  memory is an arbitrary value of the state. No definition uses fuel: every loop ends by a
  measure (the input left, the children left, the length of a path), and the main loop of the daemon
  runs over the list of results of \<open>select\<close>; \<open>turns n\<close> is that loop for \<open>n\<close> turns. Machine integers on the wire are 32-bit words; pids
  and delays are converted as the code converts them. \<open>ULONG_MAX\<close> is an argument. A function
  that has the name of a constant of the library, or of another part, is renamed
  (\<open>invoker_main\<close>, \<open>launcher_main\<close>, \<open>si_main\<close>, \<open>instance_lock\<close>, \<open>populate_cache\<close>).

  \<^bold>\<open>Not modelled.\<close> Printing and log texts at their call sites (only \<open>Logging\<close> itself); Qt and
  MeeGo Touch objects beyond what the cache and the event loop keep; the accepting thread
  of \<open>MBooster\<close> running at the same time as the event loop (it is an event of the loop); failures of
  memory allocation except those of \<open>putenv\<close>; symbolic links; the destructors of the daemon and of
  the declarative cache (nothing runs after them); tests, packaging, documentation and examples.
\<close>

end
